(* ===== verification/Prelude.thy ===== *)
theory Prelude
  imports Main "HOL-Library.Multiset"
begin

text \<open>
  What the components share: Go's 64-bit integers as integers with the wrap-around written out,
  actions (state-passing computations that may return an error), their invariants, and lemmas on lists used as database tables.
\<close>

section \<open>Collections of the development\<close>

named_theorems act_simps "unfolding of actions applied to a state"
named_theorems act_errs "how an action applied to a state can fail"
named_theorems keeps_intros "introduction rules for invariants kept by actions"


section \<open>Machine integers\<close>

text \<open>Go's \<open>int\<close> and \<open>int64\<close>: two's complement values of 64 bits.\<close>

definition wrap64 :: "int \<Rightarrow> int" where
  "wrap64 x = (x + 2 ^ 63) mod 2 ^ 64 - 2 ^ 63"

definition int64_range :: "int \<Rightarrow> bool" where
  "int64_range x \<longleftrightarrow> - (2 ^ 63) \<le> x \<and> x < 2 ^ 63"

lemma wrap64_range: "int64_range (wrap64 x)"
proof -
  have "0 \<le> (x + 2 ^ 63) mod 2 ^ 64" "(x + 2 ^ 63) mod 2 ^ 64 < 2 ^ 64" by simp_all
  then show ?thesis by (simp add: int64_range_def wrap64_def)
qed

lemma wrap64_id [simp]: "int64_range x \<Longrightarrow> wrap64 x = x"
  by (simp add: int64_range_def wrap64_def)


section \<open>Actions: state passing with errors\<close>

type_synonym ('s, 'e, 'a) act = "'s \<Rightarrow> ('e + 'a) \<times> 's"

definition ret :: "'a \<Rightarrow> ('s, 'e, 'a) act" where
  "ret x = (\<lambda>s. (Inr x, s))"

definition throw :: "'e \<Rightarrow> ('s, 'e, 'a) act" where
  "throw e = (\<lambda>s. (Inl e, s))"

definition gets :: "('s \<Rightarrow> 'a) \<Rightarrow> ('s, 'e, 'a) act" where
  "gets f = (\<lambda>s. (Inr (f s), s))"

definition modify :: "('s \<Rightarrow> 's) \<Rightarrow> ('s, 'e, unit) act" where
  "modify f = (\<lambda>s. (Inr (), f s))"

definition andThen :: "('s, 'e, 'a) act \<Rightarrow> ('a \<Rightarrow> ('s, 'e, 'b) act) \<Rightarrow> ('s, 'e, 'b) act" where
  "andThen m f = (\<lambda>s. case m s of (Inl e, s') \<Rightarrow> (Inl e, s') | (Inr x, s') \<Rightarrow> f x s')"

text \<open>\<open>failIf b e\<close> is the early return \<^verbatim>\<open>if b { return e }\<close>.\<close>

definition failIf :: "bool \<Rightarrow> 'e \<Rightarrow> ('s, 'e, unit) act" where
  "failIf b e = (if b then throw e else ret ())"

lemmas act_defs = ret_def throw_def gets_def modify_def failIf_def

lemma ret_Inr_iff [act_simps]: "ret x s = (Inr y, t) \<longleftrightarrow> y = x \<and> t = s"
  by (auto simp: ret_def)

lemma throw_Inr_iff [act_simps]: "throw e s = (Inr y, t) \<longleftrightarrow> False"
  by (simp add: throw_def)

lemma gets_Inr_iff [act_simps]: "gets f s = (Inr y, t) \<longleftrightarrow> y = f s \<and> t = s"
  by (auto simp: gets_def)

lemma modify_Inr_iff [act_simps]: "modify f s = (Inr y, t) \<longleftrightarrow> t = f s"
  by (auto simp: modify_def)

lemma failIf_Inr_iff [act_simps]: "failIf b e s = (Inr y, t) \<longleftrightarrow> \<not> b \<and> t = s"
  by (auto simp: failIf_def ret_def throw_def)

lemma andThen_Inr_iff [act_simps]:
  "andThen m f s = (Inr y, t) \<longleftrightarrow> (\<exists>x u. m s = (Inr x, u) \<and> f x u = (Inr y, t))"
  by (auto simp: andThen_def split: prod.splits sum.splits)

lemma ret_Inl_iff [act_errs]: "ret x s = (Inl e, t) \<longleftrightarrow> False"
  by (simp add: ret_def)

lemma throw_Inl_iff [act_errs]: "throw e s = (Inl e', t) \<longleftrightarrow> e' = e \<and> t = s"
  by (auto simp: throw_def)

lemma gets_Inl_iff [act_errs]: "gets f s = (Inl e, t) \<longleftrightarrow> False"
  by (simp add: gets_def)

lemma failIf_Inl_iff [act_errs]: "failIf b e s = (Inl e', t) \<longleftrightarrow> b \<and> e' = e \<and> t = s"
  by (auto simp: failIf_def ret_def throw_def)

lemma andThen_Inl_iff [act_errs]:
  "andThen m f s = (Inl e, t) \<longleftrightarrow> m s = (Inl e, t) \<or> (\<exists>x u. m s = (Inr x, u) \<and> f x u = (Inl e, t))"
  by (auto simp: andThen_def split: prod.splits sum.splits)

text \<open>An action keeps an invariant when no outcome, error or not, leaves it.\<close>

definition keeps :: "('s \<Rightarrow> bool) \<Rightarrow> ('s, 'e, 'a) act \<Rightarrow> bool" where
  "keeps I m \<longleftrightarrow> (\<forall>s. I s \<longrightarrow> I (snd (m s)))"

lemma keepsD: "keeps I m \<Longrightarrow> I s \<Longrightarrow> I (snd (m s))"
  by (simp add: keeps_def)

lemma keepsI: "(\<And>s. I s \<Longrightarrow> I (snd (m s))) \<Longrightarrow> keeps I m"
  by (simp add: keeps_def)

lemma keeps_ret [keeps_intros]: "keeps I (ret x)"
  by (simp add: keeps_def ret_def)

lemma keeps_throw [keeps_intros]: "keeps I (throw e)"
  by (simp add: keeps_def throw_def)

lemma keeps_gets [keeps_intros]: "keeps I (gets f)"
  by (simp add: keeps_def gets_def)

lemma keeps_failIf [keeps_intros]: "keeps I (failIf b e)"
  by (simp add: keeps_def failIf_def ret_def throw_def)

lemma keeps_modify: "(\<And>s. I s \<Longrightarrow> I (f s)) \<Longrightarrow> keeps I (modify f)"
  by (simp add: keeps_def modify_def)

lemma keeps_andThen [keeps_intros]:
  "keeps I m \<Longrightarrow> (\<And>x. keeps I (f x)) \<Longrightarrow> keeps I (andThen m f)"
  by (fastforce simp: keeps_def andThen_def split: prod.splits sum.splits)


lemma keeps_sndI: "(\<And>s. snd (m s) = snd (n s)) \<Longrightarrow> keeps I n \<Longrightarrow> keeps I m"
  by (simp add: keeps_def)


section \<open>Lists as tables\<close>

text \<open>\<open>UPDATE ... WHERE p\<close> on a table, and the number of rows it touches.\<close>

definition update_where :: "('r \<Rightarrow> bool) \<Rightarrow> ('r \<Rightarrow> 'r) \<Rightarrow> 'r list \<Rightarrow> 'r list" where
  "update_where p f rs = map (\<lambda>r. if p r then f r else r) rs"

definition count_where :: "('r \<Rightarrow> bool) \<Rightarrow> 'r list \<Rightarrow> nat" where
  "count_where p rs = length (filter p rs)"

lemma set_update_where: "set (update_where p f rs) = (\<lambda>r. if p r then f r else r) ` set rs"
  by (simp add: update_where_def)

lemma set_update_where_one:
  assumes "x \<in> set rs" "p x" "\<And>y. y \<in> set rs \<Longrightarrow> p y \<Longrightarrow> y = x"
  shows "set (update_where p f rs) = insert (f x) {r \<in> set rs. \<not> p r}"
proof -
  have "set rs \<inter> Collect p = {x}" using assms by blast
  then show ?thesis by (auto simp: set_update_where)
qed

lemma ball_update_where:
  "(\<forall>r\<in>set (update_where p f rs). Q r) \<longleftrightarrow> (\<forall>r\<in>set rs. if p r then Q (f r) else Q r)"
  by (auto simp: update_where_def)

lemma bex_update_where:
  "(\<exists>r\<in>set (update_where p f rs). Q r) \<longleftrightarrow> (\<exists>r\<in>set rs. if p r then Q (f r) else Q r)"
  by (auto simp: update_where_def)

lemma update_where_none: "\<forall>r\<in>set rs. \<not> p r \<Longrightarrow> update_where p f rs = rs"
  by (simp add: update_where_def map_idI)

lemma map_update_where_same:
  "(\<And>r. p r \<Longrightarrow> k (f r) = k r) \<Longrightarrow> map k (update_where p f rs) = map k rs"
  by (simp add: update_where_def)

lemma filter_update_where:
  "(\<And>r. p r \<Longrightarrow> q (f r) = q r) \<Longrightarrow>
   filter q (update_where p f rs) = update_where p f (filter q rs)"
  by (induction rs) (auto simp: update_where_def)

text \<open>Rows an update takes out of the selection \<open>q\<close>.\<close>

lemma filter_update_where_drop:
  "(\<And>r. p r \<Longrightarrow> \<not> q (f r)) \<Longrightarrow>
   filter q (update_where p f rs) = filter (\<lambda>r. q r \<and> \<not> p r) rs"
  by (induction rs) (auto simp: update_where_def)

lemma image_update_where_same:
  "(\<And>r. p r \<Longrightarrow> k (f r) = k r) \<Longrightarrow> k ` set (update_where p f rs) = k ` set rs"
  using map_update_where_same[of p k f rs] by (metis list.set_map)

text \<open>An update that keeps the key and adds no row to the selection keeps a partial unique index.\<close>

lemma distinct_filter_update_where:
  assumes "\<And>r. p r \<Longrightarrow> k (f r) = k r" "\<And>r. p r \<Longrightarrow> q (f r) \<Longrightarrow> q r"
    and "distinct (map k (filter q rs))"
  shows "distinct (map k (filter q (update_where p f rs)))"
proof -
  have sub: "set (map k (filter q (update_where p f rs))) \<subseteq> set (map k (filter q rs))" for rs
    using assms(1,2) by (auto simp: set_update_where image_iff)
  show ?thesis using assms(3)
  proof (induction rs)
    case (Cons r rs)
    then show ?case using sub[of rs] assms(1)[of r] assms(2)[of r]
      by (auto simp: update_where_def image_iff split: if_splits)
  qed (simp add: update_where_def)
qed

lemma count_where_0_iff: "count_where p rs = 0 \<longleftrightarrow> (\<forall>r\<in>set rs. \<not> p r)"
  by (auto simp: count_where_def filter_empty_conv)

lemma distinct_map_filter_inj:
  "distinct (map k xs) \<Longrightarrow> x \<in> set xs \<Longrightarrow> y \<in> set xs \<Longrightarrow> k x = k y \<Longrightarrow> x = y"
  by (auto simp: distinct_map inj_on_def)

lemma distinct_map_filterI: "distinct (map k xs) \<Longrightarrow> distinct (map k (filter p xs))"
  by (simp add: distinct_map_filter)

lemma find_Some_set: "find p xs = Some x \<Longrightarrow> x \<in> set xs \<and> p x"
  by (auto simp: find_Some_iff)

lemma find_unique:
  assumes "x \<in> set xs" "p x" "\<And>y. y \<in> set xs \<Longrightarrow> p y \<Longrightarrow> y = x"
  shows "find p xs = Some x"
proof -
  have "find p xs \<noteq> None" using assms(1,2) by (auto simp: find_None_iff)
  then obtain y where "find p xs = Some y" by blast
  with assms(3) find_Some_set[of p xs y] show ?thesis by auto
qed

text \<open>
  A query without \<open>ORDER BY\<close> returns its rows in an order the database chooses. The order is a
  parameter: for every length a list of row numbers.
\<close>

type_synonym row_order = "nat \<Rightarrow> nat list"

definition row_order_ok :: "row_order \<Rightarrow> bool" where
  "row_order_ok ord \<longleftrightarrow> (\<forall>n. mset (ord n) = mset [0..<n])"

definition in_order :: "row_order \<Rightarrow> 'r list \<Rightarrow> 'r list" where
  "in_order ord rs = map ((!) rs) (ord (length rs))"

lemma mset_in_order: "row_order_ok ord \<Longrightarrow> mset (in_order ord rs) = mset rs"
proof -
  assume "row_order_ok ord"
  then have "mset (ord (length rs)) = mset [0..<length rs]" by (simp add: row_order_ok_def)
  then have "mset (in_order ord rs) = image_mset ((!) rs) (mset [0..<length rs])"
    by (simp add: in_order_def)
  also have "\<dots> = mset (map ((!) rs) [0..<length rs])" by simp
  finally show ?thesis by (simp add: map_nth)
qed

lemma set_in_order: "row_order_ok ord \<Longrightarrow> set (in_order ord rs) = set rs"
  by (metis mset_in_order set_mset_mset)

lemma distinct_in_order:
  "row_order_ok ord \<Longrightarrow> distinct (map k (in_order ord rs)) = distinct (map k rs)"
  by (metis mset_in_order mset_map mset_eq_imp_distinct_iff)

lemma row_order_ok_upt [simp]: "row_order_ok (\<lambda>n. [0..<n])"
  by (simp add: row_order_ok_def)

end
