(* ===== verification/Go_Strings.thy ===== *)
theory Go_Strings
  imports Prelude "HOL-Library.Char_ord" "HOL-Library.List_Lexorder"
begin

text \<open>
  The functions of Go's \<open>strings\<close> and \<open>strconv\<close> packages the program calls, on byte strings
  (a \<open>string\<close> is a list of 8-bit characters, as in Go). White space is ASCII white space.
\<close>

section \<open>Splitting, joining, trimming\<close>

text \<open>\<open>strings.Split\<close> with a one-byte separator: never empty, \<open>Split("", c) = [""]\<close>.\<close>

fun Split :: "char \<Rightarrow> string \<Rightarrow> string list" where
  "Split c [] = [[]]"
| "Split c (x # xs) =
     (if x = c then [] # Split c xs
      else case Split c xs of [] \<Rightarrow> [[x]] | w # ws \<Rightarrow> (x # w) # ws)"

fun Join :: "char \<Rightarrow> string list \<Rightarrow> string" where
  "Join c [] = []"
| "Join c [w] = w"
| "Join c (w # ws) = w @ c # Join c ws"

definition isSpace :: "char \<Rightarrow> bool" where
  "isSpace x \<longleftrightarrow> of_char x \<in> {9, 10, 11, 12, 13, 32 :: nat}"

definition TrimSpace :: "string \<Rightarrow> string" where
  "TrimSpace s = rev (dropWhile isSpace (rev (dropWhile isSpace s)))"

definition TrimRight :: "char \<Rightarrow> string \<Rightarrow> string" where
  "TrimRight c s = rev (dropWhile (\<lambda>x. x = c) (rev s))"

text \<open>\<open>strings.Fields\<close>: the maximal runs of characters that are not white space.\<close>

function Fields :: "string \<Rightarrow> string list" where
  "Fields [] = []"
| "Fields (x # xs) =
     (if isSpace x then Fields xs
      else (x # takeWhile (\<lambda>y. \<not> isSpace y) xs) # Fields (dropWhile (\<lambda>y. \<not> isSpace y) xs))"
  by pat_completeness auto
termination
  by (relation "measure length") (auto simp: le_imp_less_Suc length_dropWhile_le)

text \<open>\<open>strings.Cut\<close> with a one-byte separator: the text before and after its first occurrence.\<close>

definition Cut :: "char \<Rightarrow> string \<Rightarrow> (string \<times> string) option" where
  "Cut c s =
     (if c \<in> set s then Some (takeWhile (\<lambda>x. x \<noteq> c) s, tl (dropWhile (\<lambda>x. x \<noteq> c) s)) else None)"

text \<open>ASCII lower case, the folding \<open>strings.EqualFold\<close> and \<open>citext\<close> do on ASCII letters.\<close>

definition to_lower :: "char \<Rightarrow> char" where
  "to_lower x = (let n = of_char x :: nat in if 65 \<le> n \<and> n \<le> 90 then char_of (n + 32) else x)"

definition EqualFold :: "string \<Rightarrow> string \<Rightarrow> bool" where
  "EqualFold s t \<longleftrightarrow> map to_lower s = map to_lower t"


section \<open>Numbers\<close>

definition digit_char :: "nat \<Rightarrow> char" where
  "digit_char d = char_of (48 + d)"

fun utoa :: "nat \<Rightarrow> string" where
  "utoa n = (if n < 10 then [digit_char n] else utoa (n div 10) @ [digit_char (n mod 10)])"

declare utoa.simps [simp del]

definition Itoa :: "int \<Rightarrow> string" where
  "Itoa n = (if n < 0 then CHR ''-'' # utoa (nat (- n)) else utoa (nat n))"

definition isDigit :: "char \<Rightarrow> bool" where
  "isDigit x \<longleftrightarrow> 48 \<le> (of_char x :: nat) \<and> (of_char x :: nat) \<le> 57"

definition digit_val :: "char \<Rightarrow> nat" where
  "digit_val x = of_char x - 48"

definition dec_val :: "string \<Rightarrow> nat" where
  "dec_val s = foldl (\<lambda>acc x. acc * 10 + digit_val x) 0 s"

text \<open>\<open>strconv.ParseUint(s, 10, 64)\<close>: a syntax or a range error is \<open>None\<close>.\<close>

definition ParseUint :: "string \<Rightarrow> nat option" where
  "ParseUint s =
     (if s = [] \<or> \<not> list_all isDigit s then None
      else if dec_val s < 2 ^ 64 then Some (dec_val s) else None)"

text \<open>\<open>strconv.Atoi\<close>: an optional sign, then decimal digits, in the range of \<open>int\<close>.\<close>

definition Atoi :: "string \<Rightarrow> int option" where
  "Atoi s =
     (let neg = (take 1 s = ''-''); ds = (if take 1 s = ''-'' \<or> take 1 s = ''+'' then drop 1 s else s)
      in if ds = [] \<or> \<not> list_all isDigit ds then None
         else let v = (if neg then - int (dec_val ds) else int (dec_val ds))
              in if int64_range v then Some v else None)"


section \<open>Properties\<close>

lemma Split_not_Nil [simp]: "Split c s \<noteq> []"
  by (induction s) (auto split: list.splits)

lemma Split_no_sep: "c \<notin> set s \<Longrightarrow> Split c s = [s]"
  by (induction s) auto

lemma Split_append_sep: "c \<notin> set w \<Longrightarrow> Split c (w @ c # s) = w # Split c s"
  by (induction w) auto

lemma Split_parts: "w \<in> set (Split c s) \<Longrightarrow> c \<notin> set w"
  by (induction s arbitrary: w) (auto split: list.splits if_splits)

lemma Join_Split: "Join c (Split c s) = s"
proof (induction s)
  case (Cons x s)
  show ?case
  proof (cases "Split c s")
    case Nil
    then show ?thesis by simp
  next
    case (Cons w ws)
    then show ?thesis using Cons.IH by (cases ws) auto
  qed
qed simp

lemma Split_Join: "ws \<noteq> [] \<Longrightarrow> \<forall>w\<in>set ws. c \<notin> set w \<Longrightarrow> Split c (Join c ws) = ws"
  by (induction c ws rule: Join.induct) (auto simp: Split_no_sep Split_append_sep)

lemma isDigit_digit_char [simp]: "d < 10 \<Longrightarrow> isDigit (digit_char d)"
  by (simp add: isDigit_def digit_char_def)

lemma digit_val_digit_char [simp]: "d < 10 \<Longrightarrow> digit_val (digit_char d) = d"
  by (simp add: digit_val_def digit_char_def)

lemma dec_val_snoc: "dec_val (s @ [x]) = dec_val s * 10 + digit_val x"
  by (simp add: dec_val_def)

lemma utoa_not_Nil [simp]: "utoa n \<noteq> []"
  by (subst utoa.simps) simp

lemma utoa_digits: "list_all isDigit (utoa n)"
proof (induction n rule: utoa.induct)
  case (1 n)
  then show ?case by (subst utoa.simps) simp
qed

lemma dec_val_utoa [simp]: "dec_val (utoa n) = n"
proof (induction n rule: utoa.induct)
  case (1 n)
  show ?case
  proof (cases "n < 10")
    case True
    then show ?thesis by (subst utoa.simps) (simp add: dec_val_def)
  next
    case False
    then show ?thesis using 1 by (subst utoa.simps) (simp add: dec_val_snoc)
  qed
qed

text \<open>A printed number has no leading zero.\<close>

lemma hd_utoa: "0 < n \<Longrightarrow> hd (utoa n) \<noteq> CHR ''0''"
proof (induction n rule: utoa.induct)
  case (1 n)
  show ?case
  proof (cases "n < 10")
    case True
    have "digit_char n \<noteq> CHR ''0''"
    proof
      assume "digit_char n = CHR ''0''"
      then have "digit_val (digit_char n) = 0" by (simp add: digit_val_def)
      with True 1(2) show False by simp
    qed
    then show ?thesis using True by (subst utoa.simps) simp
  next
    case False
    with 1 have "hd (utoa (n div 10)) \<noteq> CHR ''0''" by simp
    then show ?thesis using False by (subst utoa.simps) simp
  qed
qed

lemma isDigit_not_special: "isDigit x \<Longrightarrow> x \<notin> {CHR ''.'', CHR '':'', CHR ''/'', CHR '','', CHR ''-'', CHR ''%''}"
  by (auto simp: isDigit_def)

lemma utoa_special: "x \<in> set (utoa n) \<Longrightarrow> x \<notin> {CHR ''.'', CHR '':'', CHR ''/'', CHR '','', CHR ''-'', CHR ''%''}"
  using utoa_digits[of n] isDigit_not_special by (auto simp: list_all_iff)

lemma utoa_inj: "utoa m = utoa n \<Longrightarrow> m = n"
  by (metis dec_val_utoa)

end
