(* ===== verification/Go_Net.thy ===== *)
theory Go_Net
  imports Go_Strings "HOL-Library.Word"
begin

unbundle bit_operations_syntax

text \<open>
  What the program uses of Go's \<open>net\<close>, \<open>net/netip\<close> and \<open>encoding/binary\<close> packages. A
  \<open>net.IP\<close> is a list of bytes (4 or 16 of them; nil is \<open>None\<close>), an address and
  its big-endian value are related by \<open>Uint32\<close> and \<open>PutUint32\<close>.
\<close>

type_synonym byte = "8 word"
type_synonym u32 = "32 word"

section \<open>Bytes\<close>

text \<open>\<open>binary.BigEndian.Uint32\<close>: fewer than four bytes is an index panic, \<open>None\<close> here.\<close>

fun Uint32 :: "byte list \<Rightarrow> u32 option" where
  "Uint32 (a # b # c # d # _) =
     Some (push_bit 24 (ucast a) OR push_bit 16 (ucast b) OR push_bit 8 (ucast c) OR ucast d)"
| "Uint32 _ = None"

definition PutUint32 :: "u32 \<Rightarrow> byte list" where
  "PutUint32 w = [ucast (drop_bit 24 w), ucast (drop_bit 16 w), ucast (drop_bit 8 w), ucast w]"

definition v4InV6Prefix :: "byte list" where
  "v4InV6Prefix = replicate 10 0 @ [255, 255]"

definition To4 :: "byte list \<Rightarrow> byte list option" where
  "To4 ip = (if length ip = 4 then Some ip
             else if length ip = 16 \<and> take 12 ip = v4InV6Prefix then Some (drop 12 ip) else None)"

definition To16 :: "byte list \<Rightarrow> byte list option" where
  "To16 ip = (if length ip = 4 then Some (v4InV6Prefix @ ip)
              else if length ip = 16 then Some ip else None)"

section \<open>Printing\<close>

definition print4 :: "byte list \<Rightarrow> string" where
  "print4 bs = Join (CHR ''.'') (map (\<lambda>b. utoa (unat b)) bs)"

definition hex_char :: "nat \<Rightarrow> char" where
  "hex_char d = char_of (if d < 10 then 48 + d else 87 + d)"

fun utox :: "nat \<Rightarrow> string" where
  "utox n = (if n < 16 then [hex_char n] else utox (n div 16) @ [hex_char (n mod 16)])"

declare utox.simps [simp del]

fun groups16 :: "byte list \<Rightarrow> nat list" where
  "groups16 (a # b # bs) = (256 * unat a + unat b) # groups16 bs"
| "groups16 _ = []"

text \<open>The first of the longest runs of at least two zero groups: where it starts and its length.\<close>

fun zero_run :: "nat list \<Rightarrow> nat \<Rightarrow> nat \<times> nat \<Rightarrow> nat \<times> nat" where
  "zero_run [] i best = best"
| "zero_run (g # gs) i best =
     (let l = length (takeWhile (\<lambda>x. x = 0) (g # gs))
      in zero_run gs (Suc i) (if 2 \<le> l \<and> snd best < l then (i, l) else best))"

definition print6 :: "byte list \<Rightarrow> string" where
  "print6 bs =
     (let gs = groups16 bs; (z, l) = zero_run gs 0 (0, 0);
          show_groups = (\<lambda>xs. Join (CHR '':'') (map utox xs))
      in if l = 0 then show_groups gs
         else show_groups (take z gs) @ ''::'' @ show_groups (drop (z + l) gs))"

text \<open>\<open>net.IP.String\<close> on an address of 4 or 16 bytes.\<close>

definition IP_String :: "byte list \<Rightarrow> string" where
  "IP_String ip = (case To4 ip of Some b \<Rightarrow> print4 b | None \<Rightarrow> print6 ip)"

text \<open>\<open>net.JoinHostPort\<close>: a host with a colon or a percent sign is put in brackets.\<close>

definition JoinHostPort :: "string \<Rightarrow> string \<Rightarrow> string" where
  "JoinHostPort host port =
     (if CHR '':'' \<in> set host \<or> CHR ''%'' \<in> set host then ''['' @ host @ '']:'' @ port
      else host @ '':'' @ port)"


section \<open>Parsing\<close>

definition parse_octet :: "string \<Rightarrow> byte option" where
  "parse_octet f =
     (if f = [] \<or> \<not> list_all isDigit f \<or> (1 < length f \<and> hd f = CHR ''0'') \<or> 255 < dec_val f
      then None else Some (of_nat (dec_val f)))"

fun parse_octets :: "string list \<Rightarrow> byte list option" where
  "parse_octets [] = Some []"
| "parse_octets (f # fs) =
     (case parse_octet f of None \<Rightarrow> None
      | Some b \<Rightarrow> (case parse_octets fs of None \<Rightarrow> None | Some bs \<Rightarrow> Some (b # bs)))"

definition parse4 :: "string \<Rightarrow> byte list option" where
  "parse4 s = (let fs = Split (CHR ''.'') s in if length fs = 4 then parse_octets fs else None)"

definition hex_val :: "char \<Rightarrow> nat option" where
  "hex_val x =
     (let n = of_char x :: nat
      in if 48 \<le> n \<and> n \<le> 57 then Some (n - 48)
         else if 97 \<le> n \<and> n \<le> 102 then Some (n - 87)
         else if 65 \<le> n \<and> n \<le> 70 then Some (n - 55) else None)"

text \<open>
  The loop of \<open>netip.parseIPv6\<close>: the rest of the text, the bytes read so far and the
  place of the ellipsis. It returns the bytes and the ellipsis once the whole text is used.
\<close>

function parse6_loop :: "string \<Rightarrow> byte list \<Rightarrow> nat option \<Rightarrow> (byte list \<times> nat option) option" where
  "parse6_loop s ip ell =
     (if 16 \<le> length ip then (if s = [] then Some (ip, ell) else None)
      else
        let hs = takeWhile (\<lambda>x. hex_val x \<noteq> None) s; rest = drop (length hs) s;
            acc = foldl (\<lambda>a x. 16 * a + the (hex_val x)) 0 hs
        in if hs = [] \<or> 4 < length hs then None
           else if take 1 rest = ''.'' then
             (if (ell = None \<and> length ip \<noteq> 12) \<or> 16 < length ip + 4 then None
              else case parse4 s of None \<Rightarrow> None | Some bs \<Rightarrow> Some (ip @ bs, ell))
           else
             let ip' = ip @ [of_nat (acc div 256), of_nat (acc mod 256)]
             in if rest = [] then Some (ip', ell)
                else if hd rest \<noteq> CHR '':'' \<or> length rest = 1 then None
                else if rest ! 1 = CHR '':'' then
                  (if ell \<noteq> None then None
                   else if length rest = 2 then Some (ip', Some (length ip'))
                   else parse6_loop (drop 2 rest) ip' (Some (length ip')))
                else parse6_loop (drop 1 rest) ip' ell)"
  by pat_completeness auto
termination
  by (relation "measure (\<lambda>(s, ip, ell). 16 - length ip)") (auto simp: Let_def)

declare parse6_loop.simps [simp del]

definition expand6 :: "byte list \<times> nat option \<Rightarrow> byte list option" where
  "expand6 r =
     (case r of (ip, ell) \<Rightarrow>
        if length ip < 16 then
          (case ell of None \<Rightarrow> None
           | Some e \<Rightarrow> Some (take e ip @ replicate (16 - length ip) 0 @ drop e ip))
        else if ell \<noteq> None then None else Some ip)"

definition parse6 :: "string \<Rightarrow> byte list option" where
  "parse6 s =
     (if take 2 s = ''::'' then
        (if length s = 2 then Some (replicate 16 0)
         else Option.bind (parse6_loop (drop 2 s) [] (Some 0)) expand6)
      else Option.bind (parse6_loop s [] None) expand6)"

text \<open>
  \<open>netip.ParseAddr\<close> without zones: the first dot or colon decides; a percent sign (a zone) is
  refused by both callers. The result says whether the text was an IPv4 address.
\<close>

definition ParseAddr :: "string \<Rightarrow> (bool \<times> byte list) option" where
  "ParseAddr s =
     (if CHR ''%'' \<in> set s then None
      else case find (\<lambda>x. x = CHR ''.'' \<or> x = CHR '':'') s of
        None \<Rightarrow> None
      | Some x \<Rightarrow> if x = CHR ''.'' then map_option (Pair True) (parse4 s)
                  else map_option (Pair False) (parse6 s))"

text \<open>\<open>net.ParseIP\<close> returns the 16-byte form, nil (\<open>None\<close>) on an error.\<close>

definition ParseIP :: "string \<Rightarrow> byte list option" where
  "ParseIP s = (case ParseAddr s of None \<Rightarrow> None | Some (v4, bs) \<Rightarrow> To16 bs)"

text \<open>An \<open>IPNet\<close>: the masked address and the prefix length of its mask.\<close>

record ip_net =
  n_IP :: "byte list"
  n_Ones :: nat
  n_Bits :: nat

fun cidr_mask :: "nat \<Rightarrow> nat \<Rightarrow> byte list" where
  "cidr_mask ones 0 = []"
| "cidr_mask ones (Suc l) =
     (if 8 \<le> ones then 255 # cidr_mask (ones - 8) l else NOT (drop_bit ones 255) # cidr_mask 0 l)"

definition mask_bytes :: "byte list \<Rightarrow> byte list \<Rightarrow> byte list" where
  "mask_bytes ip m = map2 (AND) ip m"

text \<open>\<open>dtoi\<close> reads the prefix length; \<open>0xFFFFFF\<close> and above is too big.\<close>

definition ParseCIDR :: "string \<Rightarrow> ip_net option" where
  "ParseCIDR s =
     (case Cut (CHR ''/'') s of
        None \<Rightarrow> None
      | Some (addr, m) \<Rightarrow>
          (case ParseAddr addr of
             None \<Rightarrow> None
           | Some (v4, bs) \<Rightarrow>
               (let bits = 8 * length bs
                in if m = [] \<or> \<not> list_all isDigit m \<or> bits < dec_val m then None
                   else Some \<lparr>n_IP = mask_bytes bs (cidr_mask (dec_val m) (length bs)),
                              n_Ones = dec_val m, n_Bits = bits\<rparr>)))"


section \<open>Addresses and their values\<close>

lemma bit_byteD: "bit (x :: byte) n \<Longrightarrow> n < 8"
  using bit_imp_le_length[of x n] by simp

lemma bit_255 [simp]: "bit (255 :: byte) n \<longleftrightarrow> n < 8"
proof -
  have "(255 :: byte) = - 1" by simp
  then show ?thesis by (simp only: bit_minus_1_iff) simp
qed

lemma bit_Uint32:
  "Uint32 [a, b, c, d] = Some w \<Longrightarrow>
   bit w j \<longleftrightarrow> (if j < 8 then bit d j else if j < 16 then bit c (j - 8)
                else if j < 24 then bit b (j - 16) else j < 32 \<and> bit a (j - 24))"
  using bit_byteD[of c "j - 8"] bit_byteD[of b "j - 16"] bit_byteD[of d j]
  by (auto simp: bit_simps not_le)

lemma Uint32_PutUint32 [simp]: "Uint32 (PutUint32 w) = Some w"
proof -
  obtain v where v: "Uint32 (PutUint32 w) = Some v" by (simp add: PutUint32_def)
  have "v = w"
    by (rule bit_word_eqI)
       (auto simp: bit_Uint32[OF v[unfolded PutUint32_def]] bit_simps)
  with v show ?thesis by simp
qed

lemma PutUint32_inject [simp]: "PutUint32 v = PutUint32 w \<longleftrightarrow> v = w"
  by (metis Uint32_PutUint32 option.inject)

lemma length_PutUint32 [simp]: "length (PutUint32 w) = 4"
  by (simp add: PutUint32_def)

lemma Uint32_length4: "length bs = 4 \<Longrightarrow> \<exists>w. Uint32 bs = Some w"
  by (auto simp: numeral_eq_Suc length_Suc_conv)

lemma PutUint32_Uint32:
  assumes "length bs = 4" "Uint32 bs = Some w"
  shows "PutUint32 w = bs"
proof -
  obtain a b c d where bs: "bs = [a, b, c, d]"
    using assms(1) by (auto simp: numeral_eq_Suc length_Suc_conv)
  have bw: "bit w j \<longleftrightarrow> (if j < 8 then bit d j else if j < 16 then bit c (j - 8)
                else if j < 24 then bit b (j - 16) else j < 32 \<and> bit a (j - 24))" for j
    by (rule bit_Uint32) (use assms(2) bs in simp)
  have "ucast (drop_bit 24 w) = a" "ucast (drop_bit 16 w) = b" "ucast (drop_bit 8 w) = c" "ucast w = d"
    by (rule bit_word_eqI, simp add: bit_simps bw)+
  then show ?thesis by (simp add: PutUint32_def bs)
qed

lemma length_cidr_mask [simp]: "length (cidr_mask ones l) = l"
  by (induction ones l rule: cidr_mask.induct) auto

lemma bit_cidr_mask:
  "i < l \<Longrightarrow> k < 8 \<Longrightarrow> bit (cidr_mask ones l ! i) k \<longleftrightarrow> 8 * i + (7 - k) < ones"
proof (induction ones l arbitrary: i rule: cidr_mask.induct)
  case (2 ones l)
  show ?case
  proof (cases i)
    case 0
    then show ?thesis using 2(4)
      by (auto simp: bit_not_iff bit_drop_bit_eq simp del: bit_numeral_word_iff)
  next
    case (Suc i')
    then show ?thesis using 2 by auto
  qed
qed simp

lemma bit_mask_bytes:
  "i < length ip \<Longrightarrow> k < 8 \<Longrightarrow>
   bit (mask_bytes ip (cidr_mask ones (length ip)) ! i) k \<longleftrightarrow> bit (ip ! i) k \<and> 8 * i + (7 - k) < ones"
  by (simp add: mask_bytes_def bit_and_iff bit_cidr_mask)

lemma length_mask_bytes [simp]: "length (mask_bytes ip (cidr_mask ones (length ip))) = length ip"
  by (simp add: mask_bytes_def)

section \<open>Round trips\<close>

lemma parse_octet_utoa [simp]: "parse_octet (utoa (unat b)) = Some b"
proof -
  have "unat b < 2 ^ LENGTH(8)" by (rule unsigned_less)
  then have "unat b \<le> 255" by simp
  moreover have "\<not> (1 < length (utoa (unat b)) \<and> hd (utoa (unat b)) = CHR ''0'')"
  proof (cases "unat b = 0")
    case True
    then show ?thesis by (simp add: utoa.simps)
  qed (simp add: hd_utoa)
  ultimately show ?thesis
    using utoa_digits[of "unat b"] by (auto simp: parse_octet_def)
qed

lemma parse_octets_utoa [simp]: "parse_octets (map (\<lambda>b. utoa (unat b)) bs) = Some bs"
  by (induction bs) auto

lemma parse4_print4: "length bs = 4 \<Longrightarrow> parse4 (print4 bs) = Some bs"
proof -
  assume l: "length bs = 4"
  have "Split (CHR ''.'') (print4 bs) = map (\<lambda>b. utoa (unat b)) bs"
    unfolding print4_def using l by (intro Split_Join) (auto dest: utoa_special)
  then show ?thesis using l by (simp add: parse4_def)
qed

lemma set_Join: "x \<in> set (Join c ws) \<Longrightarrow> x = c \<or> (\<exists>w\<in>set ws. x \<in> set w)"
  by (induction c ws rule: Join.induct) auto

lemma print4_chars: "x \<in> set (print4 bs) \<Longrightarrow> x = CHR ''.'' \<or> isDigit x"
  using utoa_digits by (fastforce simp: print4_def list_all_iff dest: set_Join)

lemma print4_dot: "length bs = 4 \<Longrightarrow> CHR ''.'' \<in> set (print4 bs)"
  by (auto simp: print4_def numeral_eq_Suc length_Suc_conv)

lemma find_dot_print4:
  "length bs = 4 \<Longrightarrow> find (\<lambda>x. x = CHR ''.'' \<or> x = CHR '':'') (print4 bs) = Some (CHR ''.'')"
proof -
  assume l: "length bs = 4"
  then obtain x where x: "find (\<lambda>x. x = CHR ''.'' \<or> x = CHR '':'') (print4 bs) = Some x"
    using print4_dot[OF l] by (cases "find (\<lambda>x. x = CHR ''.'' \<or> x = CHR '':'') (print4 bs)")
       (auto simp: find_None_iff)
  then have "x \<in> set (print4 bs)" "x = CHR ''.'' \<or> x = CHR '':''"
    by (auto dest: find_Some_set)
  then have "x = CHR ''.''" using print4_chars[of x bs] isDigit_not_special[of x] by auto
  with x show ?thesis by simp
qed

lemma ParseAddr_print4: "length bs = 4 \<Longrightarrow> ParseAddr (print4 bs) = Some (True, bs)"
proof -
  assume l: "length bs = 4"
  have "CHR ''%'' \<notin> set (print4 bs)"
    using print4_chars[of "CHR ''%''" bs] isDigit_not_special[of "CHR ''%''"] by auto
  then show ?thesis
    using find_dot_print4[OF l] parse4_print4[OF l] by (simp add: ParseAddr_def)
qed

lemma To4_v4mapped [simp]: "length bs = 4 \<Longrightarrow> To4 (v4InV6Prefix @ bs) = Some bs"
  by (simp add: To4_def v4InV6Prefix_def)

lemma IP_String_4: "length bs = 4 \<Longrightarrow> IP_String bs = print4 bs"
  by (simp add: IP_String_def To4_def)

text \<open>What is read back from a printed IPv4 address is its value.\<close>

lemma ParseIP_IP_String_v4:
  "Option.bind (ParseIP (IP_String (PutUint32 w))) To4 = Some (PutUint32 w)"
  by (simp add: ParseIP_def IP_String_4 ParseAddr_print4 To16_def)

lemma IP_String_v4_inject: "IP_String (PutUint32 v) = IP_String (PutUint32 w) \<longleftrightarrow> v = w"
  by (metis ParseIP_IP_String_v4 PutUint32_inject option.inject)


section \<open>Parsed networks\<close>

lemma length_parse_octets: "parse_octets fs = Some bs \<Longrightarrow> length bs = length fs"
  by (induction fs arbitrary: bs) (auto split: option.splits)

lemma length_parse4: "parse4 s = Some bs \<Longrightarrow> length bs = 4"
  by (auto simp: parse4_def Let_def dest: length_parse_octets split: if_splits)

lemma parse6_loop_bounds:
  assumes "parse6_loop s ip ell = Some (bs, e)"
    and "even (length ip)" "length ip \<le> 16" "\<forall>n. ell = Some n \<longrightarrow> n \<le> length ip"
  shows "length bs \<le> 16 \<and> (\<forall>n. e = Some n \<longrightarrow> n \<le> length bs)"
  using assms
proof (induction s ip ell rule: parse6_loop.induct)
  case (1 s ip ell)
  let ?hs = "takeWhile (\<lambda>x. hex_val x \<noteq> None) s"
  let ?rest = "drop (length ?hs) s"
  let ?acc = "foldl (\<lambda>a x. 16 * a + the (hex_val x)) 0 ?hs"
  let ?ip = "ip @ [of_nat (?acc div 256), of_nat (?acc mod 256)]"
  note loop = 1(3)[unfolded parse6_loop.simps[of s ip ell] Let_def]
  show ?case
  proof (cases "16 \<le> length ip")
    case True
    then show ?thesis using loop 1(5,6) by (auto split: if_splits)
  next
    case False
    then have l: "length ip + 2 \<le> 16" using 1(4) by presburger
    consider (v4) bs' where "bs = ip @ bs'" "e = ell" "parse4 s = Some bs'" "length ip + 4 \<le> 16"
      | (stop) "bs = ?ip" "e = ell" | (stop2) "bs = ?ip" "e = Some (length ?ip)"
      | (ell) "\<not> 16 \<le> length ip" "\<not> (?hs = [] \<or> 4 < length ?hs)" "\<not> take 1 ?rest = ''.''" "?rest \<noteq> []"
          "\<not> (hd ?rest \<noteq> CHR '':'' \<or> length ?rest = 1)" "?rest ! 1 = CHR '':''" "\<not> ell \<noteq> None"
          "\<not> length ?rest = 2" "parse6_loop (drop 2 ?rest) ?ip (Some (length ?ip)) = Some (bs, e)"
      | (group) "\<not> 16 \<le> length ip" "\<not> (?hs = [] \<or> 4 < length ?hs)" "\<not> take 1 ?rest = ''.''" "?rest \<noteq> []"
          "\<not> (hd ?rest \<noteq> CHR '':'' \<or> length ?rest = 1)" "?rest ! 1 \<noteq> CHR '':''"
          "parse6_loop (drop 1 ?rest) ?ip ell = Some (bs, e)"
      using loop False by (auto split: if_splits option.splits)
    then show ?thesis
    proof cases
      case v4
      then show ?thesis using 1(6) length_parse4[of s bs'] by auto
    next
      case ell
      show ?thesis by (rule 1(1)[OF ell(1) refl refl refl ell(2,3) refl ell(4-9)]) (use l 1(4) in auto)
    next
      case group
      show ?thesis by (rule 1(2)[OF group(1) refl refl refl group(2,3) refl group(4-7)]) (use l 1(4,6) in auto)
    qed (use l 1(6) in auto)
  qed
qed

lemma length_parse6: "parse6 s = Some bs \<Longrightarrow> length bs = 16"
proof -
  have ex: "length bs = 16"
    if "parse6_loop t [] ell = Some r" "expand6 r = Some bs" "ell = None \<or> ell = Some 0" for t ell r
  proof -
    obtain ip e where r: "r = (ip, e)" by (cases r)
    have "length ip \<le> 16 \<and> (\<forall>n. e = Some n \<longrightarrow> n \<le> length ip)"
      by (rule parse6_loop_bounds[OF that(1)[unfolded r]]) (use that(3) in auto)
    with that(2) show ?thesis by (auto simp: expand6_def r split: if_splits option.splits)
  qed
  show "parse6 s = Some bs \<Longrightarrow> length bs = 16"
    using ex by (auto simp: parse6_def bind_eq_Some_conv split: if_splits)
qed

lemma length_ParseAddr: "ParseAddr s = Some (v4, bs) \<Longrightarrow> length bs = (if v4 then 4 else 16)"
  by (auto simp: ParseAddr_def length_parse4 length_parse6 split: if_splits option.splits)

lemma ParseCIDR_SomeE:
  assumes "ParseCIDR s = Some n"
  obtains bs where "length bs = 4 \<or> length bs = 16" "n_Bits n = 8 * length bs" "n_Ones n \<le> n_Bits n"
    "n_IP n = mask_bytes bs (cidr_mask (n_Ones n) (length bs))"
proof -
  from assms obtain v4 addr bs where "ParseAddr addr = Some (v4, bs)"
    and n: "n_Bits n = 8 * length bs" "n_Ones n \<le> n_Bits n"
      "n_IP n = mask_bytes bs (cidr_mask (n_Ones n) (length bs))"
    by (auto simp: ParseCIDR_def Let_def split: option.splits if_splits)
  moreover from this(1) have "length bs = 4 \<or> length bs = 16"
    using length_ParseAddr by (auto split: if_splits)
  ultimately show thesis using that by blast
qed

lemma bit_Uint32_nth:
  assumes "length bs = 4" "Uint32 bs = Some w" "j < 32"
  shows "bit w j = bit (bs ! (3 - j div 8)) (j mod 8)"
proof -
  obtain a b c d where bs: "bs = [a, b, c, d]"
    using assms(1) by (auto simp: numeral_eq_Suc length_Suc_conv)
  note bw = bit_Uint32[OF assms(2)[unfolded bs], of j]
  consider "j < 8" | "8 \<le> j" "j < 16" | "16 \<le> j" "j < 24" | "24 \<le> j" "j < 32"
    using assms(3) by linarith
  then show ?thesis
  proof cases
    case 1
    then show ?thesis by (simp add: bw bs)
  next
    case 2
    then have "j div 8 = 1" "j mod 8 = j - 8" by (auto simp: div_nat_eqI mod_nat_eqI)
    with 2 show ?thesis by (simp add: bw bs)
  next
    case 3
    then have "j div 8 = 2" "j mod 8 = j - 16" by (auto simp: div_nat_eqI mod_nat_eqI)
    with 3 show ?thesis by (simp add: bw bs)
  next
    case 4
    then have "j div 8 = 3" "j mod 8 = j - 24" by (auto simp: div_nat_eqI mod_nat_eqI)
    with 4 show ?thesis by (simp add: bw bs)
  qed
qed

text \<open>
  The IPv4 value of a parsed network has no host bits, and the host part is at most 32 bits
  wide, also when the network was written as an IPv4-mapped IPv6 network.
\<close>

lemma network_value:
  assumes p: "ParseCIDR s = Some n" and b: "To4 (n_IP n) = Some b" and w: "Uint32 b = Some w"
  shows "n_Bits n - n_Ones n \<le> 32" "j < n_Bits n - n_Ones n \<Longrightarrow> \<not> bit w j"
proof -
  obtain bs where l: "length bs = 4 \<or> length bs = 16" and n: "n_Bits n = 8 * length bs"
    and on: "n_Ones n \<le> n_Bits n" and ip: "n_IP n = mask_bytes bs (cidr_mask (n_Ones n) (length bs))"
    using ParseCIDR_SomeE[OF p] by blast
  define off where "off = length bs - 4"
  have lip: "length (n_IP n) = length bs" by (simp add: ip)
  have lb: "length b = 4" and bdrop: "b = drop off (n_IP n)"
    and ones: "length bs = 16 \<Longrightarrow> 96 \<le> n_Ones n"
  proof -
    show "length b = 4" "b = drop off (n_IP n)"
      using b l by (auto simp: To4_def lip off_def split: if_splits)
    assume l16: "length bs = 16"
    then have "take 12 (n_IP n) = v4InV6Prefix"
      using b by (auto simp: To4_def lip split: if_splits)
    then have "take 12 (n_IP n) ! 11 = v4InV6Prefix ! 11" by (rule arg_cong)
    then have "n_IP n ! 11 = 255" by (simp add: v4InV6Prefix_def nth_append)
    then have "bit (n_IP n ! 11) 0" by simp
    then show "96 \<le> n_Ones n"
      using bit_mask_bytes[of 11 bs 0 "n_Ones n"] l16 by (simp add: ip)
  qed
  show "n_Bits n - n_Ones n \<le> 32" using l n ones by auto
  assume j: "j < n_Bits n - n_Ones n"
  then have j32: "j < 32" using l n ones by auto
  have idx: "off + (3 - j div 8) < length bs" using l by (auto simp: off_def)
  have "\<not> bit (n_IP n ! (off + (3 - j div 8))) (j mod 8)"
  proof -
    have "8 * (off + (3 - j div 8)) + (7 - j mod 8) + j = 8 * off + 31"
    proof -
      define q r where "q = j div 8" and "r = j mod 8"
      have "j = q * 8 + r" "r < 8" by (simp_all add: q_def r_def)
      moreover have "q < 4" using j32 by (simp add: q_def)
      ultimately show ?thesis unfolding q_def[symmetric] r_def[symmetric] by simp
    qed
    moreover have "8 * off + 32 = n_Bits n" using l n by (auto simp: off_def)
    ultimately have "\<not> 8 * (off + (3 - j div 8)) + (7 - j mod 8) < n_Ones n" using j by linarith
    then show ?thesis using bit_mask_bytes[OF idx, of "j mod 8" "n_Ones n"] by (simp add: ip)
  qed
  then have "\<not> bit (b ! (3 - j div 8)) (j mod 8)"
    using idx by (simp add: bdrop lip)
  then show "\<not> bit w j" using bit_Uint32_nth[OF lb w j32] by simp
qed

end
