(* ===== verification/Go_Float.thy ===== *)
theory Go_Float
  imports Complex_Main "HOL-Library.Log_Nat"
begin

text \<open>
  Go's \<open>float64\<close> arithmetic on finite values. A float is kept as the rational it denotes, and
  every operation of the language is the exact operation followed by \<open>f64\<close>, the IEEE 754
  binary64 rounding (53 significant bits, smallest exponent -1022, ties to even), which
  is what Go computes on a machine that does not fuse multiply and add. Overflow to infinity is
  not represented: no value the program computes reaches \<open>2 ^ 1023\<close>.

  The laws the clients use (monotone, exact at 0 and 1, symmetric) are the locale
  \<open>float_rounding\<close>, interpreted on \<open>f64\<close> at the end.
\<close>

section \<open>Rounding\<close>

definition round_half_even :: "rat \<Rightarrow> int" where
  "round_half_even y =
     (let f = \<lfloor>y\<rfloor>; r = y - of_int f
      in if r < 1 / 2 then f else if 1 / 2 < r then f + 1 else if even f then f else f + 1)"

text \<open>The largest exponent \<open>e\<close> with \<open>2 powi e \<le> x\<close>, for positive \<open>x\<close>.\<close>

definition ilog2 :: "rat \<Rightarrow> int" where
  "ilog2 x =
     (let (n, d) = quotient_of x; e = bitlen n - bitlen d
      in if 2 powi e \<le> x then e else e - 1)"

definition f64_ulp :: "rat \<Rightarrow> rat" where
  "f64_ulp x = 2 powi (max (ilog2 \<bar>x\<bar>) (- 1022) - 52)"

definition f64 :: "rat \<Rightarrow> rat" where
  "f64 x = (if x = 0 then 0 else of_int (round_half_even (x / f64_ulp x)) * f64_ulp x)"

definition f64_of_int :: "int \<Rightarrow> rat" where
  "f64_of_int n = f64 (of_int n)"

definition f64_add :: "rat \<Rightarrow> rat \<Rightarrow> rat" where
  "f64_add a b = f64 (a + b)"

definition f64_sub :: "rat \<Rightarrow> rat \<Rightarrow> rat" where
  "f64_sub a b = f64 (a - b)"

definition f64_mul :: "rat \<Rightarrow> rat \<Rightarrow> rat" where
  "f64_mul a b = f64 (a * b)"

definition f64_div :: "rat \<Rightarrow> rat \<Rightarrow> rat" where
  "f64_div a b = f64 (a / b)"

lemmas f64_ops = f64_of_int_def f64_add_def f64_sub_def f64_mul_def f64_div_def

text \<open>Conversion of a float to an integer truncates towards zero.\<close>

definition f64_trunc :: "rat \<Rightarrow> int" where
  "f64_trunc x = (if 0 \<le> x then \<lfloor>x\<rfloor> else \<lceil>x\<rceil>)"


section \<open>Laws of the rounding\<close>

lemma round_half_even_bounds:
  "of_int (round_half_even y) \<le> y + 1 / 2" "y - 1 / 2 \<le> of_int (round_half_even y)"
  unfolding round_half_even_def Let_def by (auto split: if_splits) linarith+

lemma round_half_even_of_int [simp]: "round_half_even (of_int n) = n"
  by (simp add: round_half_even_def)

lemma round_half_even_mono: "y \<le> z \<Longrightarrow> round_half_even y \<le> round_half_even z"
proof -
  assume le: "y \<le> z"
  then have fl: "\<lfloor>y\<rfloor> \<le> \<lfloor>z\<rfloor>" by (rule floor_mono)
  show ?thesis
  proof (cases "\<lfloor>y\<rfloor> = \<lfloor>z\<rfloor>")
    case True
    with le show ?thesis by (auto simp: round_half_even_def Let_def)
  next
    case False
    with fl have "\<lfloor>y\<rfloor> + 1 \<le> \<lfloor>z\<rfloor>" by simp
    moreover have "round_half_even y \<le> \<lfloor>y\<rfloor> + 1" "\<lfloor>z\<rfloor> \<le> round_half_even z"
      by (auto simp: round_half_even_def Let_def)
    ultimately show ?thesis by linarith
  qed
qed

lemma round_half_even_minus: "round_half_even (- y) = - round_half_even y"
proof (cases "y \<in> \<int>")
  case True
  then obtain n where y: "y = of_int n" by (rule Ints_cases)
  have "round_half_even (- y) = round_half_even (of_int (- n))" by (simp add: y)
  then show ?thesis by (simp only: round_half_even_of_int) (simp add: y)
next
  case False
  have fr: "frac (- y) = 1 - frac y" using False by (simp add: frac_neg)
  have fl: "\<lfloor>- y\<rfloor> = - \<lfloor>y\<rfloor> - 1"
    using False by (metis (no_types, lifting) add.commute ceiling_altdef ceiling_def
        diff_minus_eq_add minus_diff_eq minus_minus uminus_add_conv_diff Ints_of_int)
  show ?thesis
    using fr fl by (auto simp: round_half_even_def Let_def frac_def)
qed

lemma ilog2_bounds:
  assumes "0 < x"
  shows "2 powi ilog2 x \<le> x" "x < 2 powi (ilog2 x + 1)"
proof -
  obtain n d where q: "quotient_of x = (n, d)" by (cases "quotient_of x")
  have d: "0 < d" and x: "x = of_int n / of_int d"
    using q by (auto simp: quotient_of_denom_pos quotient_of_div)
  with assms have n: "0 < n" by (simp add: zero_less_divide_iff)
  define e where "e = bitlen n - bitlen d"
  have bn: "0 < bitlen n" and bd: "0 < bitlen d"
    using n d bitlen_nonneg[of n] bitlen_nonneg[of d] bitlen_eq_zero_iff[of n]
      bitlen_eq_zero_iff[of d] by linarith+
  have nn: "(2::rat) powi k \<le> of_int z \<longleftrightarrow> 2 ^ nat k \<le> z"
    and nl: "of_int z < (2::rat) powi k \<longleftrightarrow> z < 2 ^ nat k" if "0 \<le> k" for k z
    using that of_int_le_iff[of "2 ^ nat k" z, where 'a = rat]
      of_int_less_iff[of z "2 ^ nat k", where 'a = rat] by (simp_all add: power_int_def)
  have nb: "2 powi (bitlen n - 1) \<le> (of_int n :: rat)" "(of_int n :: rat) < 2 powi bitlen n"
    using bitlen_bounds[OF n] bn by (simp_all add: nn nl)
  have db: "2 powi (bitlen d - 1) \<le> (of_int d :: rat)" "(of_int d :: rat) < 2 powi bitlen d"
    using bitlen_bounds[OF d] bd by (simp_all add: nn nl)
  have dp: "(0::rat) < of_int d" using d by simp
  have up: "x < 2 powi (e + 1)"
  proof -
    have "of_int n < (2::rat) powi (e + 1) * 2 powi (bitlen d - 1)"
      using nb(2) by (simp add: e_def flip: power_int_add)
    also have "\<dots> \<le> 2 powi (e + 1) * of_int d" using db(1) by simp
    finally show ?thesis using dp by (simp add: x field_simps)
  qed
  have lo: "2 powi (e - 1) \<le> x"
  proof -
    have "(2::rat) powi (e - 1) * of_int d \<le> 2 powi (e - 1) * 2 powi bitlen d"
      using db(2) by simp
    also have "\<dots> = 2 powi (bitlen n - 1)" by (simp add: e_def flip: power_int_add)
    also have "\<dots> \<le> of_int n" by (rule nb(1))
    finally show ?thesis using dp by (simp add: x field_simps)
  qed
  have il: "ilog2 x = (if 2 powi e \<le> x then e else e - 1)"
    by (simp add: ilog2_def q e_def)
  show "2 powi ilog2 x \<le> x" using lo by (simp add: il)
  show "x < 2 powi (ilog2 x + 1)" using up by (simp add: il)
qed

lemma powi_less_cancel: "(2::rat) powi a < 2 powi b \<Longrightarrow> a < b"
  by (metis power_int_increasing one_le_numeral not_less)

lemma ilog2_mono: "0 < x \<Longrightarrow> x \<le> y \<Longrightarrow> ilog2 x \<le> ilog2 y"
proof -
  assume x: "0 < x" and le: "x \<le> y"
  have "(2::rat) powi ilog2 x < 2 powi (ilog2 y + 1)"
    using ilog2_bounds[of x] ilog2_bounds[of y] x le by linarith
  then have "ilog2 x < ilog2 y + 1" by (rule powi_less_cancel)
  then show ?thesis by simp
qed

lemma f64_ulp_pos [simp]: "0 < f64_ulp x"
  by (simp add: f64_ulp_def)

lemma f64_zero [simp]: "f64 0 = 0"
  by (simp add: f64_def)

lemma f64_minus: "f64 (- x) = - f64 x"
proof -
  have "f64_ulp (- x) = f64_ulp x" by (simp add: f64_ulp_def)
  then show ?thesis by (simp add: f64_def round_half_even_minus)
qed

text \<open>A multiple of the local spacing is a float, so it rounds to itself.\<close>

lemma f64_multiple: "x = of_int n * f64_ulp x \<Longrightarrow> f64 x = x"
proof (cases "x = 0")
  case False
  assume x: "x = of_int n * f64_ulp x"
  then have "x / f64_ulp x = of_int n" by (metis f64_ulp_pos less_irrefl nonzero_mult_div_cancel_right)
  then have "f64 x = of_int n * f64_ulp x" using False by (simp add: f64_def)
  with x show ?thesis by simp
qed simp

lemma f64_nonneg_of: "0 \<le> x \<Longrightarrow> 0 \<le> f64 x"
proof -
  assume "0 \<le> x"
  then have "round_half_even (of_int 0) \<le> round_half_even (x / f64_ulp x)"
    by (intro round_half_even_mono) (simp add: less_imp_le)
  then have "0 \<le> round_half_even (x / f64_ulp x)" by (simp only: round_half_even_of_int)
  then show ?thesis by (simp add: f64_def less_imp_le)
qed

text \<open>The rounding of \<open>x\<close> stays between the powers of two around \<open>x\<close>.\<close>

lemma f64_binade:
  assumes x: "0 < x" and e: "e = max (ilog2 x) (- 1022)"
  shows "f64 x \<le> 2 powi (e + 1)" "ilog2 x = e \<Longrightarrow> 2 powi e \<le> f64 x"
proof -
  have u: "f64_ulp x = 2 powi (e - 52)" using x e by (simp add: f64_ulp_def)
  have fx: "f64 x = of_int (round_half_even (x / f64_ulp x)) * f64_ulp x"
    using x by (simp add: f64_def)
  have up: "2 powi (e + 1) = of_int (2 ^ 53) * f64_ulp x"
    and lo: "2 powi e = of_int (2 ^ 52) * f64_ulp x"
    using power_int_add[of "2::rat" 53 "e - 52"] power_int_add[of "2::rat" 52 "e - 52"]
    by (simp_all add: u algebra_simps)
  have "x \<le> 2 powi (e + 1)"
  proof -
    have "x < 2 powi (ilog2 x + 1)" by (rule ilog2_bounds[OF x])
    also have "\<dots> \<le> 2 powi (e + 1)" by (rule power_int_increasing) (auto simp: e)
    finally show ?thesis by simp
  qed
  then have "round_half_even (x / f64_ulp x) \<le> round_half_even (of_int (2 ^ 53))"
    unfolding up by (intro round_half_even_mono) (simp add: pos_divide_le_eq)
  then have "round_half_even (x / f64_ulp x) \<le> 2 ^ 53" by (simp only: round_half_even_of_int)
  then have "(of_int (round_half_even (x / f64_ulp x)) :: rat) \<le> of_int (2 ^ 53)"
    by (simp only: of_int_le_iff)
  then show "f64 x \<le> 2 powi (e + 1)" unfolding fx up by (rule mult_right_mono) (simp add: less_imp_le)
  assume "ilog2 x = e"
  then have "2 powi e \<le> x" using ilog2_bounds[OF x] by simp
  then have "round_half_even (of_int (2 ^ 52)) \<le> round_half_even (x / f64_ulp x)"
    unfolding lo by (intro round_half_even_mono) (simp add: pos_le_divide_eq)
  then have "2 ^ 52 \<le> round_half_even (x / f64_ulp x)" by (simp only: round_half_even_of_int)
  then have "(of_int (2 ^ 52) :: rat) \<le> of_int (round_half_even (x / f64_ulp x))"
    by (simp only: of_int_le_iff)
  then show "2 powi e \<le> f64 x" unfolding fx lo by (rule mult_right_mono) (simp add: less_imp_le)
qed

lemma f64_mono_pos:
  assumes x: "0 < x" and le: "x \<le> y"
  shows "f64 x \<le> f64 y"
proof -
  have y: "0 < y" using assms by simp
  let ?e = "max (ilog2 x) (- 1022)" and ?d = "max (ilog2 y) (- 1022)"
  have ed: "?e \<le> ?d" using ilog2_mono[OF x le] by simp
  show ?thesis
  proof (cases "?e = ?d")
    case True
    then have u: "f64_ulp x = f64_ulp y" using x y by (simp add: f64_ulp_def)
    have "round_half_even (x / f64_ulp x) \<le> round_half_even (y / f64_ulp y)"
      using le by (intro round_half_even_mono) (simp add: u divide_right_mono less_imp_le)
    then show ?thesis using x y by (simp add: f64_def u mult_right_mono less_imp_le)
  next
    case False
    with ed have lt: "?e + 1 \<le> ?d" by simp
    then have "ilog2 y = ?d" by auto
    have "f64 x \<le> 2 powi (?e + 1)" by (rule f64_binade[OF x]) simp
    also have "\<dots> \<le> 2 powi ?d" using lt by (intro power_int_increasing) auto
    also have "\<dots> \<le> f64 y" by (rule f64_binade(2)[OF y refl \<open>ilog2 y = ?d\<close>])
    finally show ?thesis .
  qed
qed

lemma f64_mono: "x \<le> y \<Longrightarrow> f64 x \<le> f64 y"
proof -
  assume le: "x \<le> y"
  consider "0 < x" | "x \<le> 0" "0 \<le> y" | "y < 0" by linarith
  then show ?thesis
  proof cases
    case 1
    then show ?thesis using le by (rule f64_mono_pos)
  next
    case 2
    have "f64 x = - f64 (- x)" by (simp add: f64_minus)
    with 2 f64_nonneg_of[of y] f64_nonneg_of[of "- x"] show ?thesis by simp
  next
    case 3
    have "f64 (- y) \<le> f64 (- x)" using 3 le by (intro f64_mono_pos) auto
    then show ?thesis by (simp add: f64_minus)
  qed
qed

text \<open>Integers of at most 53 bits are floats.\<close>

lemma f64_small_int:
  assumes "\<bar>n\<bar> \<le> 2 ^ 53"
  shows "f64 (of_int n) = of_int n"
proof (cases "n = 0")
  case False
  let ?x = "of_int n :: rat"
  define e where "e = ilog2 \<bar>?x\<bar>"
  have pos: "0 < \<bar>?x\<bar>" using False by simp
  have "1 \<le> \<bar>?x\<bar>" using False by (simp add: of_int_abs[symmetric] del: of_int_abs)
  have e0: "0 \<le> e"
  proof -
    have "(2::rat) powi 0 < 2 powi (e + 1)"
      using \<open>1 \<le> \<bar>?x\<bar>\<close> ilog2_bounds(2)[OF pos] by (simp add: e_def)
    then show ?thesis using powi_less_cancel by fastforce
  qed
  have e53: "e \<le> 53"
  proof -
    have "(2::rat) powi e \<le> \<bar>?x\<bar>" using ilog2_bounds(1)[OF pos] by (simp add: e_def)
    also have "\<dots> \<le> of_int (2 ^ 53)" using assms by (simp only: of_int_abs[symmetric] of_int_le_iff)
    finally have "(2::rat) powi e < 2 powi 54" by simp
    then show ?thesis using powi_less_cancel by fastforce
  qed
  have u: "f64_ulp ?x = 2 powi (e - 52)" using e0 by (simp add: f64_ulp_def e_def[symmetric])
  show ?thesis
  proof (cases "e \<le> 52")
    case True
    then have "f64_ulp ?x * of_int (2 ^ nat (52 - e)) = 1"
      by (simp add: u power_int_def nat_diff_distrib field_simps)
    then have "?x = of_int (n * 2 ^ nat (52 - e)) * f64_ulp ?x" by (simp add: field_simps)
    then show ?thesis by (rule f64_multiple)
  next
    case False
    with e53 have e: "e = 53" by simp
    then have "2 ^ 53 \<le> \<bar>?x\<bar>" using ilog2_bounds(1)[OF pos] by (simp add: e_def)
    then have "(of_int (2 ^ 53) :: rat) \<le> of_int \<bar>n\<bar>" by simp
    then have "2 ^ 53 \<le> \<bar>n\<bar>" by (simp only: of_int_le_iff)
    with assms have "\<bar>n\<bar> = 2 * 2 ^ 52" by simp
    then have "even \<bar>n\<bar>" by simp
    then have "even n" by simp
    then obtain m where "n = 2 * m" by (rule evenE)
    moreover have "f64_ulp ?x = 2" using e by (simp add: u)
    ultimately have "?x = of_int m * f64_ulp ?x" by simp
    then show ?thesis by (rule f64_multiple)
  qed
qed simp


section \<open>The interface to the clients\<close>

text \<open>
  What selection and the load meter rely on: rounding is monotone and keeps 0 and 1. The
  lemmas below hold for every such rounding.
\<close>

locale float_rounding =
  fixes rnd :: "rat \<Rightarrow> rat"
  assumes rnd_mono: "x \<le> y \<Longrightarrow> rnd x \<le> rnd y"
    and rnd_0: "rnd 0 = 0"
    and rnd_1: "rnd 1 = 1"
begin

lemma rnd_nonneg: "0 \<le> x \<Longrightarrow> 0 \<le> rnd x"
  using rnd_mono[of 0 x] by (simp add: rnd_0)

lemma rnd_le_1: "x \<le> 1 \<Longrightarrow> rnd x \<le> 1"
  using rnd_mono[of x 1] by (simp add: rnd_1)

lemma rnd_ge_1: "1 \<le> x \<Longrightarrow> 1 \<le> rnd x"
  using rnd_mono[of 1 x] by (simp add: rnd_1)

lemma rnd_nonpos: "x \<le> 0 \<Longrightarrow> rnd x \<le> 0"
  using rnd_mono[of x 0] by (simp add: rnd_0)

lemma rnd_pos_int: "0 < n \<Longrightarrow> 0 < rnd (of_int n)"
  using rnd_ge_1[of "of_int n"] by simp

text \<open>The spare share \<open>1 - used / cap\<close> falls when more is used.\<close>

lemma rnd_headroom_antimono:
  assumes "0 < c" and "a \<le> b"
  shows "rnd (1 - rnd (rnd b / c)) \<le> rnd (1 - rnd (rnd a / c))"
proof -
  have "rnd a / c \<le> rnd b / c"
    using assms by (simp add: divide_right_mono rnd_mono)
  then show ?thesis by (intro rnd_mono diff_left_mono)
qed

lemma rnd_headroom_full:
  assumes "0 < c" and "c \<le> rnd b"
  shows "rnd (1 - rnd (rnd b / c)) \<le> 0"
  using assms by (intro rnd_nonpos) (simp add: rnd_ge_1)

text \<open>A weighted mean of two shares, rounded at every operation.\<close>

lemma rnd_mean_mono:
  assumes "0 \<le> v" "0 \<le> w" "0 < t" "a \<le> a'" "b \<le> b'"
  shows "rnd (rnd (rnd (v * a) + rnd (w * b)) / t) \<le> rnd (rnd (rnd (v * a') + rnd (w * b')) / t)"
proof -
  have "rnd (v * a) \<le> rnd (v * a')" "rnd (w * b) \<le> rnd (w * b')"
    using assms by (auto intro!: rnd_mono mult_left_mono)
  then have "rnd (rnd (v * a) + rnd (w * b)) \<le> rnd (rnd (v * a') + rnd (w * b'))"
    by (rule rnd_mono[OF add_mono])
  then show ?thesis by (rule rnd_mono[OF divide_right_mono]) (use assms in simp)
qed

lemma rnd_mean_nonneg:
  assumes "0 \<le> v" "0 \<le> w" "0 < t" "0 \<le> a" "0 \<le> b"
  shows "0 \<le> rnd (rnd (rnd (v * a) + rnd (w * b)) / t)"
  using rnd_mean_mono[of v w t 0 a 0 b] assms by (simp add: rnd_0)

end

interpretation f64r: float_rounding f64
proof unfold_locales
  show "f64 1 = 1" using f64_small_int[of 1] by simp
qed (simp_all add: f64_mono)

end
