(* ===== verification/Go_Json.thy ===== *)
theory Go_Json
  imports Go_Strings Go_Float
begin

text \<open>
  The part of \<open>encoding/json\<close> the program uses: values, the reader of JSON text, and decoding
  a value into the fields of a struct. Numbers without a fraction or exponent stay integers,
  as only those decode into Go's integer types. Names of fields match up to letter case, an unknown
  name is ignored, \<open>null\<close> leaves a field as it is, and a value of the wrong kind is an error that
  leaves its field alone while the others are still filled in.
\<close>

section \<open>Values\<close>

datatype json =
    JNull | JBool bool | JInt int | JReal rat | JStr string
  | JArr "json list" | JObj "(string \<times> json) list"


text \<open>How the number written for a \<open>float64\<close> reads: without a point when it is integral.\<close>

definition f64_json :: "rat \<Rightarrow> json" where
  "f64_json x = (if x = of_int \<lfloor>x\<rfloor> \<and> \<bar>x\<bar> < 10 ^ 21 then JInt \<lfloor>x\<rfloor> else JReal x)"


section \<open>Reading text\<close>

definition is_ws :: "char \<Rightarrow> bool" where
  "is_ws x \<longleftrightarrow> of_char x \<in> {9, 10, 13, 32 :: nat}"

definition skip_ws :: "string \<Rightarrow> string" where
  "skip_ws = dropWhile is_ws"

text \<open>The four digits after \<open>\u\<close>, and the UTF-8 bytes of a code point.\<close>

definition hex_digit_val :: "char \<Rightarrow> nat option" where
  "hex_digit_val x =
     (let n = of_char x :: nat in
      if 48 \<le> n \<and> n \<le> 57 then Some (n - 48)
      else if 97 \<le> n \<and> n \<le> 102 then Some (n - 87)
      else if 65 \<le> n \<and> n \<le> 70 then Some (n - 55) else None)"

definition hex4 :: "string \<Rightarrow> nat option" where
  "hex4 s =
     (if length s < 4 then None
      else map_option (foldl (\<lambda>acc d. acc * 16 + d) 0) (those (map hex_digit_val (take 4 s))))"

definition utf8 :: "nat \<Rightarrow> string" where
  "utf8 r = map char_of
     (if r < 0x80 then [r]
      else if r < 0x800 then [0xC0 + r div 64, 0x80 + r mod 64]
      else if r < 0x10000 then [0xE0 + r div 4096, 0x80 + r div 64 mod 64, 0x80 + r mod 64]
      else [0xF0 + r div 262144, 0x80 + r div 4096 mod 64, 0x80 + r div 64 mod 64, 0x80 + r mod 64])"

definition surrogate :: "nat \<Rightarrow> bool" where
  "surrogate r \<longleftrightarrow> 0xD800 \<le> r \<and> r < 0xE000"

text \<open>The two code units of a pair as one code point.\<close>

definition pair_rune :: "nat \<Rightarrow> nat \<Rightarrow> nat option" where
  "pair_rune hi lo =
     (if 0xD800 \<le> hi \<and> hi < 0xDC00 \<and> 0xDC00 \<le> lo \<and> lo < 0xE000
      then Some ((hi - 0xD800) * 0x400 + (lo - 0xDC00) + 0x10000) else None)"

definition simple_escape :: "char \<Rightarrow> char option" where
  "simple_escape x = map_of
     [(CHR 0x22, CHR 0x22), (CHR 0x5C, CHR 0x5C), (CHR 0x2F, CHR 0x2F), (CHR ''b'', CHR 0x08),
      (CHR ''f'', CHR 0x0C), (CHR ''n'', CHR 0x0A), (CHR ''r'', CHR 0x0D), (CHR ''t'', CHR 0x09)] x"

text \<open>The rest of a string literal after its opening quote.\<close>

function scan_str :: "string \<Rightarrow> (string \<times> string) option" where
  "scan_str [] = None"
| "scan_str (x # xs) =
     (if x = CHR 0x22 then Some ([], xs)
      else if x = CHR 0x5C then
        (case xs of
           [] \<Rightarrow> None
         | y # ys \<Rightarrow>
             if y = CHR ''u'' then
               (case hex4 ys of
                  None \<Rightarrow> None
                | Some r \<Rightarrow>
                    (case (if surrogate r \<and> take 2 (drop 4 ys) = [CHR 0x5C, CHR ''u''] \<and> 10 \<le> length ys
                           then Option.bind (hex4 (drop 6 ys)) (pair_rune r) else None) of
                       Some r2 \<Rightarrow> map_option (apfst ((@) (utf8 r2))) (scan_str (drop 10 ys))
                     | None \<Rightarrow> map_option (apfst ((@) (utf8 (if surrogate r then 0xFFFD else r)))) (scan_str (drop 4 ys))))
             else (case simple_escape y of
                     None \<Rightarrow> None
                   | Some z \<Rightarrow> map_option (apfst ((#) z)) (scan_str ys)))
      else if of_char x < (32 :: nat) then None
      else map_option (apfst ((#) x)) (scan_str xs))"
  by pat_completeness auto
termination by (relation "measure length") auto

text \<open>A number literal: sign, integer part without leading zeros, fraction, exponent.\<close>

definition scan_frac :: "string \<Rightarrow> bool \<times> string \<times> string" where
  "scan_frac s =
     (if take 1 s = ''.'' then (True, takeWhile isDigit (drop 1 s), dropWhile isDigit (drop 1 s))
      else (False, [], s))"

definition scan_exp :: "string \<Rightarrow> bool \<times> bool \<times> string \<times> string" where
  "scan_exp s =
     (if take 1 s = ''e'' \<or> take 1 s = ''E'' then
        (let sg = take 1 (drop 1 s); r = (if sg = ''-'' \<or> sg = ''+'' then drop 2 s else drop 1 s)
         in (True, sg = ''-'', takeWhile isDigit r, dropWhile isDigit r))
      else (False, False, [], s))"

definition scan_num :: "string \<Rightarrow> (json \<times> string) option" where
  "scan_num s =
     (let neg = (take 1 s = ''-'');
          s0 = (if neg then drop 1 s else s);
          i = takeWhile isDigit s0;
          (frac, f, s1) = scan_frac (dropWhile isDigit s0);
          (ex, eneg, e, s2) = scan_exp s1;
          m = (if neg then - 1 else 1) * rat_of_nat (dec_val (i @ f)) / 10 ^ length f
      in if i = [] \<or> (1 < length i \<and> hd i = CHR ''0'') \<or> (frac \<and> f = []) \<or> (ex \<and> e = []) then None
         else if \<not> frac \<and> \<not> ex then Some (JInt ((if neg then - 1 else 1) * int (dec_val i)), s2)
         else Some (JReal (if eneg then m / 10 ^ dec_val e else m * 10 ^ dec_val e), s2))"

text \<open>
  A value, the rest of an array and the rest of an object. Every call spends one unit of fuel; a
  reader of \<open>n\<close> characters needs at most \<open>2 * n + 2\<close>.
\<close>

fun parse_value :: "nat \<Rightarrow> string \<Rightarrow> (json \<times> string) option"
  and parse_elems :: "nat \<Rightarrow> string \<Rightarrow> (json list \<times> string) option"
  and parse_members :: "nat \<Rightarrow> string \<Rightarrow> ((string \<times> json) list \<times> string) option" where
  "parse_value 0 s = None"
| "parse_value (Suc n) s =
     (if take 4 s = ''null'' then Some (JNull, drop 4 s)
      else if take 4 s = ''true'' then Some (JBool True, drop 4 s)
      else if take 5 s = ''false'' then Some (JBool False, drop 5 s)
      else case s of
        [] \<Rightarrow> None
      | x # r \<Rightarrow>
          if x = CHR 0x22 then map_option (apfst JStr) (scan_str r)
          else if x = CHR ''['' then
            (let r' = skip_ws r in
             if take 1 r' = '']'' then Some (JArr [], drop 1 r')
             else map_option (apfst JArr) (parse_elems n r'))
          else if x = CHR 0x7B then
            (let r' = skip_ws r in
             if take 1 r' = [CHR 0x7D] then Some (JObj [], drop 1 r')
             else map_option (apfst JObj) (parse_members n r'))
          else scan_num s)"
| "parse_elems 0 s = None"
| "parse_elems (Suc n) s =
     (case parse_value n s of
        None \<Rightarrow> None
      | Some (v, r) \<Rightarrow>
          (let r' = skip_ws r in
           if take 1 r' = '','' then map_option (apfst ((#) v)) (parse_elems n (skip_ws (drop 1 r')))
           else if take 1 r' = '']'' then Some ([v], drop 1 r') else None))"
| "parse_members 0 s = None"
| "parse_members (Suc n) s =
     (if take 1 s \<noteq> [CHR 0x22] then None
      else case scan_str (drop 1 s) of
        None \<Rightarrow> None
      | Some (k, r) \<Rightarrow>
          (let r' = skip_ws r in
           if take 1 r' \<noteq> '':'' then None
           else case parse_value n (skip_ws (drop 1 r')) of
             None \<Rightarrow> None
           | Some (v, r2) \<Rightarrow>
               (let r3 = skip_ws r2 in
                if take 1 r3 = '','' then map_option (apfst ((#) (k, v))) (parse_members n (skip_ws (drop 1 r3)))
                else if take 1 r3 = [CHR 0x7D] then Some ([(k, v)], drop 1 r3) else None)))"

definition parse_json :: "string \<Rightarrow> json option" where
  "parse_json text =
     (case parse_value (2 * length text + 2) (skip_ws text) of
        None \<Rightarrow> None
      | Some (v, r) \<Rightarrow> if skip_ws r = [] then Some v else None)"

section \<open>Decoding into structs\<close>

text \<open>
  A field assigns a value to its place in the struct, or reports the mismatch; \<open>decode_into\<close> runs
  over the members in order and remembers whether one failed.
\<close>

type_synonym 'r field = "string \<times> (json \<Rightarrow> 'r \<Rightarrow> 'r \<times> bool)"

definition find_field :: "string \<Rightarrow> 'r field list \<Rightarrow> 'r field option" where
  "find_field k fs =
     (case find (\<lambda>f. fst f = k) fs of
        Some f \<Rightarrow> Some f
      | None \<Rightarrow> find (\<lambda>f. EqualFold (fst f) k) fs)"

fun decode_members :: "'r field list \<Rightarrow> (string \<times> json) list \<Rightarrow> 'r \<Rightarrow> 'r \<times> bool" where
  "decode_members fs [] r = (r, True)"
| "decode_members fs ((k, v) # ms) r =
     (case find_field k fs of
        None \<Rightarrow> decode_members fs ms r
      | Some (_, set_f) \<Rightarrow>
          (case set_f v r of (r1, ok1) \<Rightarrow> (case decode_members fs ms r1 of (r2, ok2) \<Rightarrow> (r2, ok1 \<and> ok2))))"

definition decode_into :: "'r field list \<Rightarrow> json \<Rightarrow> 'r \<Rightarrow> 'r \<times> bool" where
  "decode_into fs v r =
     (case v of JNull \<Rightarrow> (r, True) | JObj ms \<Rightarrow> decode_members fs ms r | _ \<Rightarrow> (r, False))"

definition str_field :: "(string \<Rightarrow> 'r \<Rightarrow> 'r) \<Rightarrow> json \<Rightarrow> 'r \<Rightarrow> 'r \<times> bool" where
  "str_field put v r = (case v of JStr s \<Rightarrow> (put s r, True) | JNull \<Rightarrow> (r, True) | _ \<Rightarrow> (r, False))"

definition int_field :: "(int \<Rightarrow> 'r \<Rightarrow> 'r) \<Rightarrow> json \<Rightarrow> 'r \<Rightarrow> 'r \<times> bool" where
  "int_field put v r =
     (case v of JInt n \<Rightarrow> if int64_range n then (put n r, True) else (r, False)
      | JNull \<Rightarrow> (r, True) | _ \<Rightarrow> (r, False))"

text \<open>\<open>float64\<close>: a literal beyond the largest finite value is an error.\<close>

definition f64_of_json :: "json \<Rightarrow> rat option" where
  "f64_of_json v =
     (let fin = (\<lambda>x. if \<bar>x\<bar> < 2 ^ 1024 then Some x else None)
      in case v of JInt n \<Rightarrow> fin (f64 (of_int n)) | JReal x \<Rightarrow> fin (f64 x) | _ \<Rightarrow> None)"

definition f64_field :: "(rat \<Rightarrow> 'r \<Rightarrow> 'r) \<Rightarrow> json \<Rightarrow> 'r \<Rightarrow> 'r \<times> bool" where
  "f64_field put v r =
     (if v = JNull then (r, True)
      else case f64_of_json v of Some x \<Rightarrow> (put x r, True) | None \<Rightarrow> (r, False))"

definition f64_ptr_field :: "(rat option \<Rightarrow> 'r \<Rightarrow> 'r) \<Rightarrow> json \<Rightarrow> 'r \<Rightarrow> 'r \<times> bool" where
  "f64_ptr_field put v r =
     (if v = JNull then (put None r, True)
      else case f64_of_json v of Some x \<Rightarrow> (put (Some x) r, True) | None \<Rightarrow> (r, False))"

text \<open>A nested struct is filled in where it stands.\<close>

definition struct_field :: "'s field list \<Rightarrow> ('r \<Rightarrow> 's) \<Rightarrow> ('s \<Rightarrow> 'r \<Rightarrow> 'r) \<Rightarrow> json \<Rightarrow> 'r \<Rightarrow> 'r \<times> bool" where
  "struct_field fs get put v r = (case decode_into fs v (get r) of (x, ok) \<Rightarrow> (put x r, ok))"


section \<open>Progress of the reader\<close>

text \<open>Readers move forward, and more fuel than a call needs makes no difference.\<close>

lemma skip_ws_le: "length (skip_ws s) \<le> length s"
  by (simp add: skip_ws_def length_dropWhile_le)

lemma scan_str_shorter: "scan_str s = Some (v, r) \<Longrightarrow> length r < length s"
proof (induction s arbitrary: v rule: scan_str.induct)
  case (2 x xs)
  show ?case
  proof (cases xs)
    case Nil
    with 2 show ?thesis by (auto split: if_splits)
  next
    case (Cons y ys)
    with 2 show ?thesis by (fastforce split: if_splits option.splits)
  qed
qed simp

lemma scan_frac_le: "scan_frac s = (b, f, r) \<Longrightarrow> length r \<le> length s"
  using length_dropWhile_le[of isDigit "drop 1 s"] by (auto simp: scan_frac_def split: if_splits)

lemma scan_exp_le: "scan_exp s = (b, n, e, r) \<Longrightarrow> length r \<le> length s"
  using length_dropWhile_le[of isDigit "drop 1 s"] length_dropWhile_le[of isDigit "drop 2 s"]
  by (auto simp: scan_exp_def Let_def split: if_splits)

lemma scan_num_shorter: "scan_num s = Some (v, r) \<Longrightarrow> length r < length s"
proof -
  assume a: "scan_num s = Some (v, r)"
  define s0 where "s0 = (if take 1 s = ''-'' then drop 1 s else s)"
  obtain b f s1 where f: "scan_frac (dropWhile isDigit s0) = (b, f, s1)" by (metis prod_cases3)
  obtain c n e s2 where e: "scan_exp s1 = (c, n, e, s2)" by (metis prod_cases4)
  have i: "takeWhile isDigit s0 \<noteq> []" and r: "r = s2"
    using a unfolding scan_num_def Let_def s0_def[symmetric] by (simp_all add: f e split: if_splits)
  have "length s2 \<le> length (dropWhile isDigit s0)" using scan_frac_le[OF f] scan_exp_le[OF e] by simp
  moreover have "length (takeWhile isDigit s0) + length (dropWhile isDigit s0) = length s0"
    by (metis length_append takeWhile_dropWhile_id)
  moreover have "0 < length (takeWhile isDigit s0)" using i by simp
  moreover have "length s0 \<le> length s" by (simp add: s0_def)
  ultimately show ?thesis unfolding r by linarith
qed

lemma take_eq_length: "take n s = w \<Longrightarrow> length w = n \<Longrightarrow> n \<le> length s"
  by (metis length_take min.absorb_iff2 min.commute)

lemma parse_shorter:
  "parse_value n s = Some (v, r) \<Longrightarrow> length r < length s"
  "parse_elems n s = Some (vs, r) \<Longrightarrow> length r < length s"
  "parse_members n s = Some (ms, r) \<Longrightarrow> length r < length s"
proof (induction n s and n s and n s arbitrary: v r and vs r and ms r
    rule: parse_value_parse_elems_parse_members.induct)
  case (2 n s)
  show ?case
  proof (cases s)
    case Nil
    with 2(3) show ?thesis by simp
  next
    case (Cons x xs)
    have ws: "length (skip_ws xs) \<le> length xs" by (rule skip_ws_le)
    show ?thesis using 2 Cons ws scan_num_shorter[of s v r]
      by (auto simp: Let_def split: if_splits dest!: scan_str_shorter take_eq_length) force+
  qed
next
  case (4 n s)
  then obtain v r' where v: "parse_value n s = Some (v, r')" by (auto split: option.splits)
  have "length (skip_ws r') < length s" using 4(1)[OF v] skip_ws_le[of r'] by simp
  moreover have "length (skip_ws (drop 1 (skip_ws r'))) \<le> length (skip_ws r')"
    using skip_ws_le[of "drop 1 (skip_ws r')"] by simp
  ultimately show ?case using 4 v by (auto simp: Let_def split: if_splits) force
next
  case (6 n s)
  then obtain k r1 where k: "take 1 s = [CHR 0x22]" "scan_str (drop 1 s) = Some (k, r1)"
    by (auto split: option.splits if_splits)
  then obtain v r2 where v: "take 1 (skip_ws r1) = '':''" "parse_value n (skip_ws (drop 1 (skip_ws r1))) = Some (v, r2)"
    using 6(3) by (auto simp: Let_def split: option.splits if_splits)
  let ?r3 = "skip_ws (drop 1 (skip_ws r2))"
  have "length r2 < length (skip_ws (drop 1 (skip_ws r1)))" using 6(1) k v by simp
  then have r2: "length (skip_ws r2) < length s"
    using scan_str_shorter[OF k(2)] skip_ws_le[of r1] skip_ws_le[of "drop 1 (skip_ws r1)"] skip_ws_le[of r2] by simp
  have "length ?r3 < length s" using r2 skip_ws_le[of "drop 1 (skip_ws r2)"] by simp
  moreover have "length r < length ?r3" if "take 1 (skip_ws r2) = '',''" "parse_members n ?r3 = Some (x, r)" for x
    using 6(2) k v that by simp
  ultimately show ?case using 6(3) k v r2 by (auto simp: Let_def split: if_splits)
qed auto

text \<open>The three bounds on the fuel that a text of a given length needs.\<close>

lemma parse_fuel_Suc:
  "2 * length s + 1 \<le> n \<Longrightarrow> parse_value (Suc n) s = parse_value n s"
  "2 * length s + 2 \<le> n \<Longrightarrow> parse_elems (Suc n) s = parse_elems n s"
  "2 * length s + 2 \<le> n \<Longrightarrow> parse_members (Suc n) s = parse_members n s"
proof (induction n s and n s and n s rule: parse_value_parse_elems_parse_members.induct)
  case (2 n s)
  show ?case
  proof (cases s)
    case (Cons x xs)
    have "length (skip_ws xs) \<le> length xs" by (rule skip_ws_le)
    then show ?thesis using 2 Cons by (auto simp: Let_def)
  qed simp
next
  case (4 n s)
  have "parse_elems (Suc n) (skip_ws (drop 1 (skip_ws r))) = parse_elems n (skip_ws (drop 1 (skip_ws r)))"
    if v: "parse_value n s = Some (v, r)" "take 1 (skip_ws r) = '',''" for v r
  proof (rule 4(2)[OF v(1) refl refl v(2)])
    show "2 * length (skip_ws (drop 1 (skip_ws r))) + 2 \<le> n"
      using parse_shorter(1)[OF v(1)] skip_ws_le[of r] skip_ws_le[of "drop 1 (skip_ws r)"] 4(3) by simp
  qed
  moreover have "parse_value (Suc n) s = parse_value n s" using 4(1,3) by simp
  ultimately show ?case by (auto simp: Let_def split: option.splits)
next
  case (6 n s)
  have m: "parse_members (Suc n) (skip_ws (drop 1 (skip_ws r2))) = parse_members n (skip_ws (drop 1 (skip_ws r2)))"
    if "take 1 s = [CHR 0x22]" "scan_str (drop 1 s) = Some (k, r1)" "take 1 (skip_ws r1) = '':''"
      "parse_value n (skip_ws (drop 1 (skip_ws r1))) = Some (v, r2)" "take 1 (skip_ws r2) = '',''" for k r1 v r2
  proof -
    have "2 * length (skip_ws (drop 1 (skip_ws r2))) + 2 \<le> n"
      using parse_shorter(1)[OF that(4)] scan_str_shorter[OF that(2)] skip_ws_le[of r1] skip_ws_le[of "drop 1 (skip_ws r1)"]
        skip_ws_le[of r2] skip_ws_le[of "drop 1 (skip_ws r2)"] 6(3) by simp
    with 6(2) that show ?thesis by simp
  qed
  have v: "parse_value (Suc n) (skip_ws (drop 1 (skip_ws r1))) = parse_value n (skip_ws (drop 1 (skip_ws r1)))"
    if "take 1 s = [CHR 0x22]" "scan_str (drop 1 s) = Some (k, r1)" "take 1 (skip_ws r1) = '':''" for k r1
  proof -
    have "2 * length (skip_ws (drop 1 (skip_ws r1))) + 1 \<le> n"
      using scan_str_shorter[OF that(2)] skip_ws_le[of r1] skip_ws_le[of "drop 1 (skip_ws r1)"] 6(3) by simp
    with 6(1) that show ?thesis by simp
  qed
  show ?case using m v by (auto simp: Let_def split: option.splits)
qed auto

lemma parse_value_fuel:
  "2 * length s + 1 \<le> n \<Longrightarrow> n \<le> m \<Longrightarrow> parse_value m s = parse_value n s"
  by (induction m) (auto simp: le_Suc_eq parse_fuel_Suc(1) simp del: parse_value.simps)

end
