(* ===== verification/Model.thy ===== *)
theory Model
  imports Complex_Main Prelude Go_Float
begin

text \<open>
  The domain types of \<^verbatim>\<open>internal/model/model.go\<close>. A pointer that may be nil is an
  \<open>option\<close>; \<open>int\<close>/\<open>int64\<close> fields are integers (the 64-bit wrap-around is written where the
  code adds them); a \<open>float64\<close> is the rational it denotes; a \<open>time.Time\<close> is an instant
  and a \<open>time.Duration\<close> a span, both in nanoseconds.
\<close>

type_synonym instant = int
type_synonym duration = int

section \<open>Time\<close>

text \<open>Go's integer division truncates towards zero.\<close>

definition go_quot :: "int \<Rightarrow> int \<Rightarrow> int" where
  "go_quot a b = sgn a * sgn b * (\<bar>a\<bar> div \<bar>b\<bar>)"

definition go_rem :: "int \<Rightarrow> int \<Rightarrow> int" where
  "go_rem a b = a - go_quot a b * b"

text \<open>\<open>time.Duration.Seconds\<close>.\<close>

definition Seconds :: "duration \<Rightarrow> rat" where
  "Seconds d =
     f64_add (f64_of_int (go_quot d 1000000000)) (f64_div (f64_of_int (go_rem d 1000000000)) 1000000000)"


section \<open>Locations and gateways\<close>

record location =
  l_ID :: string
  l_Code :: string
  l_CountryName :: string
  l_Enabled :: bool
  l_ServerCount :: int
  l_HealthyCount :: int

definition Available :: "location \<Rightarrow> bool" where
  "Available l \<longleftrightarrow> l_HealthyCount l > 0"

text \<open>The lifecycle states; \<open>GatewayNoStatus\<close> is the empty string of a zero struct.\<close>

datatype gateway_status =
    GatewayPending | GatewayHealthy | GatewayUnhealthy | GatewayDraining | GatewayDisabled
  | GatewayNoStatus

record gateway =
  g_ID :: string
  g_LocationID :: string
  g_LocationCode :: string
  g_CountryName :: string
  g_Name :: string
  g_City :: string
  g_Region :: string
  g_PublicKey :: string
  g_EndpointHost :: string
  g_EndpointPort :: int
  g_Capacity :: int
  g_BandwidthMbps :: int
  g_Latitude :: "rat option"
  g_Longitude :: "rat option"
  g_Status :: gateway_status
  g_ActivePeers :: int
  g_CPUPct :: rat
  g_RxBps :: int
  g_TxBps :: int
  g_LastHeartbeatAt :: "instant option"

text \<open>The zero value of the struct.\<close>

definition zero_gateway :: gateway where
  "zero_gateway =
     \<lparr>g_ID = '''', g_LocationID = '''', g_LocationCode = '''', g_CountryName = '''', g_Name = '''',
      g_City = '''', g_Region = '''', g_PublicKey = '''', g_EndpointHost = '''', g_EndpointPort = 0,
      g_Capacity = 0, g_BandwidthMbps = 0, g_Latitude = None, g_Longitude = None,
      g_Status = GatewayNoStatus, g_ActivePeers = 0, g_CPUPct = 0, g_RxBps = 0, g_TxBps = 0,
      g_LastHeartbeatAt = None\<rparr>"

text \<open>
  \<open>now.Sub(t)\<close> saturates at the ends of the 64-bit range of a duration.
\<close>

definition time_Sub :: "instant \<Rightarrow> instant \<Rightarrow> duration" where
  "time_Sub t u = max (- (2 ^ 63)) (min (2 ^ 63 - 1) (t - u))"

definition Online :: "gateway \<Rightarrow> instant \<Rightarrow> duration \<Rightarrow> bool" where
  "Online g now ttl =
     (if g_Status g \<noteq> GatewayHealthy then False
      else case g_LastHeartbeatAt g of None \<Rightarrow> False | Some t \<Rightarrow> time_Sub now t \<le> ttl)"

record gateway_registration =
  r_Name :: string
  r_CountryCode :: string
  r_CountryName :: string
  r_City :: string
  r_Region :: string
  r_EndpointHost :: string
  r_EndpointPort :: int
  r_PublicKey :: string
  r_WGSubnetV4 :: string
  r_WGSubnetV6 :: string
  r_Capacity :: int
  r_BandwidthMbps :: int
  r_Latitude :: "rat option"
  r_Longitude :: "rat option"

record gateway_metrics =
  m_ActivePeers :: int
  m_CPUPct :: rat
  m_RxBps :: int
  m_TxBps :: int


section \<open>Identity\<close>

record user =
  u_ID :: string
  u_Email :: string
  u_DisplayName :: string
  u_Status :: string
  u_CreatedAt :: instant

record device =
  d_ID :: string
  d_UserID :: string
  d_Name :: string
  d_Platform :: string
  d_PublicKey :: string
  d_CreatedAt :: instant
  d_LastSeenAt :: "instant option"
  d_RevokedAt :: "instant option"

definition ValidPlatform :: "string \<Rightarrow> bool" where
  "ValidPlatform p \<longleftrightarrow>
     p = ''ios'' \<or> p = ''macos'' \<or> p = ''android'' \<or> p = ''windows'' \<or> p = ''linux'' \<or> p = ''cli''"

record device_registration =
  dr_Name :: string
  dr_Platform :: string
  dr_PublicKey :: string

record enroll_request =
  e_InviteCode :: string
  e_Email :: string
  e_DisplayName :: string
  e_Device :: device_registration


section \<open>Connections\<close>

record connection =
  c_ID :: string
  c_GatewayName :: string
  c_Country :: string
  c_City :: string
  c_Endpoint :: string
  c_GatewayPublicKey :: string
  c_AssignedIPv4 :: string
  c_AssignedIPv6 :: "string option"
  c_ExpiresAt :: instant

record peer =
  p_PublicKey :: string
  p_AllowedIPs :: "string list"


section \<open>The online signal\<close>

lemma Online_iff:
  "Online g now ttl \<longleftrightarrow>
     g_Status g = GatewayHealthy \<and>
     (\<exists>t. g_LastHeartbeatAt g = Some t \<and> time_Sub now t \<le> ttl)"
  by (auto simp: Online_def split: option.splits)

text \<open>Time passing can only take a gateway offline.\<close>

lemma Online_antimono: "Online g now' ttl \<Longrightarrow> now \<le> now' \<Longrightarrow> Online g now ttl"
  by (fastforce simp: Online_iff time_Sub_def)

end
