(* ===== verification/Go_Time.thy ===== *)
theory Go_Time
  imports Go_Strings Model
begin

text \<open>
  What the program uses of Go's \<open>time\<close> package besides instants and durations themselves: the
  RFC 3339 text of an instant in UTC, and reading a duration such as \<open>1h30m\<close>.
\<close>

section \<open>\<open>Format(time.RFC3339)\<close>\<close>

text \<open>Year, month and day of a day counted from 1970-01-01 (proleptic Gregorian calendar).\<close>

definition civil_of_days :: "int \<Rightarrow> int \<times> int \<times> int" where
  "civil_of_days days =
     (let z = days + 719468;
          era = z div 146097;
          doe = z - era * 146097;
          yoe = (doe - doe div 1460 + doe div 36524 - doe div 146096) div 365;
          doy = doe - (365 * yoe + yoe div 4 - yoe div 100);
          mp = (5 * doy + 2) div 153;
          m = (if mp < 10 then mp + 3 else mp - 9);
          y = yoe + era * 400 + (if m \<le> 2 then 1 else 0)
      in (y, m, doy - (153 * mp + 2) div 5 + 1))"

definition pad :: "nat \<Rightarrow> int \<Rightarrow> string" where
  "pad w n = (let ds = utoa (nat \<bar>n\<bar>) in (if n < 0 then ''-'' else []) @ replicate (w - length ds) CHR ''0'' @ ds)"

definition RFC3339 :: "instant \<Rightarrow> string" where
  "RFC3339 t =
     (let secs = t div 10 ^ 9; day = secs div 86400; s = secs mod 86400
      in case civil_of_days day of (y, m, d) \<Rightarrow>
        pad 4 y @ ''-'' @ pad 2 m @ ''-'' @ pad 2 d @ ''T'' @
        pad 2 (s div 3600) @ '':'' @ pad 2 (s div 60 mod 60) @ '':'' @ pad 2 (s mod 60) @ ''Z'')"


section \<open>\<open>ParseDuration\<close>\<close>

definition max63 :: int where
  "max63 = 9223372036854775808"

text \<open>\<open>leadingInt\<close> and \<open>leadingFraction\<close>: too large an integer part is an error, surplus digits of a
  fraction are dropped.\<close>

fun leadingInt :: "int \<Rightarrow> string \<Rightarrow> (int \<times> string) option" where
  "leadingInt x [] = Some (x, [])"
| "leadingInt x (c # cs) =
     (if \<not> isDigit c then Some (x, c # cs)
      else if max63 div 10 < x then None
      else let x' = x * 10 + int (digit_val c) in if max63 < x' then None else leadingInt x' cs)"

fun leadingFraction :: "int \<Rightarrow> rat \<Rightarrow> bool \<Rightarrow> string \<Rightarrow> int \<times> rat \<times> string" where
  "leadingFraction x scale over [] = (x, scale, [])"
| "leadingFraction x scale over (c # cs) =
     (if \<not> isDigit c then (x, scale, c # cs)
      else if over then leadingFraction x scale True cs
      else if (max63 - 1) div 10 < x then leadingFraction x scale True cs
      else let y = x * 10 + int (digit_val c)
           in if max63 < y then leadingFraction x scale True cs
              else leadingFraction y (f64_mul scale 10) False cs)"

definition unit_of :: "string \<Rightarrow> int option" where
  "unit_of u = map_of
     [(''ns'', 1), (''us'', 1000), ([CHR 0xC2, CHR 0xB5, CHR ''s''], 1000), ([CHR 0xCE, CHR 0xBC, CHR ''s''], 1000),
      (''ms'', 1000000), (''s'', 1000000000), (''m'', 60000000000), (''h'', 3600000000000)] u"

definition unit_char :: "char \<Rightarrow> bool" where
  "unit_char c \<longleftrightarrow> c \<noteq> CHR ''.'' \<and> \<not> isDigit c"

text \<open>The fraction after the point, if there is one, and the number of characters it had.\<close>

definition dur_fraction :: "string \<Rightarrow> int \<times> rat \<times> bool \<times> string" where
  "dur_fraction s =
     (case s of
        [] \<Rightarrow> (0, 1, False, s)
      | c # cs \<Rightarrow>
          if c = CHR ''.'' then
            (case leadingFraction 0 1 False cs of (f, scale, r) \<Rightarrow> (f, scale, length r \<noteq> length cs, r))
          else (0, 1, False, s))"

text \<open>One number with its unit, in nanoseconds.\<close>

definition dur_component :: "string \<Rightarrow> (int \<times> string) option" where
  "dur_component s =
     (if s = [] \<or> unit_char (hd s) then None
      else case leadingInt 0 s of
        None \<Rightarrow> None
      | Some (v, s1) \<Rightarrow>
          (case dur_fraction s1 of
             (f, scale, post, s2) \<Rightarrow>
               if length s1 = length s \<and> \<not> post then None
               else (case unit_of (takeWhile unit_char s2) of
                  None \<Rightarrow> None
                | Some u \<Rightarrow>
                    if max63 div u < v then None
                    else let w = v * u + (if 0 < f then f64_trunc (f64_mul (f64_of_int f) (f64_div (of_int u) scale)) else 0)
                         in if 0 < f \<and> max63 < w then None else Some (w, dropWhile unit_char s2))))"

lemma leadingInt_le: "leadingInt x s = Some (v, r) \<Longrightarrow> length r \<le> length s"
  by (induction x s rule: leadingInt.induct) (auto simp: Let_def split: if_splits)

lemma leadingFraction_le: "leadingFraction x sc ov s = (f, scale, r) \<Longrightarrow> length r \<le> length s"
  by (induction x sc ov s rule: leadingFraction.induct) (auto simp: Let_def split: if_splits)

lemma dur_fraction_le: "dur_fraction s = (f, scale, post, r) \<Longrightarrow> length r \<le> length s"
  by (auto simp: dur_fraction_def split: list.splits if_splits prod.splits dest!: leadingFraction_le)

lemma dur_component_shorter: "dur_component s = Some (v, r) \<Longrightarrow> length r < length s"
proof -
  assume a: "dur_component s = Some (v, r)"
  then obtain v1 s1 f scale post s2 where s1: "leadingInt 0 s = Some (v1, s1)"
    and s2: "dur_fraction s1 = (f, scale, post, s2)" and r: "r = dropWhile unit_char s2"
    and u: "unit_of (takeWhile unit_char s2) \<noteq> None"
    by (auto simp: dur_component_def Let_def split: if_splits option.splits prod.splits)
  have "takeWhile unit_char s2 \<noteq> []" using u by (auto simp: unit_of_def)
  then have "length r < length s2" unfolding r
    by (metis length_append length_greater_0_conv less_add_same_cancel2 takeWhile_dropWhile_id)
  with leadingInt_le[OF s1] dur_fraction_le[OF s2] show ?thesis by simp
qed

function dur_loop :: "int \<Rightarrow> string \<Rightarrow> int option" where
  "dur_loop d s =
     (if s = [] then Some d
      else case dur_component s of
        None \<Rightarrow> None
      | Some (v, r) \<Rightarrow> if max63 < d + v then None else dur_loop (d + v) r)"
  by pat_completeness auto
termination by (relation "measure (length \<circ> snd)") (auto dest: dur_component_shorter)

declare dur_loop.simps [simp del]

definition ParseDuration :: "string \<Rightarrow> duration option" where
  "ParseDuration text =
     (let neg = (take 1 text = ''-''); s = (if take 1 text = ''-'' \<or> take 1 text = ''+'' then drop 1 text else text)
      in if s = ''0'' then Some 0
         else if s = [] then None
         else case dur_loop 0 s of
           None \<Rightarrow> None
         | Some d \<Rightarrow> if neg then Some (- d) else if max63 - 1 < d then None else Some d)"

lemma leadingInt_nonneg: "0 \<le> x \<Longrightarrow> leadingInt x s = Some (v, r) \<Longrightarrow> 0 \<le> v"
  by (induction x s rule: leadingInt.induct) (auto simp: Let_def split: if_splits)

lemma leadingFraction_nonneg:
  "0 \<le> x \<Longrightarrow> 0 \<le> sc \<Longrightarrow> leadingFraction x sc ov s = (f, scale, r) \<Longrightarrow> 0 \<le> f \<and> 0 \<le> scale"
  by (induction x sc ov s rule: leadingFraction.induct)
     (auto simp: Let_def f64_mul_def f64_nonneg_of split: if_splits)

lemma dur_fraction_nonneg: "dur_fraction s = (f, scale, post, r) \<Longrightarrow> 0 \<le> f \<and> 0 \<le> scale"
  by (auto simp: dur_fraction_def split: list.splits if_splits prod.splits dest!: leadingFraction_nonneg[rotated 2])

lemma unit_of_pos: "unit_of w = Some u \<Longrightarrow> 0 < u"
  by (auto simp: unit_of_def split: if_splits)

lemma dur_component_nonneg: "dur_component s = Some (v, r) \<Longrightarrow> 0 \<le> v"
proof -
  assume a: "dur_component s = Some (v, r)"
  then obtain v1 s1 f scale post s2 u where s1: "leadingInt 0 s = Some (v1, s1)"
    and s2: "dur_fraction s1 = (f, scale, post, s2)" and u: "unit_of (takeWhile unit_char s2) = Some u"
    and v: "v = v1 * u + (if 0 < f then f64_trunc (f64_mul (f64_of_int f) (f64_div (of_int u) scale)) else 0)"
    by (auto simp: dur_component_def Let_def split: if_splits option.splits prod.splits)
  have "0 \<le> f64_mul (f64_of_int f) (f64_div (of_int u) scale)"
    using dur_fraction_nonneg[OF s2] unit_of_pos[OF u]
    by (simp add: f64_mul_def f64_of_int_def f64_div_def f64_nonneg_of)
  then show ?thesis using leadingInt_nonneg[OF _ s1] unit_of_pos[OF u] by (simp add: v f64_trunc_def)
qed

lemma dur_loop_range: "0 \<le> d \<Longrightarrow> d \<le> max63 \<Longrightarrow> dur_loop d s = Some n \<Longrightarrow> 0 \<le> n \<and> n \<le> max63"
proof (induction d s rule: dur_loop.induct)
  case (1 d s)
  show ?case using 1(2-4) 1(1) dur_component_nonneg
    by (subst (asm) dur_loop.simps) (auto split: if_splits option.splits)
qed

lemma ParseDuration_range: "ParseDuration s = Some d \<Longrightarrow> int64_range d"
  using dur_loop_range[of 0 "if take 1 s = ''-'' \<or> take 1 s = ''+'' then drop 1 s else s"]
  by (auto simp: ParseDuration_def int64_range_def max63_def Let_def not_less split: if_splits option.splits)

end
