(* ===== verification/RateLimit.thy ===== *)
theory RateLimit
  imports Model
begin

text \<open>
  \<^verbatim>\<open>internal/ratelimit/ratelimit.go\<close>: one token bucket per key. The buckets come from
  \<open>golang.org/x/time/rate\<close> and are a parameter: how a rate and a bucket are made, and how a bucket
  decides on an event at a time. The mutex makes every call atomic, so a run is a sequence of calls.
\<close>

record ('q, 'l) rate_pkg =
  rp_Every :: "duration \<Rightarrow> 'q"
  rp_NewLimiter :: "'q \<Rightarrow> int \<Rightarrow> 'l"
  rp_Allow :: "'l \<Rightarrow> instant \<Rightarrow> bool \<times> 'l"

record 'l visitor =
  v_limiter :: 'l
  v_lastSeen :: instant

record ('q, 'l) Limiter =
  l_visitors :: "string \<rightharpoonup> 'l visitor"
  l_rate :: 'q
  l_burst :: int
  l_ttl :: duration

definition new_Limiter :: "('q, 'l) rate_pkg \<Rightarrow> int \<Rightarrow> int \<Rightarrow> ('q, 'l) Limiter" where
  "new_Limiter pkg perMinute burst =
     \<lparr>l_visitors = Map.empty, l_rate = rp_Every pkg (go_quot (60 * 10 ^ 9) (max perMinute 1)),
      l_burst = max burst 1, l_ttl = 600 * 10 ^ 9\<rparr>"

text \<open>\<open>now\<close> and \<open>now'\<close> are the two readings of the clock, the second one inside the bucket.\<close>

definition Allow :: "('q, 'l) rate_pkg \<Rightarrow> instant \<Rightarrow> instant \<Rightarrow> string \<Rightarrow> ('q, 'l) Limiter \<Rightarrow> bool \<times> ('q, 'l) Limiter" where
  "Allow pkg now now' key l =
     (let lm = (case l_visitors l key of
                   Some v \<Rightarrow> v_limiter v
                 | None \<Rightarrow> rp_NewLimiter pkg (l_rate l) (l_burst l))
      in case rp_Allow pkg lm now' of
           (ok, lm') \<Rightarrow> (ok, l\<lparr>l_visitors := (l_visitors l)(key \<mapsto> \<lparr>v_limiter = lm', v_lastSeen = now\<rparr>)\<rparr>))"

definition Cleanup :: "instant \<Rightarrow> ('q, 'l) Limiter \<Rightarrow> ('q, 'l) Limiter" where
  "Cleanup now l =
     (let cutoff = now - l_ttl l
      in l\<lparr>l_visitors := (\<lambda>k. case l_visitors l k of
             None \<Rightarrow> None
           | Some v \<Rightarrow> if v_lastSeen v < cutoff then None else Some v)\<rparr>)"


section \<open>Keys are independent\<close>

datatype limiter_call = Request string instant instant | Sweep instant

fun run_limiter :: "('q, 'l) rate_pkg \<Rightarrow> ('q, 'l) Limiter \<Rightarrow> limiter_call list \<Rightarrow> (string \<times> bool) list" where
  "run_limiter pkg l [] = []"
| "run_limiter pkg l (Request key now now' # cs) =
     (case Allow pkg now now' key l of (ok, l') \<Rightarrow> (key, ok) # run_limiter pkg l' cs)"
| "run_limiter pkg l (Sweep now # cs) = run_limiter pkg (Cleanup now l) cs"

text \<open>The abstract limiter: one bucket, made on the first event and forgotten when idle at a sweep.\<close>

fun run_bucket :: "('q, 'l) rate_pkg \<Rightarrow> 'q \<Rightarrow> int \<Rightarrow> duration \<Rightarrow> ('l \<times> instant) option \<Rightarrow> limiter_call list \<Rightarrow> bool list" where
  "run_bucket pkg q b ttl st [] = []"
| "run_bucket pkg q b ttl st (Request key now now' # cs) =
     (case rp_Allow pkg (case st of Some (lm, _) \<Rightarrow> lm | None \<Rightarrow> rp_NewLimiter pkg q b) now' of
        (ok, lm) \<Rightarrow> ok # run_bucket pkg q b ttl (Some (lm, now)) cs)"
| "run_bucket pkg q b ttl st (Sweep now # cs) =
     run_bucket pkg q b ttl
       (case st of None \<Rightarrow> None | Some (lm, seen) \<Rightarrow> if seen < now - ttl then None else Some (lm, seen)) cs"

fun concerns :: "string \<Rightarrow> limiter_call \<Rightarrow> bool" where
  "concerns k (Request key now now') \<longleftrightarrow> key = k"
| "concerns k (Sweep now) \<longleftrightarrow> True"

abbreviation bucket_of :: "('q, 'l) Limiter \<Rightarrow> string \<Rightarrow> ('l \<times> instant) option" where
  "bucket_of l k \<equiv> map_option (\<lambda>v. (v_limiter v, v_lastSeen v)) (l_visitors l k)"

lemma run_limiter_bucket:
  "map snd (filter (\<lambda>d. fst d = k) (run_limiter pkg l cs)) =
     run_bucket pkg (l_rate l) (l_burst l) (l_ttl l) (bucket_of l k) (filter (concerns k) cs)"
proof (induction pkg l cs rule: run_limiter.induct)
  case (2 pkg l key now now' cs)
  let ?lm = "case l_visitors l key of Some v \<Rightarrow> v_limiter v | None \<Rightarrow> rp_NewLimiter pkg (l_rate l) (l_burst l)"
  obtain ok lm' where r: "rp_Allow pkg ?lm now' = (ok, lm')" by (metis surj_pair)
  then have a: "Allow pkg now now' key l =
      (ok, l\<lparr>l_visitors := (l_visitors l)(key \<mapsto> \<lparr>v_limiter = lm', v_lastSeen = now\<rparr>)\<rparr>)"
    by (simp add: Allow_def Let_def)
  have "?lm = (case bucket_of l key of Some (lm, _) \<Rightarrow> lm | None \<Rightarrow> rp_NewLimiter pkg (l_rate l) (l_burst l))"
    by (simp split: option.split)
  with 2[OF a[symmetric]] a r show ?case by (auto simp: fun_upd_apply)
next
  case (3 pkg l now cs)
  have "bucket_of (Cleanup now l) k =
      (case bucket_of l k of None \<Rightarrow> None
       | Some (lm, seen) \<Rightarrow> if seen < now - l_ttl l then None else Some (lm, seen))"
    by (simp add: Cleanup_def Let_def split: option.split)
  with 3 show ?case by (simp add: Cleanup_def Let_def)
qed simp

text \<open>
  C28. The shared limiter behaves like one bucket per key: over any sequence of requests and clean-ups,
  the decisions for a key are those of a bucket of its own that sees only that key's requests,
  with the configured rate and burst, and that is forgotten when a clean-up finds it idle for ten
  minutes. No traffic of other keys changes them.
\<close>

theorem Limiter_refines_buckets:
  "map snd (filter (\<lambda>d. fst d = k) (run_limiter pkg (new_Limiter pkg perMinute burst) cs)) =
     run_bucket pkg (rp_Every pkg (go_quot (60 * 10 ^ 9) (max perMinute 1))) (max burst 1) (600 * 10 ^ 9) None
       (filter (concerns k) cs)"
  by (simp add: run_limiter_bucket new_Limiter_def)

end
