(* ===== verification/Go_Crypto.thy ===== *)
theory Go_Crypto
  imports Main "HOL-Library.Word"
begin

unbundle bit_operations_syntax

text \<open>
  The parts of Go's standard library behind the credentials: \<open>crypto/sha256\<close>,
  \<open>crypto/hmac\<close>, \<open>encoding/hex\<close> and \<open>encoding/base64\<close> (raw, that is unpadded), on lists of
  bytes. Strings are the byte strings their characters denote.
\<close>

type_synonym octets = "8 word list"

definition bytes_of :: "string \<Rightarrow> octets" where
  "bytes_of s = map (\<lambda>c. of_nat (of_char c)) s"

definition string_of :: "octets \<Rightarrow> string" where
  "string_of bs = map (\<lambda>b. char_of (unat b)) bs"

lemma string_of_bytes_of [simp]: "string_of (bytes_of s) = s"
proof -
  have "char_of (unat (of_nat (of_char c) :: 8 word)) = c" for c :: char
    by (simp add: unat_of_nat)
  then show ?thesis by (simp add: string_of_def bytes_of_def map_idI comp_def)
qed

lemma bytes_of_string_of [simp]: "bytes_of (string_of bs) = bs"
proof -
  have "of_nat (of_char (char_of (unat b))) = b" for b :: "8 word"
  proof -
    have "unat b < 256" using unsigned_less[of b] by simp
    then show ?thesis by (simp add: of_char_of)
  qed
  then show ?thesis by (simp add: string_of_def bytes_of_def map_idI comp_def)
qed

lemma bytes_of_inject [simp]: "bytes_of s = bytes_of t \<longleftrightarrow> s = t"
  by (metis string_of_bytes_of)

lemma string_of_inject [simp]: "string_of s = string_of t \<longleftrightarrow> s = t"
  by (metis bytes_of_string_of)


section \<open>SHA-256\<close>

type_synonym w32 = "32 word"

text \<open>The round constants and the initial state, in decimal.\<close>

definition sha_K :: "w32 list" where
  "sha_K =
    [1116352408, 1899447441, 3049323471, 3921009573,
     961987163, 1508970993, 2453635748, 2870763221,
     3624381080, 310598401, 607225278, 1426881987,
     1925078388, 2162078206, 2614888103, 3248222580,
     3835390401, 4022224774, 264347078, 604807628,
     770255983, 1249150122, 1555081692, 1996064986,
     2554220882, 2821834349, 2952996808, 3210313671,
     3336571891, 3584528711, 113926993, 338241895,
     666307205, 773529912, 1294757372, 1396182291,
     1695183700, 1986661051, 2177026350, 2456956037,
     2730485921, 2820302411, 3259730800, 3345764771,
     3516065817, 3600352804, 4094571909, 275423344,
     430227734, 506948616, 659060556, 883997877,
     958139571, 1322822218, 1537002063, 1747873779,
     1955562222, 2024104815, 2227730452, 2361852424,
     2428436474, 2756734187, 3204031479, 3329325298]"

definition sha_init :: "w32 list" where
  "sha_init = [1779033703, 3144134277, 1013904242, 2773480762,
     1359893119, 2600822924, 528734635, 1541459225]"

definition rotr :: "nat \<Rightarrow> w32 \<Rightarrow> w32" where
  "rotr n x = drop_bit n x OR push_bit (32 - n) x"

definition be32 :: "octets \<Rightarrow> w32" where
  "be32 bs = foldl (\<lambda>a b. push_bit 8 a OR ucast b) 0 bs"

definition be_bytes :: "nat \<Rightarrow> nat \<Rightarrow> octets" where
  "be_bytes k n = map (\<lambda>i. of_nat (n div 256 ^ i)) (rev [0..<k])"

text \<open>The message schedule, grown one word at a time.\<close>

fun sha_schedule :: "nat \<Rightarrow> w32 list \<Rightarrow> w32 list" where
  "sha_schedule 0 w = w"
| "sha_schedule (Suc n) w =
     (let t = length w; v1 = w ! (t - 2); v2 = w ! (t - 15);
          t1 = rotr 17 v1 XOR rotr 19 v1 XOR drop_bit 10 v1;
          t2 = rotr 7 v2 XOR rotr 18 v2 XOR drop_bit 3 v2
      in sha_schedule n (w @ [t1 + w ! (t - 7) + t2 + w ! (t - 16)]))"

fun sha_round :: "w32 list \<Rightarrow> w32 \<times> w32 \<Rightarrow> w32 list" where
  "sha_round [a, b, c, d, e, f, g, h] (k, w) =
     (let t1 = h + (rotr 6 e XOR rotr 11 e XOR rotr 25 e) + ((e AND f) XOR (NOT e AND g)) + k + w;
          t2 = (rotr 2 a XOR rotr 13 a XOR rotr 22 a) + ((a AND b) XOR (a AND c) XOR (b AND c))
      in [t1 + t2, a, b, c, d + t1, e, f, g])"
| "sha_round st _ = st"

fun chunks :: "nat \<Rightarrow> nat \<Rightarrow> 'a list \<Rightarrow> 'a list list" where
  "chunks 0 k xs = []"
| "chunks (Suc n) k xs = take k xs # chunks n k (drop k xs)"

definition sha_block :: "w32 list \<Rightarrow> octets \<Rightarrow> w32 list" where
  "sha_block st blk =
     (let w = sha_schedule 48 (map be32 (chunks 16 4 blk))
      in map2 (+) st (foldl sha_round st (zip sha_K w)))"

text \<open>The padding: a one bit, zeros, and the bit length in eight bytes.\<close>

definition sha_pad :: "octets \<Rightarrow> octets" where
  "sha_pad m = m @ [0x80] @ replicate ((119 - length m mod 64) mod 64) 0 @ be_bytes 8 (8 * length m)"

definition Sum256 :: "octets \<Rightarrow> octets" where
  "Sum256 m =
     (let p = sha_pad m
      in concat (map (\<lambda>w. be_bytes 4 (unat w)) (foldl sha_block sha_init (chunks (length p div 64) 64 p))))"

definition hmac_sha256 :: "octets \<Rightarrow> octets \<Rightarrow> octets" where
  "hmac_sha256 key msg =
     (let k = (if 64 < length key then Sum256 key else key);
          k' = k @ replicate (64 - length k) 0
      in Sum256 (map (\<lambda>b. b XOR 0x5c) k' @ Sum256 (map (\<lambda>b. b XOR 0x36) k' @ msg)))"

section \<open>Hexadecimal\<close>

definition hex_digit :: "nat \<Rightarrow> char" where
  "hex_digit d = ''0123456789abcdef'' ! d"

definition hex_EncodeToString :: "octets \<Rightarrow> string" where
  "hex_EncodeToString bs = concat (map (\<lambda>b. [hex_digit (unat b div 16), hex_digit (unat b mod 16)]) bs)"


section \<open>Base64 without padding\<close>

definition b64_url :: string where
  "b64_url = ''ABCDEFGHIJKLMNOPQRSTUVWXYZabcdefghijklmnopqrstuvwxyz0123456789-_''"

definition b64_std :: string where
  "b64_std = ''ABCDEFGHIJKLMNOPQRSTUVWXYZabcdefghijklmnopqrstuvwxyz0123456789+/''"

fun b64_sextets :: "nat list \<Rightarrow> nat list" where
  "b64_sextets (a # b # c # r) =
     a div 4 # (a mod 4 * 16 + b div 16) # (b mod 16 * 4 + c div 64) # c mod 64 # b64_sextets r"
| "b64_sextets [a, b] = [a div 4, a mod 4 * 16 + b div 16, b mod 16 * 4]"
| "b64_sextets [a] = [a div 4, a mod 4 * 16]"
| "b64_sextets [] = []"

text \<open>The bits left over at the end are ignored, a single left-over character is an error.\<close>

fun b64_octets :: "nat list \<Rightarrow> nat list option" where
  "b64_octets (w # x # y # z # r) =
     map_option (\<lambda>bs. (w * 4 + x div 16) # (x mod 16 * 16 + y div 4) # (y mod 4 * 64 + z) # bs) (b64_octets r)"
| "b64_octets [w, x, y] = Some [w * 4 + x div 16, x mod 16 * 16 + y div 4]"
| "b64_octets [w, x] = Some [w * 4 + x div 16]"
| "b64_octets [w] = None"
| "b64_octets [] = Some []"

definition EncodeToString :: "string \<Rightarrow> octets \<Rightarrow> string" where
  "EncodeToString alpha bs = map ((!) alpha) (b64_sextets (map unat bs))"

definition b64_val :: "string \<Rightarrow> char \<Rightarrow> nat option" where
  "b64_val alpha x = (if x \<in> set alpha then Some (length (takeWhile (\<lambda>y. y \<noteq> x) alpha)) else None)"

text \<open>Line breaks are skipped wherever they stand.\<close>

definition DecodeString :: "string \<Rightarrow> string \<Rightarrow> octets option" where
  "DecodeString alpha s =
     (case those (map (b64_val alpha) (filter (\<lambda>x. x \<noteq> CHR 0x0A \<and> x \<noteq> CHR 0x0D) s)) of
        None \<Rightarrow> None
      | Some xs \<Rightarrow> map_option (map of_nat) (b64_octets xs))"

lemma b64_octets_sextets: "\<forall>b\<in>set bs. b < 256 \<Longrightarrow> b64_octets (b64_sextets bs) = Some bs"
  by (induction bs rule: b64_sextets.induct) auto

lemma b64_sextets_less: "\<forall>b\<in>set bs. b < 256 \<Longrightarrow> x \<in> set (b64_sextets bs) \<Longrightarrow> x < 64"
  by (induction bs rule: b64_sextets.induct) auto

definition alphabet :: "string \<Rightarrow> bool" where
  "alphabet alpha \<longleftrightarrow> length alpha = 64 \<and> distinct alpha \<and> CHR 0x0A \<notin> set alpha \<and> CHR 0x0D \<notin> set alpha"

lemma alphabet_url: "alphabet b64_url" and alphabet_std: "alphabet b64_std"
  by (simp_all add: alphabet_def b64_url_def b64_std_def)

lemma b64_val_nth: "distinct alpha \<Longrightarrow> i < length alpha \<Longrightarrow> b64_val alpha (alpha ! i) = Some i"
proof -
  assume d: "distinct alpha" and i: "i < length alpha"
  have "takeWhile (\<lambda>y. y \<noteq> alpha ! i) alpha = take i alpha"
    by (rule takeWhile_eq_take_P_nth) (use d i in \<open>auto simp: nth_eq_iff_index_eq\<close>)
  then show ?thesis using i by (simp add: b64_val_def)
qed

lemma those_map_Some: "(\<And>x. x \<in> set xs \<Longrightarrow> f x = Some (g x)) \<Longrightarrow> those (map f xs) = Some (map g xs)"
  by (induction xs) auto

lemma unat_octets: "\<forall>b\<in>set (map unat (bs :: octets)). b < 256"
proof -
  have "unat (b :: 8 word) < 256" for b using unsigned_less[of b] by simp
  then show ?thesis by auto
qed

lemma set_EncodeToString: "alphabet alpha \<Longrightarrow> set (EncodeToString alpha bs) \<subseteq> set alpha"
  using b64_sextets_less[OF unat_octets] by (auto simp: EncodeToString_def alphabet_def)

lemma DecodeString_EncodeToString:
  assumes "alphabet alpha" shows "DecodeString alpha (EncodeToString alpha bs) = Some bs"
proof -
  let ?xs = "b64_sextets (map unat bs)"
  have x: "x < length alpha" if "x \<in> set ?xs" for x
    using b64_sextets_less[OF unat_octets that] assms by (simp add: alphabet_def)
  have "filter (\<lambda>x. x \<noteq> CHR 0x0A \<and> x \<noteq> CHR 0x0D) (EncodeToString alpha bs) = EncodeToString alpha bs"
    using set_EncodeToString[OF assms, of bs] assms by (auto simp: alphabet_def filter_id_conv)
  moreover have "those (map (b64_val alpha) (EncodeToString alpha bs)) = Some (map id ?xs)"
    unfolding EncodeToString_def map_map
    by (rule those_map_Some) (use x b64_val_nth assms in \<open>auto simp: alphabet_def\<close>)
  ultimately show ?thesis
    using b64_octets_sextets[OF unat_octets, of bs] by (simp add: DecodeString_def comp_def)
qed

lemma EncodeToString_inject:
  "alphabet alpha \<Longrightarrow> EncodeToString alpha bs = EncodeToString alpha cs \<longleftrightarrow> bs = cs"
  by (metis DecodeString_EncodeToString option.inject)

lemma hex_digit_inject: "i < 16 \<Longrightarrow> j < 16 \<Longrightarrow> hex_digit i = hex_digit j \<longleftrightarrow> i = j"
proof -
  have "distinct ''0123456789abcdef''" "length ''0123456789abcdef'' = 16" by simp_all
  then show "i < 16 \<Longrightarrow> j < 16 \<Longrightarrow> hex_digit i = hex_digit j \<longleftrightarrow> i = j"
    unfolding hex_digit_def using nth_eq_iff_index_eq[of "''0123456789abcdef''" i j] by simp
qed

lemma hex_EncodeToString_inject: "hex_EncodeToString bs = hex_EncodeToString cs \<Longrightarrow> bs = cs"
proof (induction bs arbitrary: cs)
  case Nil
  then show ?case by (cases cs) (auto simp: hex_EncodeToString_def)
next
  case (Cons b bs)
  then obtain c cs' where cs: "cs = c # cs'" by (cases cs) (auto simp: hex_EncodeToString_def)
  have lt: "unat (x :: 8 word) div 16 < 16" for x using unat_octets[of "[x]"] by simp
  have "unat b div 16 = unat c div 16" "unat b mod 16 = unat c mod 16"
    using Cons.prems cs lt by (auto simp: hex_EncodeToString_def hex_digit_inject)
  then have "unat b = unat c" by (metis div_mult_mod_eq)
  moreover have "bs = cs'" using Cons cs by (auto simp: hex_EncodeToString_def)
  ultimately show ?case using cs by (simp add: word_unat_eq_iff)
qed

lemma length_hex_EncodeToString: "length (hex_EncodeToString bs) = 2 * length bs"
  by (induction bs) (auto simp: hex_EncodeToString_def)

end
