(* ===== verification/Auth.thy ===== *)
theory Auth
  imports Go_Crypto
begin

text \<open>
  \<^verbatim>\<open>internal/auth/token.go\<close>: opaque tokens and their stored hashes. The random source is the
  argument: the bytes \<open>rand.Read\<close> filled in, or nothing when it failed.
\<close>

definition GenerateToken :: "octets option \<Rightarrow> string option" where
  "GenerateToken rnd = (case rnd of None \<Rightarrow> None | Some b \<Rightarrow> Some (EncodeToString b64_url b))"

definition HashToken :: "string \<Rightarrow> string" where
  "HashToken plain = (let sum = Sum256 (bytes_of plain) in hex_EncodeToString sum)"

lemma GenerateToken_inject:
  "GenerateToken (Some a) = GenerateToken (Some b) \<longleftrightarrow> a = b"
  by (simp add: GenerateToken_def EncodeToString_inject alphabet_url)

text \<open>Two tokens with the same stored hash have the same SHA-256 sum.\<close>

lemma HashToken_inject: "HashToken s = HashToken t \<longleftrightarrow> Sum256 (bytes_of s) = Sum256 (bytes_of t)"
  using hex_EncodeToString_inject by (auto simp: HashToken_def)

lemma length_foldl_sha_round: "length st = 8 \<Longrightarrow> length (foldl sha_round st kws) = 8"
proof (induction kws arbitrary: st)
  case (Cons kw kws)
  have "length (sha_round st kw) = 8"
    using Cons.prems by (cases "(st, kw)" rule: sha_round.cases) (auto simp: Let_def)
  with Cons.IH show ?case by simp
qed simp

lemma length_foldl_sha_block: "length st = 8 \<Longrightarrow> length (foldl sha_block st bs) = 8"
  by (induction bs arbitrary: st) (auto simp: sha_block_def Let_def length_foldl_sha_round)

lemma length_Sum256: "length (Sum256 m) = 32"
proof -
  have "length (foldl sha_block sha_init bs) = 8" for bs
    by (rule length_foldl_sha_block) (simp add: sha_init_def)
  then show ?thesis by (simp add: Sum256_def Let_def length_concat be_bytes_def comp_def sum_list_triv)
qed

lemma length_HashToken: "length (HashToken s) = 64"
  by (simp add: HashToken_def length_hex_EncodeToString length_Sum256)

end
