(* ===== verification/Jwt.thy ===== *)
theory Jwt
  imports Auth Go_Json Model
begin

text \<open>
  \<^verbatim>\<open>internal/auth/jwt.go\<close>: access tokens signed with HMAC-SHA256. The payload is JSON text, since
  the signature covers its bytes; \<open>json.Marshal\<close> writes the members of a map sorted by name.
\<close>

section \<open>Writing the payload\<close>

definition quote_char :: "char \<Rightarrow> string" where
  "quote_char x =
     (let n = of_char x :: nat in
      if n = 0x22 \<or> n = 0x5C then [CHR 0x5C, x]
      else if n = 8 then [CHR 0x5C, CHR ''b'']
      else if n = 12 then [CHR 0x5C, CHR ''f'']
      else if n = 10 then [CHR 0x5C, CHR ''n'']
      else if n = 13 then [CHR 0x5C, CHR ''r'']
      else if n = 9 then [CHR 0x5C, CHR ''t'']
      else if n < 32 \<or> n = 0x3C \<or> n = 0x3E \<or> n = 0x26
      then [CHR 0x5C, CHR ''u'', CHR ''0'', CHR ''0'', hex_digit (n div 16), hex_digit (n mod 16)]
      else [x])"

definition json_quote :: "string \<Rightarrow> string" where
  "json_quote s = CHR 0x22 # concat (map quote_char s) @ [CHR 0x22]"

definition unix :: "instant \<Rightarrow> int" where
  "unix t = t div 10 ^ 9"

definition json_key :: "string \<Rightarrow> string" where
  "json_key k = CHR 0x22 # k @ [CHR 0x22, CHR '':'']"

definition payload_text :: "string \<Rightarrow> int \<Rightarrow> int \<Rightarrow> string" where
  "payload_text subject iat until =
     CHR 0x7B # json_key ''exp'' @ Itoa until @ CHR '','' # json_key ''iat'' @ Itoa iat @ CHR '','' #
     json_key ''sub'' @ json_quote subject @ [CHR 0x7D]"


section \<open>Issuing and checking\<close>

datatype jwt_error = ErrTokenInvalid | ErrTokenExpired

record claims =
  cl_Subject :: string
  cl_IssuedAt :: instant
  cl_ExpiresAt :: instant

definition b64 :: "string \<Rightarrow> string" where
  "b64 s = EncodeToString b64_url (bytes_of s)"

definition headerHS256 :: string where
  "headerHS256 = b64 ([CHR 0x7B] @ json_key ''alg'' @ json_quote ''HS256'' @ '','' @ json_key ''typ'' @ json_quote ''JWT'' @ [CHR 0x7D])"

definition sign :: "string \<Rightarrow> string \<Rightarrow> string" where
  "sign secret msg = EncodeToString b64_url (hmac_sha256 (bytes_of secret) (bytes_of msg))"

definition IssueJWT :: "string \<Rightarrow> string \<Rightarrow> duration \<Rightarrow> instant \<Rightarrow> string option" where
  "IssueJWT secret subject ttl now =
     (if secret = '''' then None
      else let payload = payload_text subject (unix now) (unix (now + ttl));
               signingInput = headerHS256 @ ''.'' @ b64 payload
           in Some (signingInput @ ''.'' @ sign secret signingInput))"

record payload =
  p_Sub :: string
  p_Iat :: int
  p_Exp :: int

definition payload_fields :: "payload field list" where
  "payload_fields =
     [(''sub'', str_field (\<lambda>x p. p\<lparr>p_Sub := x\<rparr>)), (''iat'', int_field (\<lambda>x p. p\<lparr>p_Iat := x\<rparr>)),
      (''exp'', int_field (\<lambda>x p. p\<lparr>p_Exp := x\<rparr>))]"

definition header_alg :: "string \<Rightarrow> string option" where
  "header_alg text =
     (case parse_json text of
        None \<Rightarrow> None
      | Some v \<Rightarrow> (case decode_into [(''alg'', str_field (\<lambda>x _. x))] v '''' of
                     (alg, ok) \<Rightarrow> if ok then Some alg else None))"

definition parse_payload :: "string \<Rightarrow> payload option" where
  "parse_payload text =
     (case parse_json text of
        None \<Rightarrow> None
      | Some v \<Rightarrow> (case decode_into payload_fields v \<lparr>p_Sub = '''', p_Iat = 0, p_Exp = 0\<rparr> of
                     (p, ok) \<Rightarrow> if ok then Some p else None))"

definition ParseJWT :: "string \<Rightarrow> string \<Rightarrow> instant \<Rightarrow> jwt_error + claims" where
  "ParseJWT secret token now =
     (case Split CHR ''.'' token of
        [h, b, mac] \<Rightarrow>
          if sign secret (h @ ''.'' @ b) \<noteq> mac then Inl ErrTokenInvalid
          else (case DecodeString b64_url h of
             None \<Rightarrow> Inl ErrTokenInvalid
           | Some hdr \<Rightarrow>
               if header_alg (string_of hdr) \<noteq> Some ''HS256'' then Inl ErrTokenInvalid
               else (case DecodeString b64_url b of
                  None \<Rightarrow> Inl ErrTokenInvalid
                | Some body \<Rightarrow>
                    (case parse_payload (string_of body) of
                       None \<Rightarrow> Inl ErrTokenInvalid
                     | Some p \<Rightarrow>
                         if 0 < p_Exp p \<and> p_Exp p \<le> unix now then Inl ErrTokenExpired
                         else Inr \<lparr>cl_Subject = p_Sub p, cl_IssuedAt = p_Iat p * 10 ^ 9,
                                   cl_ExpiresAt = p_Exp p * 10 ^ 9\<rparr>)))
      | _ \<Rightarrow> Inl ErrTokenInvalid)"


section \<open>What is written is read back\<close>

lemma hex_digit_val_digit: "d < 16 \<Longrightarrow> hex_digit_val (hex_digit d) = Some d"
proof -
  assume "d < 16"
  then have "d \<in> {0,1,2,3,4,5,6,7,8,9,10,11,12,13,14,15}" by (simp add: numeral_eq_Suc less_Suc_eq)
  then show ?thesis by (auto simp: hex_digit_def hex_digit_val_def)
qed

lemma hex4_control:
  assumes "n < 128"
  shows "hex4 (CHR ''0'' # CHR ''0'' # hex_digit (n div 16) # hex_digit (n mod 16) # r) = Some n"
proof -
  have "hex_digit_val CHR ''0'' = Some 0" using hex_digit_val_digit[of 0] by (simp add: hex_digit_def)
  moreover have "n div 16 * 16 + n mod 16 = n" by simp
  ultimately show ?thesis using assms
    by (simp add: hex4_def hex_digit_val_digit numeral_nat(7))
qed

lemma scan_str_u:
  "hex4 ys = Some n \<Longrightarrow> \<not> surrogate n \<Longrightarrow>
   scan_str (CHR 0x5C # CHR ''u'' # ys) = map_option (apfst ((@) (utf8 n))) (scan_str (drop 4 ys))"
  by simp

lemma scan_str_quote_char: "scan_str (quote_char x @ r) = map_option (apfst ((#) x)) (scan_str r)"
proof -
  let ?n = "of_char x :: nat"
  have x: "char_of ?n = x" by simp
  consider (esc) "?n \<in> {0x22, 0x5C, 8, 12, 10, 13, 9}"
    | (u) "?n \<notin> {0x22, 0x5C, 8, 12, 10, 13, 9}" "?n < 32 \<or> ?n = 0x3C \<or> ?n = 0x3E \<or> ?n = 0x26"
    | (plain) "?n \<notin> {0x22, 0x5C}" "32 \<le> ?n" "?n \<noteq> 0x3C" "?n \<noteq> 0x3E" "?n \<noteq> 0x26" by fastforce
  then show ?thesis
  proof cases
    case esc
    then have "x \<in> {CHR 0x22, CHR 0x5C, CHR 0x08, CHR 0x0C, CHR 0x0A, CHR 0x0D, CHR 0x09}"
      unfolding insert_iff empty_iff of_char_eq_iff[where 'a = nat, symmetric] by simp
    then show ?thesis by (auto simp: quote_char_def simple_escape_def)
  next
    case u
    then have n: "?n < 128" by auto
    then have "utf8 ?n = [x]" "\<not> surrogate ?n" using x by (auto simp: utf8_def surrogate_def)
    moreover have "quote_char x @ r = CHR 0x5C # CHR ''u'' #
        (CHR ''0'' # CHR ''0'' # hex_digit (?n div 16) # hex_digit (?n mod 16) # r)"
      using u by (auto simp: quote_char_def Let_def)
    moreover have "(@) [x] = (#) x" by auto
    ultimately show ?thesis
      using scan_str_u[OF hex4_control[OF n, of r]] by (simp del: scan_str.simps)
  next
    case plain
    then have "x \<noteq> CHR 0x22" "x \<noteq> CHR 0x5C" by auto
    with plain show ?thesis by (simp add: quote_char_def Let_def)
  qed
qed

lemma scan_str_quote: "scan_str (concat (map quote_char s) @ CHR 0x22 # r) = Some (s, r)"
  by (induction s) (simp_all add: scan_str_quote_char del: scan_str.simps(2), simp)

lemma takeWhile_digits:
  "list_all p ds \<Longrightarrow> r = [] \<or> \<not> p (hd r) \<Longrightarrow> takeWhile p (ds @ r) = ds \<and> dropWhile p (ds @ r) = r"
  by (induction ds) (auto, (cases r; simp)+)

lemma scan_num_Itoa:
  assumes "r \<noteq> []" "hd r \<in> {CHR '','', CHR 0x7D, CHR '']''}"
  shows "scan_num (Itoa n @ r) = Some (JInt n, r)"
proof -
  let ?u = "utoa (nat \<bar>n\<bar>)"
  obtain x xs where r: "r = x # xs" using assms(1) by (cases r) auto
  then have x: "\<not> isDigit x" "x \<noteq> CHR ''.''" "x \<noteq> CHR ''e''" "x \<noteq> CHR ''E''"
    using assms(2) by (auto simp: isDigit_def)
  have tw: "takeWhile isDigit (?u @ r) = ?u" "dropWhile isDigit (?u @ r) = r"
    using takeWhile_digits[OF utoa_digits, of r] x r by auto
  have fe: "scan_frac r = (False, [], r)" "scan_exp r = (False, False, [], r)"
    using x by (auto simp: scan_frac_def scan_exp_def r)
  have lead: "\<not> (1 < length ?u \<and> hd ?u = CHR ''0'')"
    using hd_utoa[of "nat \<bar>n\<bar>"] by (cases "n = 0") (auto simp: utoa.simps)
  have "hd ?u \<noteq> CHR ''-''" using utoa_special[of "hd ?u" "nat \<bar>n\<bar>"] by simp
  then have m: "take 1 (?u @ r) \<noteq> ''-''" by (cases ?u) auto
  show ?thesis
  proof (cases "n < 0")
    case True
    then have "Itoa n @ r = CHR ''-'' # (?u @ r)" by (simp add: Itoa_def abs_if)
    with True lead tw fe show ?thesis by (simp add: scan_num_def Let_def)
  next
    case False
    then have "Itoa n @ r = ?u @ r" by (simp add: Itoa_def)
    with False lead tw fe m show ?thesis by (simp add: scan_num_def Let_def)
  qed
qed
lemma skip_ws_same: "s \<noteq> [] \<Longrightarrow> \<not> is_ws (hd s) \<Longrightarrow> skip_ws s = s"
  by (cases s) (simp_all add: skip_ws_def)

lemma skip_ws_char [simp]:
  "skip_ws (CHR '','' # s) = CHR '','' # s" "skip_ws (CHR '':'' # s) = CHR '':'' # s"
  "skip_ws (CHR 0x22 # s) = CHR 0x22 # s" "skip_ws (CHR 0x7B # s) = CHR 0x7B # s"
  "skip_ws (CHR 0x7D # s) = CHR 0x7D # s" "skip_ws [] = []"
  by (simp_all add: skip_ws_def is_ws_def)

text \<open>Reading the text of a number or a string, and one member of an object.\<close>

lemma Itoa_start:
  obtains x xs where "Itoa n = x # xs" "isDigit x \<or> x = CHR ''-''"
proof -
  have "\<exists>y ys. utoa m = y # ys \<and> isDigit y" for m
    using utoa_digits[of m] by (cases "utoa m") auto
  then obtain y ys where y: "utoa (nat \<bar>n\<bar>) = y # ys" "isDigit y" by blast
  show ?thesis
    using that[of "CHR ''-''" "utoa (nat \<bar>n\<bar>)"] that[of y ys] y by (cases "n < 0") (auto simp: Itoa_def)
qed

lemma skip_ws_Itoa [simp]: "skip_ws (Itoa n @ s) = Itoa n @ s"
  by (rule Itoa_start[of n]) (auto simp: skip_ws_def is_ws_def isDigit_def)

lemma parse_value_Itoa:
  assumes "r \<noteq> []" "hd r \<in> {CHR '','', CHR 0x7D, CHR '']''}"
  shows "parse_value (Suc n) (Itoa i @ r) = Some (JInt i, r)"
proof (rule Itoa_start[of i])
  fix x xs assume x: "Itoa i = x # xs" "isDigit x \<or> x = CHR ''-''"
  then have "x \<notin> {CHR ''n'', CHR ''t'', CHR ''f'', CHR 0x22, CHR ''['', CHR 0x7B}" by (auto simp: isDigit_def)
  with x scan_num_Itoa[OF assms, of i] show ?thesis by simp
qed

lemma parse_value_quote: "parse_value (Suc n) (json_quote s @ r) = Some (JStr s, r)"
  using scan_str_quote[of s r] by (simp add: json_quote_def del: scan_str.simps)

lemma scan_str_plain: "list_all (\<lambda>x. quote_char x = [x]) k \<Longrightarrow> scan_str (k @ CHR 0x22 # r) = Some (k, r)"
proof -
  assume "list_all (\<lambda>x. quote_char x = [x]) k"
  then have "concat (map quote_char k) = k" by (induction k) auto
  with scan_str_quote[of k r] show ?thesis by simp
qed

lemma parse_members_key:
  assumes "list_all (\<lambda>x. quote_char x = [x]) k" "skip_ws s = s"
  shows "parse_members (Suc n) (json_key k @ s) =
    (case parse_value n s of None \<Rightarrow> None
     | Some (v, r) \<Rightarrow>
         (let r' = skip_ws r in
          if take 1 r' = '','' then map_option (apfst ((#) (k, v))) (parse_members n (skip_ws (drop 1 r')))
          else if take 1 r' = [CHR 0x7D] then Some ([(k, v)], drop 1 r') else None))"
  using scan_str_plain[OF assms(1), of "CHR '':'' # s"] assms(2)
  by (simp add: json_key_def Let_def del: scan_str.simps split: option.split)

lemma parse_payload_text:
  "parse_json (payload_text s i e) = Some (JObj [(''exp'', JInt e), (''iat'', JInt i), (''sub'', JStr s)])"
proof -
  let ?t = "payload_text s i e"
  have keys: "list_all (\<lambda>x. quote_char x = [x]) ''exp''" "list_all (\<lambda>x. quote_char x = [x]) ''iat''"
    "list_all (\<lambda>x. quote_char x = [x]) ''sub''" by (simp_all add: quote_char_def)
  have jk: "json_key k @ r = CHR 0x22 # (k @ CHR 0x22 # CHR '':'' # r)" for k r by (simp add: json_key_def)
  have sk: "skip_ws (json_key k @ r) = json_key k @ r" for k r by (simp add: jk)
  have sq: "skip_ws (json_quote s @ r) = json_quote s @ r" for r by (simp add: json_quote_def)
  have m: "parse_members (Suc (Suc (Suc (Suc k))))
      (json_key ''exp'' @ Itoa e @ CHR '','' # json_key ''iat'' @ Itoa i @ CHR '','' # json_key ''sub'' @ json_quote s @ [CHR 0x7D])
    = Some ([(''exp'', JInt e), (''iat'', JInt i), (''sub'', JStr s)], [])" for k
    by (simp add: parse_members_key[OF keys(1)] parse_members_key[OF keys(2)] parse_members_key[OF keys(3)] parse_value_Itoa parse_value_quote sk sq
        del: parse_value.simps parse_members.simps)
  have "\<exists>k. 2 * length ?t + 2 = Suc (Suc (Suc (Suc (Suc k))))"
    by (rule exI[of _ "2 * length ?t - 3"]) (simp add: payload_text_def)
  then obtain k where k: "2 * length ?t + 2 = Suc (Suc (Suc (Suc (Suc k))))" by blast
  have "parse_value (Suc (Suc (Suc (Suc (Suc k))))) ?t = Some (JObj [(''exp'', JInt e), (''iat'', JInt i), (''sub'', JStr s)], [])"
    using m[of k] by (simp add: payload_text_def sk jk)
  moreover have "skip_ws ?t = ?t" by (simp add: payload_text_def)
  ultimately show ?thesis unfolding parse_json_def k by (simp del: parse_value.simps)
qed

lemma parse_payload_payload_text:
  assumes "int64_range i" "int64_range e"
  shows "parse_payload (payload_text s i e) = Some \<lparr>p_Sub = s, p_Iat = i, p_Exp = e\<rparr>"
  using assms
  by (simp add: parse_payload_def parse_payload_text decode_into_def payload_fields_def find_field_def
      str_field_def int_field_def)

lemma header_alg_HS256:
  "header_alg ([CHR 0x7B] @ json_key ''alg'' @ json_quote ''HS256'' @ '','' @ json_key ''typ'' @ json_quote ''JWT'' @ [CHR 0x7D]) =
     Some ''HS256''"
  by code_simp

lemma b64_no_dot: "CHR ''.'' \<notin> set (EncodeToString b64_url bs)"
  using set_EncodeToString[OF alphabet_url, of bs] by (auto simp: b64_url_def)

lemma DecodeString_b64: "DecodeString b64_url (b64 s) = Some (bytes_of s)"
  by (simp add: b64_def DecodeString_EncodeToString alphabet_url)

lemma Split_token:
  assumes "CHR ''.'' \<notin> set h" "CHR ''.'' \<notin> set b" "CHR ''.'' \<notin> set m"
  shows "Split CHR ''.'' ((h @ ''.'' @ b) @ ''.'' @ m) = [h, b, m]"
  using assms by (simp add: Split_append_sep Split_no_sep)


lemma unix_less: "unix t < x \<Longrightarrow> t < x * 10 ^ 9"
  using div_mult_mod_eq[of t "10 ^ 9"] pos_mod_bound[of "10 ^ 9" t] by (simp add: unix_def)


section \<open>Properties\<close>

lemma parse_issued:
  assumes "IssueJWT secret subject ttl now = Some token"
    and "int64_range (unix now)" "int64_range (unix (now + ttl))" "0 < unix (now + ttl)"
  shows "ParseJWT secret token now' =
     (if unix (now + ttl) \<le> unix now' then Inl ErrTokenExpired
      else Inr \<lparr>cl_Subject = subject, cl_IssuedAt = unix now * 10 ^ 9, cl_ExpiresAt = unix (now + ttl) * 10 ^ 9\<rparr>)"
proof -
  let ?p = "payload_text subject (unix now) (unix (now + ttl))"
  let ?in = "headerHS256 @ ''.'' @ b64 ?p"
  from assms(1) have tok: "token = ?in @ ''.'' @ sign secret ?in"
    by (simp add: IssueJWT_def Let_def split: if_splits)
  have split: "Split CHR ''.'' token = [headerHS256, b64 ?p, sign secret ?in]"
    unfolding tok by (rule Split_token) (simp_all add: headerHS256_def b64_def sign_def b64_no_dot)
  have hdr: "DecodeString b64_url headerHS256 = Some (bytes_of ([CHR 0x7B] @ json_key ''alg'' @ json_quote ''HS256'' @ '','' @ json_key ''typ'' @ json_quote ''JWT'' @ [CHR 0x7D]))"
    unfolding headerHS256_def by (rule DecodeString_b64)
  show ?thesis
    unfolding ParseJWT_def split using assms(2-4)
    by (simp add: hdr DecodeString_b64 header_alg_HS256[simplified] parse_payload_payload_text)
qed


text \<open>
  C22. Only tokens signed under the secret are accepted: an accepted token is a header that names HS256, a
  payload, and exactly the HMAC of the two under the secret, and it is not past its expiry.
\<close>

theorem ParseJWT_sound:
  assumes "ParseJWT secret token now = Inr c"
  shows "\<exists>h b hdr. token = h @ ''.'' @ b @ ''.'' @ sign secret (h @ ''.'' @ b) \<and>
     DecodeString b64_url h = Some hdr \<and> header_alg (string_of hdr) = Some ''HS256'' \<and>
     (0 < cl_ExpiresAt c \<longrightarrow> now < cl_ExpiresAt c)"
proof -
  from assms obtain h b m where s: "Split CHR ''.'' token = [h, b, m]"
    by (auto simp: ParseJWT_def split: list.splits)
  with assms obtain hdr body p where *: "sign secret (h @ ''.'' @ b) = m" "DecodeString b64_url h = Some hdr"
    "header_alg (string_of hdr) = Some ''HS256''" "parse_payload (string_of body) = Some p"
    "\<not> (0 < p_Exp p \<and> p_Exp p \<le> unix now)" "cl_ExpiresAt c = p_Exp p * 10 ^ 9"
    by (auto simp: ParseJWT_def split: if_splits option.splits)
  have "token = h @ ''.'' @ b @ ''.'' @ m" using Join_Split[of "CHR ''.''" token] s by simp
  moreover have "now < cl_ExpiresAt c" if "0 < cl_ExpiresAt c"
    using that *(5,6) unix_less[of now "p_Exp p"] by (auto simp: zero_less_mult_iff)
  ultimately show ?thesis using * by blast
qed


theorem ParseJWT_sound_witness:
  "\<exists>token c. ParseJWT ''secret'' token (10 ^ 18) = Inr c \<and>
     (\<exists>h b. token = h @ ''.'' @ b @ ''.'' @ sign ''secret'' (h @ ''.'' @ b))"
proof -
  let ?p = "b64 (payload_text ''user-1'' 0 0)"
  let ?t = "(headerHS256 @ ''.'' @ ?p) @ ''.'' @ sign ''secret'' (headerHS256 @ ''.'' @ ?p)"
  have "Split CHR ''.'' ?t = [headerHS256, ?p, sign ''secret'' (headerHS256 @ ''.'' @ ?p)]"
    by (rule Split_token) (simp_all add: headerHS256_def b64_def sign_def b64_no_dot)
  then have "\<exists>c. ParseJWT ''secret'' ?t (10 ^ 18) = Inr c"
    by (simp add: ParseJWT_def headerHS256_def DecodeString_b64 header_alg_HS256[simplified]
        parse_payload_payload_text int64_range_def)
  then obtain c where "ParseJWT ''secret'' ?t (10 ^ 18) = Inr c" by blast
  with ParseJWT_sound[OF this] show ?thesis by blast
qed

end
