(* ===== verification/Password.thy ===== *)
theory Password
  imports Auth Go_Strings
begin

text \<open>
  \<^verbatim>\<open>internal/auth/password.go\<close>: argon2id password hashes in the PHC string format. The key
  derivation comes from \<open>golang.org/x/crypto/argon2\<close> and is a parameter: a function of password,
  salt, passes, memory, threads and key length, which panics (\<open>None\<close>) when passes or threads are
  zero, and the version number of the package.
\<close>

type_synonym argon2 = "octets \<Rightarrow> octets \<Rightarrow> nat \<Rightarrow> nat \<Rightarrow> nat \<Rightarrow> nat \<Rightarrow> octets option"

definition argonTime :: nat where "argonTime = 1"
definition argonMemory :: nat where "argonMemory = 64 * 1024"
definition argonThreads :: nat where "argonThreads = 4"
definition argonKeyLen :: nat where "argonKeyLen = 32"

datatype pw_error = ErrPasswordMismatch | ErrPwRand | PwPanic

text \<open>The self-describing text of a hash.\<close>

definition phc :: "int \<Rightarrow> nat \<Rightarrow> nat \<Rightarrow> nat \<Rightarrow> octets \<Rightarrow> octets \<Rightarrow> string" where
  "phc ver mem t par salt hash =
     ''$argon2id$v='' @ Itoa ver @ ''$m='' @ utoa mem @ '',t='' @ utoa t @ '',p='' @ utoa par @ ''$'' @
     EncodeToString b64_std salt @ ''$'' @ EncodeToString b64_std hash"

text \<open>\<open>rnd\<close> is the salt \<open>rand.Read\<close> filled in, or nothing when it failed.\<close>

definition HashPassword :: "argon2 \<Rightarrow> int \<Rightarrow> octets option \<Rightarrow> string \<Rightarrow> pw_error + string" where
  "HashPassword IDKey ver rnd password =
     (case rnd of
        None \<Rightarrow> Inl ErrPwRand
      | Some salt \<Rightarrow>
          (case IDKey (bytes_of password) salt argonTime argonMemory argonThreads argonKeyLen of
             None \<Rightarrow> Inl PwPanic
           | Some hash \<Rightarrow> Inr (phc ver argonMemory argonTime argonThreads salt hash)))"

text \<open>
  \<open>fmt.Sscanf\<close> for a literal and for a decimal number: blanks before the number are skipped, a
  newline there is an error, and what follows the last verb is not looked at.
\<close>

definition scan_lit :: "string \<Rightarrow> string \<Rightarrow> string option" where
  "scan_lit lit s = (if take (length lit) s = lit then Some (drop (length lit) s) else None)"

definition scan_blank :: "string \<Rightarrow> string option" where
  "scan_blank s =
     (let r = dropWhile (\<lambda>x. isSpace x \<and> x \<noteq> CHR 0x0A) s
      in if r = [] \<or> hd r = CHR 0x0A then None else Some r)"

definition scan_digits :: "string \<Rightarrow> (nat \<times> string) option" where
  "scan_digits s =
     (let d = takeWhile isDigit s in if d = [] then None else Some (dec_val d, dropWhile isDigit s))"

definition scan_uint :: "nat \<Rightarrow> string \<Rightarrow> (nat \<times> string) option" where
  "scan_uint bits s =
     (case Option.bind (scan_blank s) scan_digits of
        None \<Rightarrow> None
      | Some (n, r) \<Rightarrow> if n < 2 ^ bits then Some (n, r) else None)"

definition scan_int :: "string \<Rightarrow> (int \<times> string) option" where
  "scan_int s =
     (case scan_blank s of
        None \<Rightarrow> None
      | Some r \<Rightarrow>
          (let neg = (take 1 r = ''-'') in
           case scan_digits (if take 1 r = ''-'' \<or> take 1 r = ''+'' then drop 1 r else r) of
             None \<Rightarrow> None
           | Some (n, r') \<Rightarrow>
               (let v = (if neg then - int n else int n) in if int64_range v then Some (v, r') else None)))"

definition scan_version :: "string \<Rightarrow> int option" where
  "scan_version s = Option.bind (scan_lit ''v='' s) (\<lambda>r. map_option fst (scan_int r))"

definition scan_params :: "string \<Rightarrow> (nat \<times> nat \<times> nat) option" where
  "scan_params s =
     Option.bind (scan_lit ''m='' s) (\<lambda>r0.
     Option.bind (scan_uint 32 r0) (\<lambda>(mem, r1).
     Option.bind (scan_lit '',t='' r1) (\<lambda>r2.
     Option.bind (scan_uint 32 r2) (\<lambda>(t, r3).
     Option.bind (scan_lit '',p='' r3) (\<lambda>r4.
     Option.bind (scan_uint 8 r4) (\<lambda>(par, _). Some (mem, t, par)))))))"

definition VerifyPassword :: "argon2 \<Rightarrow> int \<Rightarrow> string \<Rightarrow> string \<Rightarrow> pw_error + unit" where
  "VerifyPassword IDKey ver password encoded =
     (case Split CHR ''$'' encoded of
        [_, alg, v, ps, saltText, wantText] \<Rightarrow>
          if alg \<noteq> ''argon2id'' then Inl ErrPasswordMismatch
          else if scan_version v \<noteq> Some ver then Inl ErrPasswordMismatch
          else (case scan_params ps of
             None \<Rightarrow> Inl ErrPasswordMismatch
           | Some (mem, t, par) \<Rightarrow>
               (case (DecodeString b64_std saltText, DecodeString b64_std wantText) of
                  (Some salt, Some want) \<Rightarrow>
                    (case IDKey (bytes_of password) salt t mem par (length want mod 2 ^ 32) of
                       None \<Rightarrow> Inl PwPanic
                     | Some got \<Rightarrow> if got = want then Inr () else Inl ErrPasswordMismatch)
                | _ \<Rightarrow> Inl ErrPasswordMismatch))
      | _ \<Rightarrow> Inl ErrPasswordMismatch)"


section \<open>Reading back the format\<close>

lemma scan_digits_utoa:
  assumes "r = [] \<or> \<not> isDigit (hd r)"
  shows "scan_digits (utoa n @ r) = Some (n, r)"
proof -
  have "takeWhile isDigit (utoa n @ r) = utoa n" "dropWhile isDigit (utoa n @ r) = r"
    using utoa_digits[of n] assms by (cases r; auto simp: takeWhile_append dropWhile_append list_all_iff)+
  then show ?thesis by (simp add: scan_digits_def Let_def)
qed

lemma scan_blank_utoa: "scan_blank (utoa n @ r) = Some (utoa n @ r)"
proof -
  obtain x xs where "utoa n = x # xs" "isDigit x" using utoa_digits[of n] by (cases "utoa n") auto
  then show ?thesis by (auto simp: scan_blank_def Let_def isSpace_def isDigit_def)
qed

lemma scan_uint_utoa:
  "r = [] \<or> \<not> isDigit (hd r) \<Longrightarrow> n < 2 ^ bits \<Longrightarrow> scan_uint bits (utoa n @ r) = Some (n, r)"
  by (simp add: scan_uint_def scan_blank_utoa scan_digits_utoa)

lemma scan_version_utoa:
  assumes "int64_range (int n)" shows "scan_version (''v='' @ utoa n) = Some (int n)"
proof -
  obtain x xs where x: "utoa n = x # xs" "isDigit x" using utoa_digits[of n] by (cases "utoa n") auto
  then have "x \<noteq> CHR ''-''" "x \<noteq> CHR ''+''" by (auto simp: isDigit_def)
  with x show ?thesis using scan_blank_utoa[of n "[]"] scan_digits_utoa[of "[]" n] assms
    by (simp add: scan_version_def scan_lit_def scan_int_def Let_def)
qed

lemma scan_params_utoa:
  assumes "m < 2 ^ 32" "t < 2 ^ 32" "p < 2 ^ 8"
  shows "scan_params (''m='' @ utoa m @ '',t='' @ utoa t @ '',p='' @ utoa p) = Some (m, t, p)"
proof -
  have "\<not> isDigit CHR '',''" by (simp add: isDigit_def)
  then have "scan_uint 32 (utoa m @ '',t='' @ utoa t @ '',p='' @ utoa p) = Some (m, '',t='' @ utoa t @ '',p='' @ utoa p)"
    "scan_uint 32 (utoa t @ '',p='' @ utoa p) = Some (t, '',p='' @ utoa p)" "scan_uint 8 (utoa p) = Some (p, [])"
    using assms scan_uint_utoa[of "[]" p 8] by (simp_all add: scan_uint_utoa)
  then show ?thesis by (simp add: scan_params_def scan_lit_def)
qed

lemma b64_std_no_dollar: "CHR ''$'' \<notin> set (EncodeToString b64_std bs)"
  using set_EncodeToString[OF alphabet_std, of bs] by (auto simp: b64_std_def)

lemma utoa_no_dollar: "CHR ''$'' \<notin> set (utoa n)"
  using utoa_digits[of n] by (auto simp: list_all_iff isDigit_def)

lemma Split_phc:
  assumes "0 \<le> ver"
  shows "Split CHR ''$'' (phc ver m t p salt key) =
    [[], ''argon2id'', ''v='' @ utoa (nat ver), ''m='' @ utoa m @ '',t='' @ utoa t @ '',p='' @ utoa p,
     EncodeToString b64_std salt, EncodeToString b64_std key]" (is "_ = ?ws")
proof -
  have "phc ver m t p salt key = Join CHR ''$'' ?ws" using assms by (simp add: phc_def Itoa_def)
  moreover have "\<forall>w\<in>set ?ws. CHR ''$'' \<notin> set w" by (simp add: b64_std_no_dollar utoa_no_dollar)
  ultimately show ?thesis using Split_Join[of ?ws "CHR ''$''"] by simp
qed


section \<open>Properties\<close>

text \<open>The documented behaviour of \<open>argon2.IDKey\<close>: with at least one pass and one thread it returns a
  key of the length asked for, and otherwise it panics.\<close>

definition IDKey_ok :: "argon2 \<Rightarrow> bool" where
  "IDKey_ok f \<longleftrightarrow>
     (\<forall>pw salt t m p len. if t = 0 \<or> p = 0 then f pw salt t m p len = None
        else \<exists>k. f pw salt t m p len = Some k \<and> length k = len)"

text \<open>
  C24. A password verifies against its own hash, and another one does exactly when it derives the
  same key under the stored salt and parameters; the check of a hash this program wrote never panics.
\<close>

theorem HashPassword_VerifyPassword:
  assumes f: "IDKey_ok IDKey" and ver: "0 \<le> ver" "int64_range ver"
    and h: "HashPassword IDKey ver (Some salt) password = Inr encoded"
  shows "VerifyPassword IDKey ver attempt encoded =
     (if IDKey (bytes_of attempt) salt argonTime argonMemory argonThreads argonKeyLen =
         IDKey (bytes_of password) salt argonTime argonMemory argonThreads argonKeyLen
      then Inr () else Inl ErrPasswordMismatch)"
proof -
  let ?k = "\<lambda>pw. IDKey (bytes_of pw) salt argonTime argonMemory argonThreads argonKeyLen"
  have k: "\<exists>k. ?k pw = Some k \<and> length k = 32" for pw
  proof -
    have "argonTime \<noteq> 0" "argonThreads \<noteq> 0" "argonKeyLen = 32"
      by (simp_all add: argonTime_def argonThreads_def argonKeyLen_def)
    with f show ?thesis by (metis IDKey_ok_def)
  qed
  obtain key got where key: "?k password = Some key" "length key = 32" and got: "?k attempt = Some got"
    using k[of password] k[of attempt] by blast
  have enc: "Split CHR ''$'' encoded = [[], ''argon2id'', ''v='' @ utoa (nat ver),
      ''m='' @ utoa argonMemory @ '',t='' @ utoa argonTime @ '',p='' @ utoa argonThreads,
      EncodeToString b64_std salt, EncodeToString b64_std key]"
    using h key Split_phc[OF ver(1), of argonMemory argonTime argonThreads salt key]
    by (simp add: HashPassword_def)
  have "scan_version (''v='' @ utoa (nat ver)) = Some ver" using scan_version_utoa[of "nat ver"] ver by simp
  moreover have "scan_params (''m='' @ utoa argonMemory @ '',t='' @ utoa argonTime @ '',p='' @ utoa argonThreads) =
      Some (argonMemory, argonTime, argonThreads)"
    by (rule scan_params_utoa) (simp_all add: argonMemory_def argonTime_def argonThreads_def)
  ultimately show ?thesis
    using got key by (simp add: VerifyPassword_def enc DecodeString_EncodeToString alphabet_std argonKeyLen_def)
qed

definition sample_IDKey :: argon2 where
  "sample_IDKey pw salt t m p len =
     (if t = 0 \<or> p = 0 then None else Some (take len (Sum256 (pw @ salt) @ replicate len 0)))"

theorem HashPassword_VerifyPassword_witness:
  "\<exists>encoded. HashPassword sample_IDKey 19 (Some (replicate 16 7)) ''correct horse'' = Inr encoded \<and>
     VerifyPassword sample_IDKey 19 ''correct horse'' encoded = Inr ()"
proof -
  have f: "IDKey_ok sample_IDKey" by (auto simp: IDKey_ok_def sample_IDKey_def length_Sum256 min_def)
  obtain encoded where h: "HashPassword sample_IDKey 19 (Some (replicate 16 7)) ''correct horse'' = Inr encoded"
    by (simp add: HashPassword_def sample_IDKey_def argonTime_def argonThreads_def)
  from HashPassword_VerifyPassword[OF f _ _ h, of "''correct horse''"] h show ?thesis by (simp add: int64_range_def)
qed

end
