(* ===== verification/Http.thy ===== *)
theory Http
  imports Go_Net Go_Json Go_Time RateLimit Jwt Password
begin

text \<open>
  Requests and responses as the handlers see them, and the parts of
  \<^verbatim>\<open>internal/api/server.go\<close> that look at a request: the bearer token, the client address, the
  comparison of secrets. A body is the JSON value its text denotes, \<open>None\<close> when there is no such
  value within the handler's size limit; a header that is absent is empty.
\<close>

record request =
  rq_Method :: string
  rq_Path :: string
  rq_Authorization :: string
  rq_XForwardedFor :: string
  rq_RemoteAddr :: string
  rq_Body :: "json option"

datatype body = NoBody | Plain string | Json json

record response =
  rs_Status :: nat
  rs_Body :: body

definition writeJSON :: "nat \<Rightarrow> json \<Rightarrow> response" where
  "writeJSON code v = \<lparr>rs_Status = code, rs_Body = Json v\<rparr>"

definition writeError :: "nat \<Rightarrow> string \<Rightarrow> response" where
  "writeError code msg = writeJSON code (JObj [(''error'', JStr msg)])"

definition noContent :: response where
  "noContent = \<lparr>rs_Status = 204, rs_Body = NoBody\<rparr>"

definition NotFound :: response where
  "NotFound = \<lparr>rs_Status = 404, rs_Body = Plain ''404 page not found''\<rparr>"

text \<open>Members that \<open>omitempty\<close> leaves out when they have their zero value.\<close>

definition omit_str :: "string \<Rightarrow> string \<Rightarrow> (string \<times> json) list" where
  "omit_str k s = (if s = '''' then [] else [(k, JStr s)])"

definition omit_int :: "string \<Rightarrow> int \<Rightarrow> (string \<times> json) list" where
  "omit_int k n = (if n = 0 then [] else [(k, JInt n)])"

definition omit_nil :: "string \<Rightarrow> ('a \<Rightarrow> json) \<Rightarrow> 'a option \<Rightarrow> (string \<times> json) list" where
  "omit_nil k f v = (case v of None \<Rightarrow> [] | Some x \<Rightarrow> [(k, f x)])"

text \<open>\<open>json.NewDecoder(...).Decode(&x)\<close> into a zero struct: what was filled in, and whether it succeeded.\<close>

definition decode_body :: "'r field list \<Rightarrow> 'r \<Rightarrow> request \<Rightarrow> 'r \<times> bool" where
  "decode_body fs zero rq = (case rq_Body rq of None \<Rightarrow> (zero, False) | Some v \<Rightarrow> decode_into fs v zero)"


section \<open>Reading a request\<close>

definition bearerToken :: "request \<Rightarrow> string" where
  "bearerToken rq =
     (let h = rq_Authorization rq; prefix = ''Bearer ''
      in if length prefix < length h \<and> EqualFold (take (length prefix) h) prefix
         then TrimSpace (drop (length prefix) h) else '''')"

text \<open>\<open>subtle.ConstantTimeCompare\<close> on the bytes.\<close>

definition constEq :: "string \<Rightarrow> string \<Rightarrow> bool" where
  "constEq a b \<longleftrightarrow> a = b"

text \<open>\<open>net.SplitHostPort\<close>, the host part.\<close>

definition last_index :: "char \<Rightarrow> string \<Rightarrow> nat option" where
  "last_index c s = (if c \<in> set s then Some (length s - 1 - length (takeWhile (\<lambda>x. x \<noteq> c) (rev s))) else None)"

definition SplitHost :: "string \<Rightarrow> string option" where
  "SplitHost s =
     (case last_index CHR '':'' s of
        None \<Rightarrow> None
      | Some i \<Rightarrow>
          if take 1 s = ''['' then
            (let e = length (takeWhile (\<lambda>x. x \<noteq> CHR '']'') s) in
             if e = length s \<or> e + 1 \<noteq> i \<or> CHR ''['' \<in> set (drop 1 s) \<or> CHR '']'' \<in> set (drop (e + 1) s) then None
             else Some (take (e - 1) (drop 1 s)))
          else if CHR '':'' \<in> set (take i s) \<or> CHR ''['' \<in> set s \<or> CHR '']'' \<in> set s then None
          else Some (take i s))"

record server_config =
  sc_EnrollmentSecret :: string
  sc_AdminToken :: string
  sc_HeartbeatTTL :: duration
  sc_JWTSecret :: string
  sc_AccessTTL :: duration
  sc_RefreshTTL :: duration
  sc_LeaseTTL :: duration
  sc_ClientDNS :: "string list"
  sc_ProbePort :: int
  sc_AuthRatePerMin :: int
  sc_AuthBurst :: int
  sc_TrustProxy :: bool

definition clientIP :: "server_config \<Rightarrow> request \<Rightarrow> string" where
  "clientIP cfg rq =
     (if sc_TrustProxy cfg \<and> rq_XForwardedFor rq \<noteq> ''''
      then TrimSpace (hd (Split CHR '','' (rq_XForwardedFor rq)))
      else case SplitHost (rq_RemoteAddr rq) of None \<Rightarrow> rq_RemoteAddr rq | Some host \<Rightarrow> host)"

text \<open>The user of a valid access token, or the response to write.\<close>

definition authUser :: "instant \<Rightarrow> server_config \<Rightarrow> request \<Rightarrow> response + string" where
  "authUser now cfg rq =
     (if sc_JWTSecret cfg = '''' then Inl (writeError 503 ''authentication is disabled'')
      else let tok = bearerToken rq in
        if tok = '''' then Inl (writeError 401 ''missing access token'')
        else case ParseJWT (sc_JWTSecret cfg) tok now of
          Inl _ \<Rightarrow> Inl (writeError 401 ''invalid or expired token'')
        | Inr claims \<Rightarrow> Inr (cl_Subject claims))"

end
