(* ===== verification/Store_Alloc.thy ===== *)
theory Store_Alloc
  imports Go_Net
begin

unbundle bit_operations_syntax

text \<open>
  \<^verbatim>\<open>internal/store/connections.go\<close>: the errors of the store and the address allocator
  \<open>allocateHost\<close>, with 32-bit arithmetic as the code does it. The contract the connect flow uses
  (an address comes from the pool and is free; a refusal means the pool is exhausted) is the
  locale \<open>address_pool\<close>, interpreted on the allocator's loop.
\<close>

section \<open>Errors of the store\<close>

text \<open>
  The sentinel errors, an error of \<open>net.ParseCIDR\<close>, an error of the database or its driver
  (with the unique-violation code told apart), an error of the random source, and a panic.
\<close>

datatype store_error =
    ErrDeviceNotFound | ErrNoGatewayAvailable | ErrGatewayFull | ErrInvalidToken
  | ErrInviteInvalid | ErrDeviceKeyTaken | ErrNotFound
  | ErrParseCIDR | ErrDriver | ErrUnique | ErrRand | Panic

section \<open>The allocator\<close>

lemma unat_plus_one: "(h :: u32) < m \<Longrightarrow> unat (h + 1) = unat h + 1"
proof -
  assume "h < m"
  then have "unat h < unat m" by (simp add: word_less_nat_alt)
  also have "unat m < 2 ^ LENGTH(32)" by (rule unsigned_less)
  finally have "unat h + 1 < 2 ^ LENGTH(32) \<or> unat h + 1 = 2 ^ LENGTH(32)" by linarith
  moreover have "unat m < 2 ^ LENGTH(32)" by (rule unsigned_less)
  ultimately show ?thesis using \<open>unat h < unat m\<close> by (auto simp: unat_word_ariths)
qed

text \<open>The loop over the host numbers \<open>h\<close> in \<open>[2, size - 2]\<close>.\<close>

function host_loop :: "u32 \<Rightarrow> u32 \<Rightarrow> u32 set \<Rightarrow> u32 \<Rightarrow> u32 option" where
  "host_loop base sz used h =
     (if h < sz - 1 then
        let cand = base + h
        in if cand \<in> used then host_loop base sz used (h + 1) else Some h
      else None)"
  by pat_completeness auto
termination
  by (relation "measure (\<lambda>(base, sz, used, h). unat (sz - 1) - unat h)")
     (auto simp: unat_plus_one word_less_nat_alt)

declare host_loop.simps [simp del]

text \<open>The IPv6 host address: the network's last four bytes plus \<open>h\<close>, modulo \<open>2 ^ 32\<close>.\<close>

definition v6_host :: "ip_net \<Rightarrow> u32 \<Rightarrow> byte list" where
  "v6_host n6 h =
     (let c6 = (case To16 (n_IP n6) of Some b \<Rightarrow> b | None \<Rightarrow> replicate 16 0)
      in case Uint32 (drop 12 c6) of
           Some w \<Rightarrow> take 12 c6 @ PutUint32 (w + h)
         | None \<Rightarrow> c6)"

definition allocateHost :: "string \<Rightarrow> string option \<Rightarrow> u32 set \<Rightarrow> store_error + (string \<times> string option)" where
  "allocateHost cidrV4 cidrV6 used =
     (case ParseCIDR cidrV4 of
        None \<Rightarrow> Inl ErrParseCIDR
      | Some netV4 \<Rightarrow>
          (case Option.bind (To4 (n_IP netV4)) Uint32 of
             None \<Rightarrow> Inl Panic
           | Some base \<Rightarrow>
               let sz = push_bit (n_Bits netV4 - n_Ones netV4) 1;
                   netV6 = (case cidrV6 of None \<Rightarrow> None
                            | Some c \<Rightarrow> if c = '''' then None else ParseCIDR c)
               in case host_loop base sz used 2 of
                    None \<Rightarrow> Inl ErrGatewayFull
                  | Some h \<Rightarrow> Inr (IP_String (PutUint32 (base + h)),
                                    map_option (\<lambda>n6. IP_String (v6_host n6 h)) netV6)))"

section \<open>The pool contract\<close>

text \<open>
  An allocator over a pool: what it hands out is in the pool and free, and it refuses only when
  the whole pool is taken.
\<close>

locale address_pool =
  fixes pool :: "'a set"
    and alloc :: "'a set \<Rightarrow> 'a option"
  assumes alloc_in: "alloc used = Some a \<Longrightarrow> a \<in> pool"
    and alloc_free: "alloc used = Some a \<Longrightarrow> a \<notin> used"
    and alloc_refuses: "alloc used = None \<Longrightarrow> pool \<subseteq> used"
begin

lemma alloc_None_iff: "alloc used = None \<longleftrightarrow> pool \<subseteq> used"
  using alloc_in[of used] alloc_free[of used] alloc_refuses[of used] by (cases "alloc used") auto

lemma alloc_total: "a \<in> pool \<Longrightarrow> a \<notin> used \<Longrightarrow> \<exists>b. alloc used = Some b"
  using alloc_None_iff[of used] by (cases "alloc used") auto

text \<open>What has been handed out and recorded is not handed out again.\<close>

lemma alloc_next_differs: "alloc (insert a used) = Some b \<Longrightarrow> b \<noteq> a"
  using alloc_free by blast

end

section \<open>Properties of the allocator\<close>

lemma u32_between: "(h :: u32) \<le> j \<Longrightarrow> j = h \<or> h + 1 \<le> j"
proof -
  assume "h \<le> j"
  then consider "j = h" | "h < j" by fastforce
  then show ?thesis
  proof cases
    case 2
    then show ?thesis using unat_plus_one[of h j] by (simp add: word_le_nat_alt word_less_nat_alt)
  qed simp
qed

lemma host_loop_Some:
  assumes "host_loop base sz used h = Some k"
  shows "h \<le> k \<and> k < sz - 1 \<and> base + k \<notin> used \<and> (\<forall>j. h \<le> j \<and> j < k \<longrightarrow> base + j \<in> used)"
  using assms
proof (induction base sz used h rule: host_loop.induct)
  case (1 base sz used h)
  show ?case
  proof (cases "h < sz - 1 \<and> base + h \<in> used")
    case True
    then have "host_loop base sz used (h + 1) = Some k"
      using 1(2) by (subst (asm) host_loop.simps) (simp add: Let_def)
    then have IH: "h + 1 \<le> k" "k < sz - 1" "base + k \<notin> used"
      "\<forall>j. h + 1 \<le> j \<and> j < k \<longrightarrow> base + j \<in> used"
      using 1(1)[OF _ refl] True by auto
    moreover have "h \<le> k"
      using IH(1) unat_plus_one[of h "sz - 1"] True by (simp add: word_le_nat_alt)
    moreover have "base + j \<in> used" if "h \<le> j" "j < k" for j
      using u32_between[OF that(1)] IH(4) that(2) True by auto
    ultimately show ?thesis by blast
  next
    case False
    then show ?thesis using 1(2) by (subst (asm) host_loop.simps) (auto simp: Let_def split: if_splits)
  qed
qed

lemma host_loop_None:
  assumes "host_loop base sz used h = None" "h \<le> j" "j < sz - 1"
  shows "base + j \<in> used"
  using assms
proof (induction base sz used h rule: host_loop.induct)
  case (1 base sz used h)
  have lt: "h < sz - 1" using 1(3,4) by simp
  then have used: "base + h \<in> used" and rest: "host_loop base sz used (h + 1) = None"
    using 1(2) by (subst (asm) host_loop.simps, simp add: Let_def split: if_splits)+
  show ?case using u32_between[OF 1(3)] used 1(1)[OF lt refl used rest _ 1(4)] by blast
qed

interpretation host_pool: address_pool "{base + h | h. 2 \<le> h \<and> h < sz - 1}"
  "\<lambda>used. map_option (\<lambda>h. base + h) (host_loop base sz used 2)" for base sz :: u32
proof unfold_locales
  fix used a
  assume "map_option (\<lambda>h. base + h) (host_loop base sz used 2) = Some a"
  then show "a \<in> {base + h | h. 2 \<le> h \<and> h < sz - 1}" "a \<notin> used"
    using host_loop_Some by (fastforce, blast)
next
  fix used
  assume "map_option (\<lambda>h. base + h) (host_loop base sz used 2) = None"
  then show "{base + h | h. 2 \<le> h \<and> h < sz - 1} \<subseteq> used"
    using host_loop_None by fastforce
qed

text \<open>Host numbers below the network's size change no network bit.\<close>

lemma host_bits:
  assumes k: "k \<le> 32" and h: "(h :: u32) < push_bit k 1 - 1" and base: "\<And>j. j < k \<Longrightarrow> \<not> bit base j"
  shows "base + h = base OR h" "drop_bit k (base + h) = drop_bit k base"
    "take_bit k (base + h) = h" "h \<noteq> mask k"
proof -
  have hk: "\<not> bit h j" if "k \<le> j" for j
  proof (cases "k = 32")
    case True
    then show ?thesis using that bit_imp_le_length[of h j] by auto
  next
    case False
    with k have k32: "k < 32" by simp
    have u: "unat ((2 :: u32) ^ k) = 2 ^ k"
    proof -
      have "(2 :: nat) ^ k < 2 ^ 32" using k32 by (intro power_strict_increasing) auto
      then have "unat (of_nat (2 ^ k) :: u32) = 2 ^ k" by (simp only: unat_of_nat) simp
      then show ?thesis by simp
    qed
    have "unat h < unat ((2 :: u32) ^ k - 1)" using h by (simp add: word_less_nat_alt)
    also have "\<dots> \<le> 2 ^ k - 1" using u by (simp add: unat_sub_if')
    also have "\<dots> < 2 ^ k" by simp
    also have "\<dots> \<le> 2 ^ j" using that by (intro power_increasing) auto
    finally have "\<not> bit (unat h) j" by (simp add: bit_iff_odd)
    then show ?thesis by (auto simp: bit_unsigned_iff)
  qed
  show or: "base + h = base OR h" using base hk by (intro disjunctive_add) (meson not_le)
  show "drop_bit k (base + h) = drop_bit k base" unfolding or
    by (rule bit_word_eqI) (auto simp: bit_simps hk)
  show "take_bit k (base + h) = h" unfolding or
    by (rule bit_word_eqI) (auto simp: bit_simps base hk not_less)
  show "h \<noteq> mask k" using h by (auto simp: mask_eq_exp_minus_1)
qed


text \<open>Inversion of a successful allocation.\<close>

lemma allocateHost_InrE:
  assumes "allocateHost c c6 used = Inr (v4, v6)"
  obtains n base h where "ParseCIDR c = Some n" "Option.bind (To4 (n_IP n)) Uint32 = Some base"
    "host_loop base (push_bit (n_Bits n - n_Ones n) 1) used 2 = Some h"
    "v4 = IP_String (PutUint32 (base + h))"
    "v6 = map_option (\<lambda>n6. IP_String (v6_host n6 h))
            (case c6 of None \<Rightarrow> None | Some x \<Rightarrow> if x = '''' then None else ParseCIDR x)"
  using assms by (auto simp: allocateHost_def Let_def split: option.splits)

lemma allocateHost_fresh:
  assumes "allocateHost c c6 used = Inr (v4, v6)"
  obtains a where "v4 = IP_String (PutUint32 a)" "a \<notin> used"
  using assms by (elim allocateHost_InrE) (use host_pool.alloc_free in fastforce)

text \<open>Every branch of the allocator.\<close>

lemma allocateHost_Inl:
  assumes "allocateHost c c6 used = Inl e"
  shows "e = ErrParseCIDR \<and> ParseCIDR c = None \<or>
         e = Panic \<and> (\<exists>n. ParseCIDR c = Some n \<and> To4 (n_IP n) = None) \<or>
         e = ErrGatewayFull"
proof -
  have "Uint32 b \<noteq> None" if "To4 ip = Some b" for ip b
    using that Uint32_length4[of b] by (auto simp: To4_def split: if_splits)
  then show ?thesis using assms
    by (cases "ParseCIDR c"; cases "To4 (n_IP (the (ParseCIDR c)))")
       (fastforce simp: allocateHost_def Let_def split: option.splits)+
qed

text \<open>
  The host part of an allocated address: a number of the network that is neither the network
  address, nor the gateway's, nor the broadcast address.
\<close>

lemma allocateHost_in_network:
  assumes "ParseCIDR c = Some n" "Option.bind (To4 (n_IP n)) Uint32 = Some base"
    and "host_loop base (push_bit (n_Bits n - n_Ones n) 1) used 2 = Some h"
  shows "drop_bit (n_Bits n - n_Ones n) (base + h) = drop_bit (n_Bits n - n_Ones n) base"
    "base + h \<notin> {base, base + 1, base OR mask (n_Bits n - n_Ones n)}"
proof -
  define k where "k = n_Bits n - n_Ones n"
  obtain b where b: "To4 (n_IP n) = Some b" "Uint32 b = Some base"
    using assms(2) by (auto simp: bind_eq_Some_conv)
  have k: "k \<le> 32" and base: "\<And>j. j < k \<Longrightarrow> \<not> bit base j"
    using network_value[OF assms(1) b] by (auto simp: k_def)
  have h: "2 \<le> h" "h < push_bit k 1 - 1"
    using host_loop_Some[OF assms(3)] by (auto simp: k_def)
  note bits = host_bits[OF k h(2) base]
  show "drop_bit (n_Bits n - n_Ones n) (base + h) = drop_bit (n_Bits n - n_Ones n) base"
    using bits(2) by (simp add: k_def)
  have "base + h \<noteq> base OR mask k"
  proof
    assume eq: "base + h = base OR mask k"
    have "take_bit k (base OR mask k) = mask k"
      by (rule bit_word_eqI) (auto simp: bit_simps base)
    with eq bits(3,4) show False by simp
  qed
  moreover have "h \<noteq> 0" "h \<noteq> 1" using h(1) by (auto simp: word_le_nat_alt)
  ultimately show "base + h \<notin> {base, base + 1, base OR mask (n_Bits n - n_Ones n)}"
    by (auto simp: k_def)
qed

section \<open>What the allocator promises\<close>

text \<open>
  C6. A successful allocation is the lowest free host number of the
  subnet, counting from 2: the address lies in the subnet, is not in use, and is neither the
  network address, nor the gateway's \<open>.1\<close>, nor the broadcast address.
\<close>

theorem allocateHost_correct:
  assumes "allocateHost c c6 used = Inr (v4, v6)"
  shows "\<exists>n base h. ParseCIDR c = Some n \<and> Option.bind (To4 (n_IP n)) Uint32 = Some base \<and>
           v4 = IP_String (PutUint32 (base + h)) \<and> base + h \<notin> used \<and>
           (\<forall>j. 2 \<le> j \<and> j < h \<longrightarrow> base + j \<in> used) \<and>
           drop_bit (n_Bits n - n_Ones n) (base + h) = drop_bit (n_Bits n - n_Ones n) base \<and>
           base + h \<notin> {base, base + 1, base OR mask (n_Bits n - n_Ones n)}"
  using assms
proof (rule allocateHost_InrE)
  fix n base h
  assume *: "ParseCIDR c = Some n" "Option.bind (To4 (n_IP n)) Uint32 = Some base"
    "host_loop base (push_bit (n_Bits n - n_Ones n) 1) used 2 = Some h"
    "v4 = IP_String (PutUint32 (base + h))"
  show ?thesis
    using * allocateHost_in_network[OF *(1-3)] host_loop_Some[OF *(3)]
    by (intro exI[of _ n] exI[of _ base] exI[of _ h]) simp
qed

theorem allocateHost_correct_witness:
  "allocateHost ''10.7.50.0/29'' None {0x0A073202} = Inr (''10.7.50.3'', None) \<and>
   (\<exists>n base h. ParseCIDR ''10.7.50.0/29'' = Some n \<and> Option.bind (To4 (n_IP n)) Uint32 = Some base \<and>
      ''10.7.50.3'' = IP_String (PutUint32 (base + h)) \<and> base + h \<notin> {0x0A073202} \<and>
      (\<forall>j. 2 \<le> j \<and> j < h \<longrightarrow> base + j \<in> {0x0A073202}) \<and>
      drop_bit (n_Bits n - n_Ones n) (base + h) = drop_bit (n_Bits n - n_Ones n) base \<and>
      base + h \<notin> {base, base + 1, base OR mask (n_Bits n - n_Ones n)})"
proof -
  have run: "allocateHost ''10.7.50.0/29'' None {0x0A073202} = Inr (''10.7.50.3'', None)" by code_simp
  show ?thesis by (rule conjI[OF run allocateHost_correct[OF run]])
qed

text \<open>
  On an IPv4 subnet the allocator reports a full gateway exactly when
  every host number from 2 up to the one before the broadcast address is in use; so it finds an
  address whenever one is free.
\<close>

theorem allocateHost_full_iff:
  assumes "ParseCIDR c = Some n" "Option.bind (To4 (n_IP n)) Uint32 = Some base"
  shows "allocateHost c c6 used = Inl ErrGatewayFull \<longleftrightarrow>
           {base + h | h. 2 \<le> h \<and> h < push_bit (n_Bits n - n_Ones n) 1 - 1} \<subseteq> used"
  using host_pool.alloc_None_iff[of base "push_bit (n_Bits n - n_Ones n) 1" used] assms
  by (cases "host_loop base (push_bit (n_Bits n - n_Ones n) 1) used 2")
     (auto simp: allocateHost_def Let_def)

theorem allocateHost_full_iff_witness:
  "(allocateHost ''10.7.50.0/30'' None {} = Inl ErrGatewayFull) =
     ({0x0A073200 + h | h :: u32. 2 \<le> h \<and> h < push_bit (32 - 30) 1 - 1} \<subseteq> {})"
proof -
  have "ParseCIDR ''10.7.50.0/30'' = Some \<lparr>n_IP = [10, 7, 50, 0], n_Ones = 30, n_Bits = 32\<rparr>" by code_simp
  moreover have "Option.bind (To4 [10, 7, 50, 0]) Uint32 = Some 0x0A073200" by code_simp
  ultimately show ?thesis
    using allocateHost_full_iff[of "''10.7.50.0/30''"
        "\<lparr>n_IP = [10, 7, 50, 0], n_Ones = 30, n_Bits = 32\<rparr>" "0x0A073200" None "{}"] by simp
qed



end
