(* ===== verification/Database.thy ===== *)
theory Database
  imports Model Store_Alloc "HOL-Library.Product_Lexorder"
begin

text \<open>
  The PostgreSQL schema of \<^verbatim>\<open>internal/store/migrations\<close> as the store sees it: one record
  per table row, a database as the lists of rows, the constraints of the schema as a
  predicate, and the statements' building blocks. The server itself is a parameter: its clock,
  its generated ids, the order of unordered query results, the sort keys of its text collation,
  its reading of a \<open>cidr\<close> literal
  and the outcome of every statement (a lost connection, a cancelled context or a value a column's
  type cannot hold makes it fail) come in the record \<open>env\<close>, one per call of the store.
\<close>

section \<open>Time in statements\<close>

text \<open>\<open>make_interval(secs => s)\<close>, which keeps microseconds.\<close>

definition make_interval :: "rat \<Rightarrow> duration" where
  "make_interval s = round_half_even (f64_mul s 1000000) * 1000"


section \<open>Rows\<close>

record user_row =
  usr_id :: string
  usr_email :: string
  usr_display_name :: "string option"
  usr_status :: string
  usr_created_at :: instant
  usr_password_hash :: "string option"

record invite_row =
  inv_code :: string
  inv_note :: "string option"
  inv_used_by :: "string option"
  inv_expires_at :: "instant option"
  inv_used_at :: "instant option"
  inv_created_at :: instant

record device_row =
  dev_id :: string
  dev_user_id :: string
  dev_name :: string
  dev_platform :: string
  dev_public_key :: string
  dev_created_at :: instant
  dev_last_seen_at :: "instant option"
  dev_revoked_at :: "instant option"

record location_row =
  loc_id :: string
  loc_code :: string
  loc_country_name :: string
  loc_enabled :: bool

record gateway_row =
  gw_id :: string
  gw_location_id :: string
  gw_name :: string
  gw_city :: "string option"
  gw_region :: "string option"
  gw_public_key :: string
  gw_endpoint_host :: string
  gw_endpoint_port :: int
  gw_wg_subnet_v4 :: string
  gw_wg_subnet_v6 :: "string option"
  gw_capacity :: int
  gw_bandwidth_mbps :: "int option"
  gw_latitude :: "rat option"
  gw_longitude :: "rat option"
  gw_status :: gateway_status
  gw_active_peers :: int
  gw_cpu_pct :: rat
  gw_rx_bps :: int
  gw_tx_bps :: int
  gw_agent_token_hash :: "string option"
  gw_last_heartbeat_at :: "instant option"

datatype lease_state = LActive | LReleased | LExpired

record lease_row =
  le_id :: string
  le_gateway_id :: string
  le_device_id :: string
  le_client_public_key :: string
  le_assigned_ip_v4 :: string
  le_assigned_ip_v6 :: "string option"
  le_state :: lease_state
  le_created_at :: instant
  le_expires_at :: instant
  le_released_at :: "instant option"

record refresh_row =
  rt_id :: string
  rt_device_id :: string
  rt_token_hash :: string
  rt_created_at :: instant
  rt_expires_at :: instant
  rt_revoked_at :: "instant option"

record db =
  users :: "user_row list"
  invites :: "invite_row list"
  devices :: "device_row list"
  locations :: "location_row list"
  gateways :: "gateway_row list"
  leases :: "lease_row list"
  refresh_tokens :: "refresh_row list"

definition empty_db :: db where
  "empty_db = \<lparr>users = [], invites = [], devices = [], locations = [], gateways = [], leases = [],
               refresh_tokens = []\<rparr>"


section \<open>The server as a parameter\<close>

text \<open>
  A statement (a commit is one) is carried out, refused without effect, or carried out without
  the program hearing of it: the connection is lost or the context cancelled in between, and the
  driver reports an error.
\<close>

datatype outcome = Done | Refused | Unacknowledged

record env =
  e_now :: instant
  e_clock :: instant
  e_outcome :: "nat \<Rightarrow> outcome"
  e_uuid :: "nat \<Rightarrow> string"
  e_rand :: "nat \<Rightarrow> byte list option"
  e_order :: row_order
  e_cidr :: "string \<Rightarrow> string option"
  e_collate :: "string \<Rightarrow> nat list"

type_synonym 'a dbact = "(db, store_error, 'a) act"

text \<open>The \<open>k\<close>-th statement of a call, outside a transaction or within one.\<close>

definition stmt :: "env \<Rightarrow> nat \<Rightarrow> ('s, store_error, 'a) act \<Rightarrow> ('s, store_error, 'a) act" where
  "stmt e k m =
     (case e_outcome e k of
        Done \<Rightarrow> m
      | Refused \<Rightarrow> throw ErrDriver
      | Unacknowledged \<Rightarrow> (\<lambda>s. (Inl ErrDriver, snd (m s))))"

text \<open>
  A transaction whose commit is statement \<open>k\<close>, with the deferred rollback of the code: an
  error before the commit undoes everything, and so does a refused commit.
\<close>

definition tx :: "env \<Rightarrow> nat \<Rightarrow> ('s, store_error, 'a) act \<Rightarrow> ('s, store_error, 'a) act" where
  "tx e k m = (\<lambda>s.
     case m s of
       (Inl x, _) \<Rightarrow> (Inl x, s)
     | (Inr y, t) \<Rightarrow>
         (case e_outcome e k of
            Done \<Rightarrow> (Inr y, t)
          | Refused \<Rightarrow> (Inl ErrDriver, s)
          | Unacknowledged \<Rightarrow> (Inl ErrDriver, t)))"

lemma stmt_Inr_iff [act_simps]:
  "stmt e k m s = (Inr y, t) \<longleftrightarrow> e_outcome e k = Done \<and> m s = (Inr y, t)"
  by (auto simp: stmt_def throw_def split: outcome.splits)

lemma stmt_Inl_iff [act_errs]:
  "stmt e k m s = (Inl x, t) \<longleftrightarrow>
     e_outcome e k = Done \<and> m s = (Inl x, t) \<or> e_outcome e k = Refused \<and> x = ErrDriver \<and> t = s \<or>
     e_outcome e k = Unacknowledged \<and> x = ErrDriver \<and> t = snd (m s)"
  by (auto simp: stmt_def throw_def split: outcome.splits)

lemma tx_Inr_iff [act_simps]:
  "tx e k m s = (Inr y, t) \<longleftrightarrow> e_outcome e k = Done \<and> m s = (Inr y, t)"
  by (auto simp: tx_def split: prod.splits sum.splits outcome.splits)

text \<open>A failed transaction left no trace, or its commit went through unacknowledged.\<close>

lemma tx_Inl:
  assumes "tx e k m s = (Inl x, t)"
  shows "t = s \<or> e_outcome e k = Unacknowledged \<and> (\<exists>y. m s = (Inr y, t))"
  using assms by (auto simp: tx_def split: prod.splits sum.splits outcome.splits)

lemma tx_InlE:
  assumes "tx e k m s = (Inl x, t)"
  obtains u where "m s = (Inl x, u)" "t = s" | "x = ErrDriver" "e_outcome e k \<noteq> Done"
  using assms by (auto simp: tx_def split: prod.splits sum.splits outcome.splits)

lemma keeps_stmt [keeps_intros]: "keeps I m \<Longrightarrow> keeps I (stmt e k m)"
  by (auto simp: stmt_def keeps_def throw_def split: outcome.splits)

lemma keeps_tx [keeps_intros]: "keeps I m \<Longrightarrow> keeps I (tx e k m)"
  by (fastforce simp: keeps_def tx_def split: prod.splits sum.splits outcome.splits)

text \<open>A transaction keeps what its complete runs keep.\<close>

lemma keeps_txI:
  assumes "\<And>s x t. I s \<Longrightarrow> m s = (Inr x, t) \<Longrightarrow> I t"
  shows "keeps I (tx e k m)"
  using assms by (fastforce simp: keeps_def tx_def split: prod.splits sum.splits outcome.splits)

text \<open>\<open>UPDATE t SET f WHERE p\<close> returns the number of rows it changed.\<close>

definition exec_update ::
  "(db \<Rightarrow> 'r list) \<Rightarrow> ('r list \<Rightarrow> db \<Rightarrow> db) \<Rightarrow> ('r \<Rightarrow> bool) \<Rightarrow> ('r \<Rightarrow> 'r) \<Rightarrow> nat dbact" where
  "exec_update get put p f =
     (\<lambda>s. (Inr (count_where p (get s)), put (update_where p f (get s)) s))"

lemma exec_update_Inr_iff [act_simps]:
  "exec_update get put p f s = (Inr n, t) \<longleftrightarrow>
     n = count_where p (get s) \<and> t = put (update_where p f (get s)) s"
  by (auto simp: exec_update_def)

lemma exec_update_Inl_iff [act_errs]: "exec_update get put p f s = (Inl x, t) \<longleftrightarrow> False"
  by (simp add: exec_update_def)

abbreviation update_users where "update_users \<equiv> exec_update users (\<lambda>rs s. s\<lparr>users := rs\<rparr>)"
abbreviation update_invites where "update_invites \<equiv> exec_update invites (\<lambda>rs s. s\<lparr>invites := rs\<rparr>)"
abbreviation update_devices where "update_devices \<equiv> exec_update devices (\<lambda>rs s. s\<lparr>devices := rs\<rparr>)"
abbreviation update_gateways where "update_gateways \<equiv> exec_update gateways (\<lambda>rs s. s\<lparr>gateways := rs\<rparr>)"
abbreviation update_leases where "update_leases \<equiv> exec_update leases (\<lambda>rs s. s\<lparr>leases := rs\<rparr>)"
abbreviation update_refresh where
  "update_refresh \<equiv> exec_update refresh_tokens (\<lambda>rs s. s\<lparr>refresh_tokens := rs\<rparr>)"


section \<open>Inserting rows under the schema's constraints\<close>

text \<open>
  PostgreSQL checks a new row's \<open>CHECK\<close> constraints first, then its unique indexes, then
  its foreign keys. A unique violation is told apart because \<open>insertDevice\<close> looks for it.
\<close>

definition insert_user :: "user_row \<Rightarrow> unit dbact" where
  "insert_user r = (\<lambda>s.
     if \<exists>u\<in>set (users s). usr_id u = usr_id r \<or> EqualFold (usr_email u) (usr_email r)
     then (Inl ErrUnique, s) else (Inr (), s\<lparr>users := users s @ [r]\<rparr>))"

definition insert_invite :: "invite_row \<Rightarrow> unit dbact" where
  "insert_invite r = (\<lambda>s.
     if \<exists>i\<in>set (invites s). inv_code i = inv_code r then (Inl ErrUnique, s)
     else (Inr (), s\<lparr>invites := invites s @ [r]\<rparr>))"

definition insert_device :: "device_row \<Rightarrow> unit dbact" where
  "insert_device r = (\<lambda>s.
     if \<not> ValidPlatform (dev_platform r) then (Inl ErrDriver, s)
     else if \<exists>d\<in>set (devices s). dev_id d = dev_id r \<or> dev_public_key d = dev_public_key r
     then (Inl ErrUnique, s)
     else if dev_user_id r \<notin> usr_id ` set (users s) then (Inl ErrDriver, s)
     else (Inr (), s\<lparr>devices := devices s @ [r]\<rparr>))"

definition insert_location :: "location_row \<Rightarrow> unit dbact" where
  "insert_location r = (\<lambda>s.
     if \<exists>l\<in>set (locations s). loc_id l = loc_id r \<or> loc_code l = loc_code r
     then (Inl ErrUnique, s) else (Inr (), s\<lparr>locations := locations s @ [r]\<rparr>))"

definition insert_gateway :: "gateway_row \<Rightarrow> unit dbact" where
  "insert_gateway r = (\<lambda>s.
     if gw_capacity r \<le> 0 then (Inl ErrDriver, s)
     else if \<exists>g\<in>set (gateways s). gw_id g = gw_id r \<or> gw_name g = gw_name r then (Inl ErrUnique, s)
     else if gw_location_id r \<notin> loc_id ` set (locations s) then (Inl ErrDriver, s)
     else (Inr (), s\<lparr>gateways := gateways s @ [r]\<rparr>))"

text \<open>\<open>uq_lease_gw_ip_active\<close>: at most one active lease per address on a gateway.\<close>

definition insert_lease :: "lease_row \<Rightarrow> unit dbact" where
  "insert_lease r = (\<lambda>s.
     if \<exists>l\<in>set (leases s). le_id l = le_id r \<or>
          (le_state l = LActive \<and> le_state r = LActive \<and> le_gateway_id l = le_gateway_id r \<and>
           le_assigned_ip_v4 l = le_assigned_ip_v4 r)
     then (Inl ErrUnique, s)
     else if le_gateway_id r \<notin> gw_id ` set (gateways s) \<or>
             le_device_id r \<notin> dev_id ` set (devices s) then (Inl ErrDriver, s)
     else (Inr (), s\<lparr>leases := leases s @ [r]\<rparr>))"

definition insert_refresh :: "refresh_row \<Rightarrow> unit dbact" where
  "insert_refresh r = (\<lambda>s.
     if \<exists>t\<in>set (refresh_tokens s). rt_id t = rt_id r \<or> rt_token_hash t = rt_token_hash r
     then (Inl ErrUnique, s)
     else if rt_device_id r \<notin> dev_id ` set (devices s) then (Inl ErrDriver, s)
     else (Inr (), s\<lparr>refresh_tokens := refresh_tokens s @ [r]\<rparr>))"


section \<open>The schema's constraints\<close>

definition active :: "lease_row \<Rightarrow> bool" where
  "active l \<longleftrightarrow> le_state l = LActive"

definition schema_ok :: "db \<Rightarrow> bool" where
  "schema_ok s \<longleftrightarrow>
     distinct (map usr_id (users s)) \<and> distinct (map (map to_lower \<circ> usr_email) (users s)) \<and>
     distinct (map inv_code (invites s)) \<and>
     distinct (map dev_id (devices s)) \<and> distinct (map dev_public_key (devices s)) \<and>
     (\<forall>d\<in>set (devices s). ValidPlatform (dev_platform d) \<and> dev_user_id d \<in> usr_id ` set (users s)) \<and>
     distinct (map loc_id (locations s)) \<and> distinct (map loc_code (locations s)) \<and>
     distinct (map gw_id (gateways s)) \<and> distinct (map gw_name (gateways s)) \<and>
     (\<forall>g\<in>set (gateways s). 0 < gw_capacity g \<and> gw_location_id g \<in> loc_id ` set (locations s)) \<and>
     distinct (map le_id (leases s)) \<and>
     distinct (map (\<lambda>l. (le_gateway_id l, le_assigned_ip_v4 l)) (filter active (leases s))) \<and>
     (\<forall>l\<in>set (leases s). le_gateway_id l \<in> gw_id ` set (gateways s) \<and>
                         le_device_id l \<in> dev_id ` set (devices s)) \<and>
     distinct (map rt_id (refresh_tokens s)) \<and> distinct (map rt_token_hash (refresh_tokens s)) \<and>
     (\<forall>t\<in>set (refresh_tokens s). rt_device_id t \<in> dev_id ` set (devices s))"

lemma schema_ok_empty: "schema_ok empty_db"
  by (simp add: schema_ok_def empty_db_def)

lemmas insert_defs = insert_user_def insert_invite_def insert_device_def insert_location_def
  insert_gateway_def insert_lease_def insert_refresh_def

lemma keeps_schema_insert_user [keeps_intros]: "keeps schema_ok (insert_user r)"
  by (rule keepsI) (auto simp: insert_user_def schema_ok_def EqualFold_def image_iff)

lemma keeps_schema_insert_invite [keeps_intros]: "keeps schema_ok (insert_invite r)"
  by (rule keepsI) (auto simp: insert_invite_def schema_ok_def)

lemma keeps_schema_insert_device [keeps_intros]: "keeps schema_ok (insert_device r)"
  by (rule keepsI) (auto simp: insert_device_def schema_ok_def)

lemma keeps_schema_insert_location [keeps_intros]: "keeps schema_ok (insert_location r)"
  by (rule keepsI) (auto simp: insert_location_def schema_ok_def image_iff)

lemma keeps_schema_insert_gateway [keeps_intros]: "keeps schema_ok (insert_gateway r)"
  by (rule keepsI) (auto simp: insert_gateway_def schema_ok_def)

lemma keeps_schema_insert_lease [keeps_intros]: "keeps schema_ok (insert_lease r)"
  by (rule keepsI) (auto simp: insert_lease_def schema_ok_def active_def)

lemma keeps_schema_insert_refresh [keeps_intros]: "keeps schema_ok (insert_refresh r)"
  by (rule keepsI) (auto simp: insert_refresh_def schema_ok_def)

text \<open>Updates that leave the keys alone keep the constraints.\<close>

lemma keeps_schema_update_users:
  assumes "\<And>r. p r \<Longrightarrow> usr_id (f r) = usr_id r" "\<And>r. p r \<Longrightarrow> usr_email (f r) = usr_email r"
  shows "keeps schema_ok (update_users p f)"
  using assms
  by (intro keepsI) (simp add: schema_ok_def exec_update_def map_update_where_same image_update_where_same)

lemma keeps_schema_update_invites:
  assumes "\<And>r. p r \<Longrightarrow> inv_code (f r) = inv_code r"
  shows "keeps schema_ok (update_invites p f)"
  using assms by (intro keepsI) (simp add: schema_ok_def exec_update_def map_update_where_same)

lemma keeps_schema_update_devices:
  assumes "\<And>r. p r \<Longrightarrow> dev_id (f r) = dev_id r" "\<And>r. p r \<Longrightarrow> dev_public_key (f r) = dev_public_key r"
    and "\<And>r. p r \<Longrightarrow> dev_user_id (f r) = dev_user_id r" "\<And>r. p r \<Longrightarrow> dev_platform (f r) = dev_platform r"
  shows "keeps schema_ok (update_devices p f)"
  using assms
  by (intro keepsI) (auto simp: schema_ok_def exec_update_def map_update_where_same
      image_update_where_same ball_update_where)

lemma schema_ok_update_gateways:
  assumes "\<And>r. p r \<Longrightarrow> gw_id (f r) = gw_id r" "\<And>r. p r \<Longrightarrow> gw_name (f r) = gw_name r"
    and "\<And>r. r \<in> set (gateways s) \<Longrightarrow> p r \<Longrightarrow> 0 < gw_capacity (f r)"
    and "\<And>r. r \<in> set (gateways s) \<Longrightarrow> p r \<Longrightarrow> gw_location_id (f r) \<in> loc_id ` set (locations s)"
    and "schema_ok s"
  shows "schema_ok (s\<lparr>gateways := update_where p f (gateways s)\<rparr>)"
  using assms
  by (auto simp: schema_ok_def map_update_where_same image_update_where_same ball_update_where)

lemma keeps_schema_update_gateways:
  assumes "\<And>r. p r \<Longrightarrow> gw_id (f r) = gw_id r" "\<And>r. p r \<Longrightarrow> gw_name (f r) = gw_name r"
    and "\<And>r. p r \<Longrightarrow> gw_capacity (f r) = gw_capacity r"
    and "\<And>r. p r \<Longrightarrow> gw_location_id (f r) = gw_location_id r"
  shows "keeps schema_ok (update_gateways p f)"
proof (rule keepsI)
  fix s assume s: "schema_ok s"
  then have "\<forall>g\<in>set (gateways s). 0 < gw_capacity g \<and> gw_location_id g \<in> loc_id ` set (locations s)"
    by (simp add: schema_ok_def)
  then show "schema_ok (snd (update_gateways p f s))"
    using schema_ok_update_gateways[of p f s] assms s by (simp add: exec_update_def)
qed

lemma keeps_schema_update_leases:
  assumes "\<And>r. p r \<Longrightarrow> le_id (f r) = le_id r" "\<And>r. p r \<Longrightarrow> le_gateway_id (f r) = le_gateway_id r"
    and "\<And>r. p r \<Longrightarrow> le_device_id (f r) = le_device_id r"
    and "\<And>r. p r \<Longrightarrow> le_assigned_ip_v4 (f r) = le_assigned_ip_v4 r"
    and "\<And>r. p r \<Longrightarrow> active (f r) \<Longrightarrow> active r"
  shows "keeps schema_ok (update_leases p f)"
  using assms
  by (intro keepsI) (auto simp: schema_ok_def exec_update_def map_update_where_same ball_update_where
      intro!: distinct_filter_update_where)

lemma keeps_schema_update_refresh:
  assumes "\<And>r. p r \<Longrightarrow> rt_id (f r) = rt_id r" "\<And>r. p r \<Longrightarrow> rt_token_hash (f r) = rt_token_hash r"
    and "\<And>r. p r \<Longrightarrow> rt_device_id (f r) = rt_device_id r"
  shows "keeps schema_ok (update_refresh p f)"
  using assms
  by (intro keepsI) (auto simp: schema_ok_def exec_update_def map_update_where_same ball_update_where)

lemmas keeps_schema_updates = keeps_schema_update_users keeps_schema_update_invites
  keeps_schema_update_devices keeps_schema_update_gateways keeps_schema_update_leases
  keeps_schema_update_refresh

section \<open>What the program adds to the schema\<close>

text \<open>
  The schema does not say that a device has at most one active lease, that an address is the
  canonical text of an IPv4 address, or that a lease carries its device's key. The operations do.
\<close>

definition lease_inv :: "db \<Rightarrow> bool" where
  "lease_inv s \<longleftrightarrow>
     distinct (map le_device_id (filter active (leases s))) \<and>
     (\<forall>l\<in>set (leases s).
        (\<exists>a. le_assigned_ip_v4 l = IP_String (PutUint32 a)) \<and>
        (le_device_id l, le_client_public_key l) \<in> (\<lambda>d. (dev_id d, dev_public_key d)) ` set (devices s))"

definition store_inv :: "db \<Rightarrow> bool" where
  "store_inv s \<longleftrightarrow> schema_ok s \<and> lease_inv s"

lemma keeps_store_inv [keeps_intros]:
  "keeps schema_ok m \<Longrightarrow> keeps lease_inv m \<Longrightarrow> keeps store_inv m"
  by (simp add: keeps_def store_inv_def)

lemma store_inv_empty: "store_inv empty_db"
  using schema_ok_empty by (simp add: store_inv_def lease_inv_def empty_db_def)

text \<open>Statements on other tables.\<close>

lemma keeps_lease_frame:
  assumes "\<And>s. leases (snd (m s)) = leases s" "\<And>s. devices (snd (m s)) = devices s"
  shows "keeps lease_inv m"
  using assms by (simp add: keeps_def lease_inv_def)

lemma keeps_lease_inserts [keeps_intros]:
  "keeps lease_inv (insert_user u)" "keeps lease_inv (insert_invite i)"
  "keeps lease_inv (insert_location l)" "keeps lease_inv (insert_gateway g)"
  "keeps lease_inv (insert_refresh t)"
  by (rule keeps_lease_frame; simp add: insert_defs)+

lemma keeps_lease_updates [keeps_intros]:
  "keeps lease_inv (update_users p1 f1)" "keeps lease_inv (update_invites p2 f2)"
  "keeps lease_inv (update_gateways p3 f3)" "keeps lease_inv (update_refresh p4 f4)"
  by (rule keeps_lease_frame; simp add: exec_update_def)+

lemma keeps_lease_insert_device [keeps_intros]: "keeps lease_inv (insert_device r)"
  by (rule keepsI) (auto simp: insert_device_def lease_inv_def)

lemma keeps_lease_update_devices:
  assumes "\<And>r. p r \<Longrightarrow> dev_id (f r) = dev_id r" "\<And>r. p r \<Longrightarrow> dev_public_key (f r) = dev_public_key r"
  shows "keeps lease_inv (update_devices p f)"
  using assms by (intro keepsI) (simp add: lease_inv_def exec_update_def image_update_where_same)

lemma keeps_lease_update_leases:
  assumes "\<And>r. p r \<Longrightarrow> le_device_id (f r) = le_device_id r"
    and "\<And>r. p r \<Longrightarrow> le_client_public_key (f r) = le_client_public_key r"
    and "\<And>r. p r \<Longrightarrow> le_assigned_ip_v4 (f r) = le_assigned_ip_v4 r"
    and "\<And>r. p r \<Longrightarrow> active (f r) \<Longrightarrow> active r"
  shows "keeps lease_inv (update_leases p f)"
  using assms
  by (intro keepsI) (auto simp: lease_inv_def exec_update_def ball_update_where
      intro!: distinct_filter_update_where)

text \<open>A statement whose condition reads the state.\<close>

lemma keeps_update_reader:
  "(\<And>u. keeps I (exec_update get put (p u) f)) \<Longrightarrow> keeps I (\<lambda>s. exec_update get put (p s) f s)"
  by (simp add: keeps_def)

lemmas keeps_updates = keeps_schema_updates keeps_lease_updates keeps_lease_update_devices
  keeps_lease_update_leases

text \<open>Look-ups by key.\<close>

lemma device_unique:
  "schema_ok s \<Longrightarrow> d \<in> set (devices s) \<Longrightarrow> d' \<in> set (devices s) \<Longrightarrow> dev_id d = dev_id d' \<Longrightarrow> d = d'"
  unfolding schema_ok_def by (meson distinct_map_filter_inj)

lemma gateway_unique:
  "schema_ok s \<Longrightarrow> g \<in> set (gateways s) \<Longrightarrow> g' \<in> set (gateways s) \<Longrightarrow> gw_id g = gw_id g' \<Longrightarrow> g = g'"
  unfolding schema_ok_def by (meson distinct_map_filter_inj)

lemma location_unique:
  "schema_ok s \<Longrightarrow> l \<in> set (locations s) \<Longrightarrow> l' \<in> set (locations s) \<Longrightarrow> loc_id l = loc_id l' \<Longrightarrow> l = l'"
  unfolding schema_ok_def by (meson distinct_map_filter_inj)

lemma lease_unique:
  "schema_ok s \<Longrightarrow> l \<in> set (leases s) \<Longrightarrow> l' \<in> set (leases s) \<Longrightarrow> le_id l = le_id l' \<Longrightarrow> l = l'"
  unfolding schema_ok_def by (meson distinct_map_filter_inj)

lemma active_lease_unique:
  assumes "lease_inv s" "l \<in> set (leases s)" "l' \<in> set (leases s)" "active l" "active l'"
    and "le_device_id l = le_device_id l'"
  shows "l = l'"
  using assms distinct_map_filter_inj[of le_device_id "filter active (leases s)" l l']
  by (simp add: lease_inv_def)

lemma active_address_unique:
  assumes "schema_ok s" "l \<in> set (leases s)" "l' \<in> set (leases s)" "active l" "active l'"
    and "le_gateway_id l = le_gateway_id l'" "le_assigned_ip_v4 l = le_assigned_ip_v4 l'"
  shows "l = l'"
  using assms distinct_map_filter_inj[of "\<lambda>l. (le_gateway_id l, le_assigned_ip_v4 l)"
      "filter active (leases s)" l l']
  by (simp add: schema_ok_def)


section \<open>What the operations rely on\<close>

text \<open>
  The operations of the store use the tables in few ways: they add rows, and they change rows
  without touching keys, never taking back a use, a revocation or the end of a lease. A property
  that is kept by such statements is kept by the operations, which is shown once, in this locale,
  next to each operation.
\<close>

locale statements =
  fixes I :: "db \<Rightarrow> bool"
  assumes insert_user_kept: "keeps I (insert_user u)"
    and insert_invite_kept: "keeps I (insert_invite i)"
    and insert_device_kept: "keeps I (insert_device d)"
    and insert_refresh_kept: "keeps I (insert_refresh t)"
    and users_kept: "(\<And>r. usr_id (f1 r) = usr_id r) \<Longrightarrow> (\<And>r. usr_email (f1 r) = usr_email r) \<Longrightarrow>
          keeps I (update_users p1 f1)"
    and invites_kept: "(\<And>r. inv_code (f2 r) = inv_code r) \<Longrightarrow> (\<And>r. inv_used_at (f2 r) = None \<Longrightarrow> inv_used_at r = None) \<Longrightarrow>
          keeps I (update_invites p2 f2)"
    and devices_kept: "(\<And>r. dev_id (f3 r) = dev_id r) \<Longrightarrow> (\<And>r. dev_user_id (f3 r) = dev_user_id r) \<Longrightarrow>
          (\<And>r. dev_public_key (f3 r) = dev_public_key r) \<Longrightarrow> (\<And>r. dev_platform (f3 r) = dev_platform r) \<Longrightarrow>
          (\<And>r. dev_revoked_at (f3 r) = None \<Longrightarrow> dev_revoked_at r = None) \<Longrightarrow> keeps I (update_devices p3 f3)"
    and gateways_kept: "(\<And>r. gw_id (f4 r) = gw_id r) \<Longrightarrow> (\<And>r. gw_name (f4 r) = gw_name r) \<Longrightarrow>
          (\<And>r. gw_capacity (f4 r) = gw_capacity r) \<Longrightarrow> (\<And>r. gw_location_id (f4 r) = gw_location_id r) \<Longrightarrow>
          keeps I (update_gateways p4 f4)"
    and leases_kept: "(\<And>r. le_id (f5 r) = le_id r) \<Longrightarrow> (\<And>r. le_gateway_id (f5 r) = le_gateway_id r) \<Longrightarrow>
          (\<And>r. le_device_id (f5 r) = le_device_id r) \<Longrightarrow> (\<And>r. le_client_public_key (f5 r) = le_client_public_key r) \<Longrightarrow>
          (\<And>r. le_assigned_ip_v4 (f5 r) = le_assigned_ip_v4 r) \<Longrightarrow> (\<And>r. le_assigned_ip_v6 (f5 r) = le_assigned_ip_v6 r) \<Longrightarrow>
          (\<And>r. active (f5 r) \<Longrightarrow> active r) \<Longrightarrow>
          keeps I (update_leases p5 f5)"
    and refresh_kept: "(\<And>r. rt_id (f6 r) = rt_id r) \<Longrightarrow> (\<And>r. rt_token_hash (f6 r) = rt_token_hash r) \<Longrightarrow>
          (\<And>r. rt_device_id (f6 r) = rt_device_id r) \<Longrightarrow>
          (\<And>r. rt_revoked_at (f6 r) = None \<Longrightarrow> rt_revoked_at r = None) \<Longrightarrow> keeps I (update_refresh p6 f6)"

interpretation inv: statements store_inv
  by unfold_locales (intro keeps_store_inv keeps_intros keeps_updates; simp)+

end
