(* ===== verification/Store_Gateways.thy ===== *)
theory Store_Gateways
  imports Database Auth
begin

text \<open>
  \<^verbatim>\<open>internal/store/gateways.go\<close>: the registry of gateways. Each operation takes the
  environment of its call; statements are numbered in the order the code issues them.
\<close>

section \<open>Helpers\<close>

definition nilIfEmpty :: "string \<Rightarrow> string option" where
  "nilIfEmpty s = (if s = '''' then None else Some s)"

definition nilIfZero :: "int \<Rightarrow> int option" where
  "nilIfZero n = (if n = 0 then None else Some n)"

text \<open>\<open>last_heartbeat_at >= now() - make_interval(secs => ttl)\<close>; a missing heartbeat is not fresh.\<close>

definition heartbeat_fresh :: "env \<Rightarrow> duration \<Rightarrow> gateway_row \<Rightarrow> bool" where
  "heartbeat_fresh e ttl g \<longleftrightarrow>
     (case gw_last_heartbeat_at g of
        None \<Rightarrow> False | Some t \<Rightarrow> e_now e - make_interval (Seconds ttl) \<le> t)"


section \<open>Registration\<close>

text \<open>\<open>INSERT INTO locations ... ON CONFLICT (code) DO UPDATE ... RETURNING id\<close>.\<close>

definition upsert_location :: "env \<Rightarrow> string \<Rightarrow> string \<Rightarrow> string dbact" where
  "upsert_location e code country = (\<lambda>s.
     case find (\<lambda>l. loc_code l = code) (locations s) of
       Some l \<Rightarrow>
         (Inr (loc_id l),
          s\<lparr>locations := update_where (\<lambda>l. loc_code l = code) (\<lambda>l. l\<lparr>loc_country_name := country\<rparr>)
                         (locations s)\<rparr>)
     | None \<Rightarrow>
         andThen (insert_location \<lparr>loc_id = e_uuid e 0, loc_code = code, loc_country_name = country,
                                   loc_enabled = True\<rparr>)
           (\<lambda>_. ret (e_uuid e 0)) s)"

text \<open>
  The row a registration proposes. The columns it does not name take their defaults.
\<close>

definition proposed_gateway ::
  "env \<Rightarrow> gateway_registration \<Rightarrow> string \<Rightarrow> string \<Rightarrow> string \<Rightarrow> string option \<Rightarrow> gateway_row" where
  "proposed_gateway e r locationID tokenHash net4 net6 =
     \<lparr>gw_id = e_uuid e 1, gw_location_id = locationID, gw_name = r_Name r,
      gw_city = nilIfEmpty (r_City r), gw_region = nilIfEmpty (r_Region r),
      gw_public_key = r_PublicKey r, gw_endpoint_host = r_EndpointHost r,
      gw_endpoint_port = r_EndpointPort r, gw_wg_subnet_v4 = net4, gw_wg_subnet_v6 = net6,
      gw_capacity = r_Capacity r, gw_bandwidth_mbps = nilIfZero (r_BandwidthMbps r),
      gw_latitude = r_Latitude r, gw_longitude = r_Longitude r, gw_status = GatewayPending,
      gw_active_peers = 0, gw_cpu_pct = 0, gw_rx_bps = 0, gw_tx_bps = 0,
      gw_agent_token_hash = Some tokenHash, gw_last_heartbeat_at = None\<rparr>"

text \<open>\<open>ON CONFLICT (name) DO UPDATE\<close>: id, live metrics and last heartbeat stay.\<close>

definition reregister :: "gateway_row \<Rightarrow> gateway_row \<Rightarrow> gateway_row" where
  "reregister x g =
     g\<lparr>gw_location_id := gw_location_id x, gw_city := gw_city x, gw_region := gw_region x,
       gw_public_key := gw_public_key x, gw_endpoint_host := gw_endpoint_host x,
       gw_endpoint_port := gw_endpoint_port x, gw_wg_subnet_v4 := gw_wg_subnet_v4 x,
       gw_wg_subnet_v6 := gw_wg_subnet_v6 x, gw_capacity := gw_capacity x,
       gw_bandwidth_mbps := gw_bandwidth_mbps x, gw_latitude := gw_latitude x,
       gw_longitude := gw_longitude x, gw_status := GatewayPending,
       gw_agent_token_hash := gw_agent_token_hash x\<rparr>"

definition upsert_gateway :: "gateway_row \<Rightarrow> string dbact" where
  "upsert_gateway x = (\<lambda>s.
     if gw_capacity x \<le> 0 then (Inl ErrDriver, s)
     else case find (\<lambda>g. gw_name g = gw_name x) (gateways s) of
       Some g \<Rightarrow>
         if gw_location_id x \<notin> loc_id ` set (locations s) then (Inl ErrDriver, s)
         else (Inr (gw_id g),
               s\<lparr>gateways := update_where (\<lambda>g. gw_name g = gw_name x) (reregister x) (gateways s)\<rparr>)
     | None \<Rightarrow> andThen (insert_gateway x) (\<lambda>_. ret (gw_id x)) s)"

text \<open>The \<open>cidr\<close> literals of the statement: an empty IPv6 subnet is NULL.\<close>

definition subnet_literals :: "env \<Rightarrow> gateway_registration \<Rightarrow> (string \<times> string option) option" where
  "subnet_literals e r =
     (case e_cidr e (r_WGSubnetV4 r) of
        None \<Rightarrow> None
      | Some n4 \<Rightarrow>
          (case nilIfEmpty (r_WGSubnetV6 r) of
             None \<Rightarrow> Some (n4, None)
           | Some t \<Rightarrow> map_option (\<lambda>n6. (n4, Some n6)) (e_cidr e t)))"

definition registered_gateway :: "gateway_registration \<Rightarrow> string \<Rightarrow> string \<Rightarrow> gateway" where
  "registered_gateway r locationID gid =
     zero_gateway\<lparr>g_ID := gid, g_LocationID := locationID, g_LocationCode := r_CountryCode r,
       g_CountryName := r_CountryName r, g_Name := r_Name r, g_City := r_City r,
       g_Region := r_Region r, g_PublicKey := r_PublicKey r, g_EndpointHost := r_EndpointHost r,
       g_EndpointPort := r_EndpointPort r, g_Capacity := r_Capacity r,
       g_BandwidthMbps := r_BandwidthMbps r, g_Latitude := r_Latitude r,
       g_Longitude := r_Longitude r, g_Status := GatewayPending\<rparr>"

definition RegisterGateway :: "env \<Rightarrow> gateway_registration \<Rightarrow> (gateway \<times> string) dbact" where
  "RegisterGateway e r =
     (case GenerateToken (e_rand e 0) of
        None \<Rightarrow> throw ErrRand
      | Some tokenPlain \<Rightarrow>
          (let tokenHash = HashToken tokenPlain
           in tx e 3 (
                andThen (stmt e 0 (ret ())) (\<lambda>_.
                andThen (stmt e 1 (upsert_location e (r_CountryCode r) (r_CountryName r))) (\<lambda>locationID.
                andThen (stmt e 2 (case subnet_literals e r of
                                     None \<Rightarrow> throw ErrDriver
                                   | Some (net4, net6) \<Rightarrow>
                                       upsert_gateway (proposed_gateway e r locationID tokenHash net4 net6)))
                  (\<lambda>gid.
                ret (registered_gateway r locationID gid, tokenPlain)))))))"


section \<open>Heartbeat, deregistration, staleness\<close>

definition token_live :: "string \<Rightarrow> gateway_row \<Rightarrow> bool" where
  "token_live tokenHash g \<longleftrightarrow> gw_agent_token_hash g = Some tokenHash \<and> gw_status g \<noteq> GatewayDisabled"

definition beat :: "env \<Rightarrow> gateway_metrics \<Rightarrow> gateway_row \<Rightarrow> gateway_row" where
  "beat e m g =
     g\<lparr>gw_active_peers := m_ActivePeers m, gw_cpu_pct := m_CPUPct m, gw_rx_bps := m_RxBps m,
       gw_tx_bps := m_TxBps m, gw_last_heartbeat_at := Some (e_now e), gw_status := GatewayHealthy\<rparr>"

definition Heartbeat :: "env \<Rightarrow> string \<Rightarrow> gateway_metrics \<Rightarrow> gateway dbact" where
  "Heartbeat e tokenHash m =
     andThen (stmt e 0 (\<lambda>s.
       (Inr (in_order (e_order e) (filter (token_live tokenHash) (gateways s))),
        s\<lparr>gateways := update_where (token_live tokenHash) (beat e m) (gateways s)\<rparr>)))
     (\<lambda>returned. case returned of
        [] \<Rightarrow> throw ErrInvalidToken
      | g # _ \<Rightarrow> ret (zero_gateway\<lparr>g_ID := gw_id g, g_Name := gw_name g, g_Status := GatewayHealthy\<rparr>))"

definition DeregisterGateway :: "env \<Rightarrow> string \<Rightarrow> unit dbact" where
  "DeregisterGateway e tokenHash =
     andThen (stmt e 0 (update_gateways (\<lambda>g. gw_agent_token_hash g = Some tokenHash)
                          (\<lambda>g. g\<lparr>gw_status := GatewayDisabled\<rparr>)))
       (\<lambda>affected. failIf (affected = 0) ErrInvalidToken)"

definition stale :: "env \<Rightarrow> duration \<Rightarrow> gateway_row \<Rightarrow> bool" where
  "stale e ttl g \<longleftrightarrow>
     gw_status g = GatewayHealthy \<and>
     (case gw_last_heartbeat_at g of
        None \<Rightarrow> True | Some t \<Rightarrow> t < e_now e - make_interval (Seconds ttl))"

definition MarkStaleUnhealthy :: "env \<Rightarrow> duration \<Rightarrow> nat dbact" where
  "MarkStaleUnhealthy e ttl =
     stmt e 0 (update_gateways (stale e ttl) (\<lambda>g. g\<lparr>gw_status := GatewayUnhealthy\<rparr>))"


section \<open>Queries\<close>

definition gateway_join :: "db \<Rightarrow> (gateway_row \<times> location_row) list" where
  "gateway_join s = [(g, l). g \<leftarrow> gateways s, l \<leftarrow> locations s, loc_id l = gw_location_id g]"

definition coalesce :: "'a \<Rightarrow> 'a option \<Rightarrow> 'a" where
  "coalesce d v = (case v of None \<Rightarrow> d | Some x \<Rightarrow> x)"

definition scanGateway :: "gateway_row \<times> location_row \<Rightarrow> gateway" where
  "scanGateway row = (case row of (g, l) \<Rightarrow>
     \<lparr>g_ID = gw_id g, g_LocationID = loc_id l, g_LocationCode = loc_code l,
      g_CountryName = loc_country_name l, g_Name = gw_name g, g_City = coalesce '''' (gw_city g),
      g_Region = coalesce '''' (gw_region g), g_PublicKey = gw_public_key g,
      g_EndpointHost = gw_endpoint_host g, g_EndpointPort = gw_endpoint_port g,
      g_Capacity = gw_capacity g, g_BandwidthMbps = coalesce 0 (gw_bandwidth_mbps g),
      g_Latitude = gw_latitude g, g_Longitude = gw_longitude g, g_Status = gw_status g,
      g_ActivePeers = gw_active_peers g, g_CPUPct = gw_cpu_pct g, g_RxBps = gw_rx_bps g,
      g_TxBps = gw_tx_bps g, g_LastHeartbeatAt = gw_last_heartbeat_at g\<rparr>)"

definition ListGateways :: "env \<Rightarrow> gateway list dbact" where
  "ListGateways e =
     stmt e 0 (gets (\<lambda>s. map scanGateway
       (sort_key (\<lambda>(g, l). (e_collate e (loc_country_name l), e_collate e (gw_name g)))
         (in_order (e_order e) (gateway_join s)))))"

definition SelectableGateways :: "env \<Rightarrow> string \<Rightarrow> duration \<Rightarrow> gateway list dbact" where
  "SelectableGateways e countryCode ttl =
     stmt e 0 (gets (\<lambda>s. map scanGateway
       (in_order (e_order e)
         (filter (\<lambda>(g, l). loc_code l = countryCode \<and> loc_enabled l \<and> gw_status g = GatewayHealthy \<and>
                            heartbeat_fresh e ttl g \<and> gw_active_peers g < gw_capacity g)
           (gateway_join s)))))"

section \<open>Invariants\<close>

lemma keeps_upsert_location [keeps_intros]: "keeps store_inv (upsert_location e code country)"
proof (rule keepsI)
  fix s assume s: "store_inv s"
  show "store_inv (snd (upsert_location e code country s))"
  proof (cases "find (\<lambda>l. loc_code l = code) (locations s)")
    case None
    have "keeps store_inv (andThen (insert_location \<lparr>loc_id = e_uuid e 0, loc_code = code,
            loc_country_name = country, loc_enabled = True\<rparr>) (\<lambda>_. ret (e_uuid e 0) :: string dbact))"
      by (intro keeps_intros)
    with None s show ?thesis by (simp add: upsert_location_def keepsD)
  next
    case (Some l)
    with s show ?thesis
      by (simp add: upsert_location_def store_inv_def schema_ok_def lease_inv_def
          map_update_where_same image_update_where_same)
  qed
qed

lemma keeps_upsert_gateway [keeps_intros]: "keeps store_inv (upsert_gateway x)"
proof (rule keepsI)
  fix s assume s: "store_inv s"
  show "store_inv (snd (upsert_gateway x s))"
  proof (cases "find (\<lambda>g. gw_name g = gw_name x) (gateways s)")
    case None
    have "keeps store_inv (andThen (insert_gateway x) (\<lambda>_. ret (gw_id x) :: string dbact))"
      by (intro keeps_intros)
    with None s show ?thesis by (simp add: upsert_gateway_def keepsD)
  next
    case (Some g)
    with s schema_ok_update_gateways[of "\<lambda>g. gw_name g = gw_name x" "reregister x" s]
    show ?thesis by (simp add: upsert_gateway_def store_inv_def reregister_def lease_inv_def)
  qed
qed

lemma keeps_RegisterGateway: "keeps store_inv (RegisterGateway e r)"
  unfolding RegisterGateway_def Let_def
  by (auto split: option.split prod.split intro!: keeps_throw keeps_tx keeps_andThen keeps_stmt
      keeps_ret keeps_upsert_location keeps_upsert_gateway)

context statements
begin

lemma Heartbeat_kept: "keeps I (Heartbeat e h m)"
proof -
  have "keeps I (update_gateways (token_live h) (beat e m))" by (rule gateways_kept) (simp_all add: beat_def)
  then have "keeps I (\<lambda>s. (Inr (in_order (e_order e) (filter (token_live h) (gateways s))),
               s\<lparr>gateways := update_where (token_live h) (beat e m) (gateways s)\<rparr>) :: (store_error + gateway_row list) \<times> db)"
    by (rule keeps_sndI[rotated]) (simp add: exec_update_def)
  then show ?thesis unfolding Heartbeat_def
    by (auto intro!: keeps_andThen keeps_stmt keeps_ret keeps_throw split: list.split)
qed

lemma DeregisterGateway_kept: "keeps I (DeregisterGateway e h)"
  unfolding DeregisterGateway_def by (intro keeps_intros gateways_kept) simp_all

lemma MarkStaleUnhealthy_kept: "keeps I (MarkStaleUnhealthy e ttl)"
  unfolding MarkStaleUnhealthy_def by (intro keeps_stmt gateways_kept) simp_all

end

lemmas keeps_Heartbeat = inv.Heartbeat_kept
lemmas keeps_DeregisterGateway = inv.DeregisterGateway_kept
lemmas keeps_MarkStaleUnhealthy = inv.MarkStaleUnhealthy_kept

lemma keeps_gateway_queries:
  "keeps I (ListGateways e)" "keeps I (SelectableGateways e c ttl)"
  unfolding ListGateways_def SelectableGateways_def by (intro keeps_intros)+

section \<open>The life of a gateway\<close>

lemma find_name_gateway:
  assumes "schema_ok s" "find (\<lambda>g. gw_name g = nm) (gateways s) = Some g"
  shows "g \<in> set (gateways s)" "gw_name g = nm"
    "\<And>g'. g' \<in> set (gateways s) \<Longrightarrow> gw_name g' = nm \<Longrightarrow> g' = g"
  using assms find_Some_set[OF assms(2)] distinct_map_filter_inj[of gw_name "gateways s"]
  by (auto simp: schema_ok_def)

lemma upsert_location_gateways:
  "upsert_location e code country s = (Inr lid, t) \<Longrightarrow> gateways t = gateways s \<and> leases t = leases s"
  by (auto simp: upsert_location_def insert_location_def andThen_def ret_def
      split: option.splits if_splits)

lemma upsert_gateway_Inr:
  assumes "schema_ok s" "upsert_gateway x s = (Inr gid, t)" "gw_status x = GatewayPending"
  obtains row where "row \<in> set (gateways t)" "gw_id row = gid" "gw_name row = gw_name x"
    "gw_status row = GatewayPending" "gw_agent_token_hash row = gw_agent_token_hash x"
    "gw_capacity row = gw_capacity x"
    "set (gateways t) = insert row {g \<in> set (gateways s). gw_name g \<noteq> gw_name x}"
proof (cases "find (\<lambda>g. gw_name g = gw_name x) (gateways s)")
  case None
  then have new: "\<forall>g\<in>set (gateways s). gw_name g \<noteq> gw_name x" by (auto simp: find_None_iff)
  have "gateways t = gateways s @ [x]" "gid = gw_id x"
    using assms(2) None
    by (auto simp: upsert_gateway_def insert_gateway_def andThen_def ret_def split: if_splits)
  moreover have "{g \<in> set (gateways s). gw_name g \<noteq> gw_name x} = set (gateways s)" using new by blast
  ultimately show thesis using assms(3) by (intro that[of x]) simp_all
next
  case (Some g)
  note g = find_name_gateway[OF assms(1) Some]
  have t: "gateways t = update_where (\<lambda>g. gw_name g = gw_name x) (reregister x) (gateways s)"
    "gid = gw_id g"
    using assms(2) Some by (auto simp: upsert_gateway_def split: if_splits)
  have "set (gateways t) = insert (reregister x g) {h \<in> set (gateways s). gw_name h \<noteq> gw_name x}"
    unfolding t(1) by (rule set_update_where_one[OF g(1)]) (use g in blast)+
  then show thesis using t(2) g(2) by (intro that[of "reregister x g"]) (simp_all add: reregister_def)
qed

lemma RegisterGateway_Inr:
  assumes "store_inv s" "RegisterGateway e r s = (Inr (g, tok), t)"
  obtains row where "row \<in> set (gateways t)" "gw_id row = g_ID g" "gw_name row = r_Name r"
    "gw_status row = GatewayPending" "gw_agent_token_hash row = Some (HashToken tok)"
    "gw_capacity row = r_Capacity r"
    "set (gateways t) = insert row {h \<in> set (gateways s). gw_name h \<noteq> r_Name r}"
proof -
  obtain lid u gid n4 n6 where u: "upsert_location e (r_CountryCode r) (r_CountryName r) s = (Inr lid, u)"
    "upsert_gateway (proposed_gateway e r lid (HashToken tok) n4 n6) u = (Inr gid, t)" "g_ID g = gid"
    using assms(2)
    by (auto simp: RegisterGateway_def Let_def registered_gateway_def act_simps split: option.splits)
  have "store_inv u" using keepsD[OF keeps_upsert_location assms(1)] u(1) by (metis snd_conv)
  then have "schema_ok u" by (simp add: store_inv_def)
  moreover have "gateways u = gateways s" using upsert_location_gateways[OF u(1)] by simp
  ultimately show thesis using u(3)
    by (elim upsert_gateway_Inr[OF _ u(2)]) (auto simp: proposed_gateway_def intro!: that)
qed

lemma in_order_Nil: "row_order_ok ord \<Longrightarrow> in_order ord [] = []"
  by (metis mset_in_order mset_zero_iff)

lemma in_order_Cons_iff:
  "row_order_ok ord \<Longrightarrow> (\<exists>x xs. in_order ord rs = x # xs) \<longleftrightarrow> rs \<noteq> []"
  by (metis in_order_Nil list.exhaust list.set_intros(1) list.distinct(1) set_in_order set_empty)

lemma Heartbeat_rejects:
  assumes "row_order_ok (e_order e)" "e_outcome e 0 = Done" "\<forall>g\<in>set (gateways s). \<not> token_live h g"
  shows "Heartbeat e h m s = (Inl ErrInvalidToken, s)"
  using assms
  by (simp add: Heartbeat_def stmt_def andThen_def throw_def update_where_none in_order_Nil)

text \<open>
  C31. A successful registration leaves exactly one gateway of the
  registered name: pending, with the declared capacity, carrying the hash of the returned
  token; every gateway of another name is as before.
\<close>

theorem RegisterGateway_correct:
  assumes "store_inv s" "RegisterGateway e r s = (Inr (g, tok), t)"
  shows "\<exists>row. gw_id row = g_ID g \<and> gw_name row = r_Name r \<and> gw_status row = GatewayPending \<and>
           gw_agent_token_hash row = Some (HashToken tok) \<and> gw_capacity row = r_Capacity r \<and>
           set (gateways t) = insert row {h \<in> set (gateways s). gw_name h \<noteq> r_Name r}"
proof -
  obtain row where "gw_id row = g_ID g" "gw_name row = r_Name r" "gw_status row = GatewayPending"
    "gw_agent_token_hash row = Some (HashToken tok)" "gw_capacity row = r_Capacity r"
    "set (gateways t) = insert row {h \<in> set (gateways s). gw_name h \<noteq> r_Name r}"
    using RegisterGateway_Inr[OF assms] by blast
  then show ?thesis by (intro exI[of _ row]) simp
qed

definition sample_env :: env where
  "sample_env = \<lparr>e_now = 10 ^ 18, e_clock = 10 ^ 18, e_outcome = (\<lambda>_. Done),
     e_uuid = (\<lambda>n. if n = 0 then ''u0'' else if n = 1 then ''u1'' else ''u2''),
     e_rand = (\<lambda>_. Some (replicate 32 7)), e_order = (\<lambda>n. [0..<n]), e_cidr = Some, e_collate = map of_char\<rparr>"

definition sample_registration :: gateway_registration where
  "sample_registration = \<lparr>r_Name = ''de-fra-1'', r_CountryCode = ''de'', r_CountryName = ''Germany'',
     r_City = ''Frankfurt'', r_Region = '''', r_EndpointHost = ''192.0.2.1'', r_EndpointPort = 51820,
     r_PublicKey = ''gk'', r_WGSubnetV4 = ''10.7.50.0/29'', r_WGSubnetV6 = '''', r_Capacity = 2,
     r_BandwidthMbps = 0, r_Latitude = None, r_Longitude = None\<rparr>"

definition sample_token :: string where
  "sample_token = EncodeToString b64_url (replicate 32 7)"

definition sample_gateway_row :: gateway_row where
  "sample_gateway_row = proposed_gateway sample_env sample_registration ''u0'' (HashToken sample_token)
     ''10.7.50.0/29'' None"

definition sample_location :: location_row where
  "sample_location = \<lparr>loc_id = ''u0'', loc_code = ''de'', loc_country_name = ''Germany'', loc_enabled = True\<rparr>"

lemma sample_env_simps [simp]:
  "e_now sample_env = 10 ^ 18" "e_outcome sample_env = (\<lambda>_. Done)" "e_uuid sample_env 0 = ''u0''"
  "e_uuid sample_env (Suc 0) = ''u1''"
  "e_rand sample_env = (\<lambda>_. Some (replicate 32 7))" "e_order sample_env = (\<lambda>n. [0..<n])"
  "e_cidr sample_env = Some"
  by (simp_all add: sample_env_def)

lemma RegisterGateway_sample:
  "RegisterGateway sample_env sample_registration empty_db =
     (Inr (registered_gateway sample_registration ''u0'' ''u1'', sample_token),
      empty_db\<lparr>locations := [sample_location], gateways := [sample_gateway_row]\<rparr>)"
proof -
  let ?db = "empty_db\<lparr>locations := [sample_location]\<rparr>"
  have loc: "upsert_location sample_env ''de'' ''Germany'' empty_db = (Inr ''u0'', ?db)"
    by (simp add: upsert_location_def insert_location_def andThen_def ret_def sample_location_def
        empty_db_def)
  have gw: "upsert_gateway sample_gateway_row ?db = (Inr ''u1'', ?db\<lparr>gateways := [sample_gateway_row]\<rparr>)"
    by (simp add: upsert_gateway_def insert_gateway_def andThen_def ret_def empty_db_def
        sample_gateway_row_def proposed_gateway_def sample_registration_def sample_location_def)
  have tok: "GenerateToken (Some (replicate 32 7)) = Some sample_token"
    by (simp add: GenerateToken_def sample_token_def)
  have nets: "subnet_literals sample_env sample_registration = Some (''10.7.50.0/29'', None)"
    by (simp add: subnet_literals_def sample_registration_def nilIfEmpty_def)
  have "r_CountryCode sample_registration = ''de''" "r_CountryName sample_registration = ''Germany''"
    by (simp_all add: sample_registration_def)
  then show ?thesis using loc gw
    by (simp add: RegisterGateway_def tok nets Let_def tx_def stmt_def andThen_def ret_def
        sample_gateway_row_def)
qed

theorem RegisterGateway_correct_witness:
  "\<exists>row. gw_id row = ''u1'' \<and> gw_name row = ''de-fra-1'' \<and> gw_status row = GatewayPending \<and>
     gw_agent_token_hash row = Some (HashToken sample_token) \<and> gw_capacity row = 2 \<and>
     set (gateways (empty_db\<lparr>locations := [sample_location], gateways := [sample_gateway_row]\<rparr>)) =
       insert row {h \<in> set (gateways empty_db). gw_name h \<noteq> ''de-fra-1''}"
  using RegisterGateway_correct[OF store_inv_empty RegisterGateway_sample]
  by (simp add: sample_registration_def registered_gateway_def)

text \<open>
  Registering a name again kills the token it had before: unless the
  fresh token has the same hash, a heartbeat with the old one is rejected and changes nothing.
\<close>

theorem RegisterGateway_rotates:
  assumes "store_inv s" "RegisterGateway e r s = (Inr (g, tok), t)" "h \<noteq> HashToken tok"
    and "\<And>g. g \<in> set (gateways s) \<Longrightarrow> gw_agent_token_hash g = Some h \<Longrightarrow> gw_name g = r_Name r"
    and "row_order_ok (e_order e')" "e_outcome e' 0 = Done"
  shows "Heartbeat e' h m t = (Inl ErrInvalidToken, t)"
proof (rule Heartbeat_rejects[OF assms(5,6)])
  obtain row where "gw_agent_token_hash row = Some (HashToken tok)"
    "set (gateways t) = insert row {h \<in> set (gateways s). gw_name h \<noteq> r_Name r}"
    using RegisterGateway_Inr[OF assms(1,2)] by blast
  then show "\<forall>g\<in>set (gateways t). \<not> token_live h g" using assms(3,4) by (auto simp: token_live_def)
qed

theorem RegisterGateway_rotates_witness:
  "Heartbeat sample_env ''old'' \<lparr>m_ActivePeers = 0, m_CPUPct = 0, m_RxBps = 0, m_TxBps = 0\<rparr>
     (empty_db\<lparr>locations := [sample_location], gateways := [sample_gateway_row]\<rparr>) =
   (Inl ErrInvalidToken, empty_db\<lparr>locations := [sample_location], gateways := [sample_gateway_row]\<rparr>)"
proof (rule RegisterGateway_rotates[OF store_inv_empty RegisterGateway_sample])
  show "''old'' \<noteq> HashToken sample_token" using length_HashToken[of sample_token] by (auto dest: arg_cong[of _ _ length])
qed (simp_all add: empty_db_def)

text \<open>
  A heartbeat that reaches the database either finds no gateway that is not
  disabled under its token, and then changes nothing, or it stores the reported metrics, marks
  the gateways of its token healthy as of now, and touches no other row.
\<close>

theorem Heartbeat_correct:
  assumes "row_order_ok (e_order e)" "e_outcome e 0 = Done"
  shows "case Heartbeat e h m s of
           (Inl err, t) \<Rightarrow> err = ErrInvalidToken \<and> t = s \<and> (\<forall>g\<in>set (gateways s). \<not> token_live h g)
         | (Inr g, t) \<Rightarrow>
             (\<exists>row\<in>set (gateways s). token_live h row \<and> g_ID g = gw_id row \<and> g_Name g = gw_name row) \<and>
             filter (\<lambda>g. \<not> token_live h g) (gateways t) = filter (\<lambda>g. \<not> token_live h g) (gateways s) \<and>
             (\<forall>row\<in>set (gateways t). token_live h row \<longrightarrow>
                gw_status row = GatewayHealthy \<and> gw_last_heartbeat_at row = Some (e_now e) \<and>
                gw_active_peers row = m_ActivePeers m \<and> gw_cpu_pct row = m_CPUPct m \<and>
                gw_rx_bps row = m_RxBps m \<and> gw_tx_bps row = m_TxBps m)"
proof (cases "\<exists>g\<in>set (gateways s). token_live h g")
  case False
  then show ?thesis using Heartbeat_rejects[OF assms] by simp
next
  case True
  then have "filter (token_live h) (gateways s) \<noteq> []" by (auto simp: filter_empty_conv)
  then obtain row rows where hit: "in_order (e_order e) (filter (token_live h) (gateways s)) = row # rows"
    using in_order_Cons_iff[OF assms(1)] by metis
  then have row: "row \<in> set (gateways s)" "token_live h row"
    using set_in_order[OF assms(1), of "filter (token_live h) (gateways s)"] by auto
  have live: "token_live h (beat e m g)" if "token_live h g" for g
    using that by (simp add: token_live_def beat_def)
  have "filter (\<lambda>g. \<not> token_live h g) (update_where (token_live h) (beat e m) (gateways s)) =
          filter (\<lambda>g. \<not> token_live h g) (gateways s)"
    using live by (subst filter_update_where_drop) (auto intro: filter_cong)
  then show ?thesis using row
    by (auto simp: Heartbeat_def stmt_def assms(2) andThen_def ret_def hit ball_update_where)
       (simp_all add: beat_def)
qed

definition sample_fleet :: db where
  "sample_fleet = empty_db\<lparr>locations := [sample_location],
     gateways := [sample_gateway_row\<lparr>gw_status := GatewayHealthy, gw_agent_token_hash := Some ''h'',
                                     gw_last_heartbeat_at := Some (10 ^ 18)\<rparr>]\<rparr>"

lemma sample_fleet_gateways:
  "gateways sample_fleet = [sample_gateway_row\<lparr>gw_status := GatewayHealthy, gw_agent_token_hash := Some ''h'',
                                     gw_last_heartbeat_at := Some (10 ^ 18)\<rparr>]"
  by (simp add: sample_fleet_def)

theorem Heartbeat_correct_witness:
  "case Heartbeat sample_env ''h'' \<lparr>m_ActivePeers = 3, m_CPUPct = 0, m_RxBps = 0, m_TxBps = 0\<rparr> sample_fleet of
     (Inl _, _) \<Rightarrow> False
   | (Inr g, t) \<Rightarrow> g_Name g = ''de-fra-1'' \<and>
       (\<forall>row\<in>set (gateways t). token_live ''h'' row \<longrightarrow> gw_active_peers row = 3)"
  using Heartbeat_correct[where e = sample_env and h = "''h''" and s = sample_fleet and
      m = "\<lparr>m_ActivePeers = 3, m_CPUPct = 0, m_RxBps = 0, m_TxBps = 0\<rparr>"]
  by (auto simp: sample_fleet_gateways token_live_def sample_gateway_row_def proposed_gateway_def
      sample_registration_def split: prod.splits sum.splits)

text \<open>
  A deregistered token is dead: a later heartbeat with it is rejected
  and changes nothing.
\<close>

theorem DeregisterGateway_final:
  assumes "DeregisterGateway e h s = (Inr (), t)" "row_order_ok (e_order e')" "e_outcome e' 0 = Done"
  shows "Heartbeat e' h m t = (Inl ErrInvalidToken, t)"
  using assms(1)
  by (intro Heartbeat_rejects assms)
     (auto simp: DeregisterGateway_def act_simps ball_update_where token_live_def)

theorem DeregisterGateway_final_witness:
  "\<exists>t. DeregisterGateway sample_env ''h'' sample_fleet = (Inr (), t) \<and>
     Heartbeat sample_env ''h'' \<lparr>m_ActivePeers = 3, m_CPUPct = 0, m_RxBps = 0, m_TxBps = 0\<rparr> t =
       (Inl ErrInvalidToken, t)"
proof -
  obtain t where t: "DeregisterGateway sample_env ''h'' sample_fleet = (Inr (), t)"
    by (simp add: DeregisterGateway_def stmt_def andThen_def exec_update_def failIf_def ret_def
        sample_fleet_gateways count_where_def)
  with DeregisterGateway_final[OF t] show ?thesis by simp
qed

text \<open>
  After the sweep the healthy gateways are exactly those that were
  healthy with a heartbeat within the time to live.
\<close>

theorem MarkStaleUnhealthy_correct:
  assumes "MarkStaleUnhealthy e ttl s = (Inr n, t)"
  shows "filter (\<lambda>g. gw_status g = GatewayHealthy) (gateways t) =
           filter (\<lambda>g. gw_status g = GatewayHealthy \<and> heartbeat_fresh e ttl g) (gateways s)"
proof -
  have t: "gateways t = update_where (stale e ttl) (\<lambda>g. g\<lparr>gw_status := GatewayUnhealthy\<rparr>) (gateways s)"
    using assms by (auto simp: MarkStaleUnhealthy_def act_simps)
  show ?thesis unfolding t
    by (subst filter_update_where_drop)
       (auto simp: stale_def heartbeat_fresh_def not_less split: option.splits intro!: filter_cong)
qed

theorem MarkStaleUnhealthy_correct_witness:
  "\<exists>n t. MarkStaleUnhealthy sample_env 30000000000 sample_fleet = (Inr n, t) \<and>
     filter (\<lambda>g. gw_status g = GatewayHealthy) (gateways t) =
       filter (\<lambda>g. gw_status g = GatewayHealthy \<and> heartbeat_fresh sample_env 30000000000 g)
         (gateways sample_fleet)"
proof -
  obtain n t where t: "MarkStaleUnhealthy sample_env 30000000000 sample_fleet = (Inr n, t)"
    by (simp add: MarkStaleUnhealthy_def stmt_def exec_update_def)
  with MarkStaleUnhealthy_correct[OF t] show ?thesis by blast
qed

end
