(* ===== verification/Selection.thy ===== *)
theory Selection
  imports Model
begin

text \<open>
  \<^verbatim>\<open>internal/selection/selection.go\<close>: the pure ranking of gateways. Scores are \<open>float64\<close>
  values with the rounding of every operation (theory \<open>Go_Float\<close>); the sum of the two
  throughputs is a 64-bit addition that wraps.
\<close>

section \<open>Scoring\<close>

record weights =
  w_Load :: rat
  w_Bandwidth :: rat

definition DefaultWeights :: weights where
  "DefaultWeights = \<lparr>w_Load = f64 (7 / 10), w_Bandwidth = f64 (3 / 10)\<rparr>"

definition clamp01 :: "rat \<Rightarrow> rat" where
  "clamp01 v = (if v < 0 then 0 else if v > 1 then 1 else v)"

definition FitnessWithWeights :: "gateway \<Rightarrow> weights \<Rightarrow> rat" where
  "FitnessWithWeights g w =
     (if g_Capacity g \<le> 0 then 0
      else
        let loadHeadroom =
              clamp01 (f64_sub 1 (f64_div (f64_of_int (g_ActivePeers g)) (f64_of_int (g_Capacity g))))
        in if g_BandwidthMbps g > 0 \<and> w_Bandwidth w > 0 then
             let usedBps = f64_of_int (wrap64 (g_RxBps g + g_TxBps g));
                 capBps = f64_mul (f64_of_int (g_BandwidthMbps g)) 1000000;
                 bwHeadroom = clamp01 (f64_sub 1 (f64_div usedBps capBps));
                 total = f64_add (w_Load w) (w_Bandwidth w)
             in if total \<le> 0 then loadHeadroom
                else f64_div
                       (f64_add (f64_mul (w_Load w) loadHeadroom) (f64_mul (w_Bandwidth w) bwHeadroom))
                       total
           else loadHeadroom)"

definition Fitness :: "gateway \<Rightarrow> rat" where
  "Fitness g = FitnessWithWeights g DefaultWeights"

section \<open>Selection\<close>

text \<open>The loop of \<open>Best\<close>: the best score so far and the gateway that has it, if any.\<close>

fun best_loop :: "gateway list \<Rightarrow> rat \<Rightarrow> gateway option \<Rightarrow> gateway option" where
  "best_loop [] bestScore best = best"
| "best_loop (g # gs) bestScore best =
     (if g_Status g \<noteq> GatewayHealthy then best_loop gs bestScore best
      else if g_Capacity g > 0 \<and> g_ActivePeers g \<ge> g_Capacity g then best_loop gs bestScore best
      else if Fitness g > bestScore then best_loop gs (Fitness g) (Some g)
      else best_loop gs bestScore best)"

definition Best :: "gateway list \<Rightarrow> gateway option" where
  "Best candidates = best_loop candidates (- 1) None"

text \<open>Specification: the gateways a client may be given.\<close>

definition selectable :: "gateway \<Rightarrow> bool" where
  "selectable g \<longleftrightarrow>
     g_Status g = GatewayHealthy \<and> \<not> (g_Capacity g > 0 \<and> g_ActivePeers g \<ge> g_Capacity g)"


section \<open>Properties of the score\<close>

lemma clamp01_bounds: "0 \<le> clamp01 v" "clamp01 v \<le> 1"
  by (simp_all add: clamp01_def)

lemma clamp01_mono: "v \<le> w \<Longrightarrow> clamp01 v \<le> clamp01 w"
  by (simp add: clamp01_def)

lemma clamp01_nonpos: "v \<le> 0 \<Longrightarrow> clamp01 v = 0"
  by (simp add: clamp01_def)

lemma DefaultWeights_pos: "0 < w_Load DefaultWeights" "0 < w_Bandwidth DefaultWeights"
  by code_simp+

lemma DefaultWeights_total: "f64_add (w_Load DefaultWeights) (w_Bandwidth DefaultWeights) = 1"
  by code_simp

text \<open>The rounded weighted sum of two full shares is 1: the bound is attained, not exceeded.\<close>

lemma DefaultWeights_full:
  "f64 (f64 (f64 (w_Load DefaultWeights * 1) + f64 (w_Bandwidth DefaultWeights * 1)) / 1) = 1"
  by code_simp

definition load_headroom :: "gateway \<Rightarrow> rat" where
  "load_headroom g =
     clamp01 (f64_sub 1 (f64_div (f64_of_int (g_ActivePeers g)) (f64_of_int (g_Capacity g))))"

definition bw_headroom :: "gateway \<Rightarrow> rat" where
  "bw_headroom g =
     clamp01 (f64_sub 1 (f64_div (f64_of_int (wrap64 (g_RxBps g + g_TxBps g)))
                                 (f64_mul (f64_of_int (g_BandwidthMbps g)) 1000000)))"

lemma Fitness_eq:
  "Fitness g =
     (if g_Capacity g \<le> 0 then 0
      else if g_BandwidthMbps g > 0 then
        f64 (f64 (f64 (w_Load DefaultWeights * load_headroom g) +
                  f64 (w_Bandwidth DefaultWeights * bw_headroom g)) / 1)
      else load_headroom g)"
  unfolding Fitness_def FitnessWithWeights_def Let_def DefaultWeights_total load_headroom_def bw_headroom_def
  by (simp add: DefaultWeights_pos f64_div_def f64_add_def f64_mul_def)

lemma headroom_bounds:
  "0 \<le> load_headroom g" "load_headroom g \<le> 1" "0 \<le> bw_headroom g" "bw_headroom g \<le> 1"
  by (simp_all add: load_headroom_def bw_headroom_def clamp01_bounds)

lemma Fitness_nonneg: "0 \<le> Fitness g"
  using f64r.rnd_mean_nonneg[of "w_Load DefaultWeights" "w_Bandwidth DefaultWeights" 1
      "load_headroom g" "bw_headroom g"] DefaultWeights_pos headroom_bounds
  by (auto simp: Fitness_eq less_imp_le)

lemma Fitness_le_1: "Fitness g \<le> 1"
proof -
  have "f64 (f64 (f64 (w_Load DefaultWeights * load_headroom g) +
            f64 (w_Bandwidth DefaultWeights * bw_headroom g)) / 1) \<le> 1"
    using f64r.rnd_mean_mono[of "w_Load DefaultWeights" "w_Bandwidth DefaultWeights" 1
        "load_headroom g" 1 "bw_headroom g" 1] DefaultWeights_pos headroom_bounds
    unfolding DefaultWeights_full by (auto simp: less_imp_le)
  then show ?thesis using headroom_bounds by (auto simp: Fitness_eq)
qed

lemma load_headroom_antimono:
  assumes "0 < g_Capacity g" "g_Capacity h = g_Capacity g" "g_ActivePeers g \<le> g_ActivePeers h"
  shows "load_headroom h \<le> load_headroom g"
  using assms f64r.rnd_pos_int[of "g_Capacity g"]
  by (auto simp: load_headroom_def f64_ops intro!: clamp01_mono f64r.rnd_headroom_antimono)

lemma bw_headroom_antimono:
  assumes "0 < g_BandwidthMbps g" "g_BandwidthMbps h = g_BandwidthMbps g"
    and "wrap64 (g_RxBps g + g_TxBps g) \<le> wrap64 (g_RxBps h + g_TxBps h)"
  shows "bw_headroom h \<le> bw_headroom g"
proof -
  have "1 \<le> f64 (of_int (g_BandwidthMbps g))" using assms(1) by (intro f64r.rnd_ge_1) simp
  then have "1 \<le> f64 (f64 (of_int (g_BandwidthMbps g)) * 1000000)" by (intro f64r.rnd_ge_1) simp
  then have "0 < f64 (f64 (of_int (g_BandwidthMbps g)) * 1000000)" by simp
  then show ?thesis using assms
    by (auto simp: bw_headroom_def f64_ops intro!: clamp01_mono f64r.rnd_headroom_antimono)
qed


section \<open>Properties of the selection\<close>

text \<open>The result is the score to beat, or the first selectable gateway with the highest score.\<close>

lemma best_loop_None: "best_loop gs sc b = None \<Longrightarrow> b = None \<and> (\<forall>g\<in>set gs. selectable g \<longrightarrow> Fitness g \<le> sc)"
  by (induction gs sc b rule: best_loop.induct) (auto simp: selectable_def split: if_splits)

lemma best_loop_take: "selectable x \<and> sc < Fitness x \<Longrightarrow> best_loop (x # gs) sc b = best_loop gs (Fitness x) (Some x)"
  by (auto simp: selectable_def)

lemma best_loop_skip: "\<not> (selectable x \<and> sc < Fitness x) \<Longrightarrow> best_loop (x # gs) sc b = best_loop gs sc b"
  by (auto simp: selectable_def)

lemma best_loop_Some:
  assumes "best_loop gs sc b = Some g"
  shows "b = Some g \<and> (\<forall>h\<in>set gs. selectable h \<longrightarrow> Fitness h \<le> sc) \<or>
         (\<exists>xs ys. gs = xs @ g # ys \<and> selectable g \<and> sc < Fitness g \<and>
           (\<forall>h\<in>set xs. selectable h \<longrightarrow> Fitness h < Fitness g) \<and>
           (\<forall>h\<in>set ys. selectable h \<longrightarrow> Fitness h \<le> Fitness g))"
  using assms
proof (induction gs arbitrary: sc b)
  case (Cons x gs)
  show ?case
  proof (cases "selectable x \<and> sc < Fitness x")
    case True
    with Cons.prems have "best_loop gs (Fitness x) (Some x) = Some g"
      by (simp only: best_loop_take)
    from Cons.IH[OF this] show ?thesis
    proof (elim disjE exE conjE)
      assume "Some x = Some g" "\<forall>h\<in>set gs. selectable h \<longrightarrow> Fitness h \<le> Fitness x"
      with True show ?thesis by (intro disjI2 exI[of _ "[]"] exI[of _ gs]) auto
    next
      fix xs ys
      assume "gs = xs @ g # ys" "selectable g" "Fitness x < Fitness g"
        "\<forall>h\<in>set xs. selectable h \<longrightarrow> Fitness h < Fitness g"
        "\<forall>h\<in>set ys. selectable h \<longrightarrow> Fitness h \<le> Fitness g"
      with True show ?thesis by (intro disjI2 exI[of _ "x # xs"] exI[of _ ys]) auto
    qed
  next
    case False
    then have "best_loop gs sc b = Some g" using Cons.prems best_loop_skip[OF False] by (simp only:)
    from Cons.IH[OF this] show ?thesis
    proof (elim disjE exE conjE)
      assume "b = Some g" "\<forall>h\<in>set gs. selectable h \<longrightarrow> Fitness h \<le> sc"
      with False show ?thesis by auto
    next
      fix xs ys
      assume "gs = xs @ g # ys" "selectable g" "sc < Fitness g"
        "\<forall>h\<in>set xs. selectable h \<longrightarrow> Fitness h < Fitness g"
        "\<forall>h\<in>set ys. selectable h \<longrightarrow> Fitness h \<le> Fitness g"
      with False show ?thesis by (intro disjI2 exI[of _ "x # xs"] exI[of _ ys]) auto
    qed
  qed
qed simp

lemma Best_Some:
  assumes "Best cs = Some g"
  obtains xs ys where "cs = xs @ g # ys" "selectable g"
    "\<forall>h\<in>set xs. selectable h \<longrightarrow> Fitness h < Fitness g"
    "\<forall>h\<in>set ys. selectable h \<longrightarrow> Fitness h \<le> Fitness g"
  using best_loop_Some[of cs "- 1" None g] assms by (auto simp: Best_def)

lemma Best_None_iff: "Best cs = None \<longleftrightarrow> (\<forall>g\<in>set cs. \<not> selectable g)"
proof
  assume "Best cs = None"
  then have "\<forall>g\<in>set cs. selectable g \<longrightarrow> Fitness g \<le> - 1"
    using best_loop_None by (auto simp: Best_def)
  moreover have "\<not> Fitness g \<le> - 1" for g using Fitness_nonneg[of g] by linarith
  ultimately show "\<forall>g\<in>set cs. \<not> selectable g" by blast
next
  assume "\<forall>g\<in>set cs. \<not> selectable g"
  then show "Best cs = None"
    by (cases "Best cs") (auto elim!: Best_Some)
qed

lemma Best_in: "Best cs = Some g \<Longrightarrow> g \<in> set cs \<and> selectable g"
  by (auto elim!: Best_Some)

lemma Best_max: "Best cs = Some g \<Longrightarrow> h \<in> set cs \<Longrightarrow> selectable h \<Longrightarrow> Fitness h \<le> Fitness g"
  by (fastforce elim!: Best_Some)


section \<open>What the selection promises\<close>

text \<open>
  C21. \<open>Best\<close> returns nothing exactly when no candidate is selectable (healthy
  and below its capacity); otherwise it returns a selectable candidate of the highest score, and
  among several of the highest score the first of the list.
\<close>

theorem Best_correct:
  "case Best cs of
     None \<Rightarrow> \<forall>g\<in>set cs. \<not> selectable g
   | Some g \<Rightarrow> \<exists>xs ys. cs = xs @ g # ys \<and> selectable g \<and>
                 (\<forall>h\<in>set xs. selectable h \<longrightarrow> Fitness h < Fitness g) \<and>
                 (\<forall>h\<in>set ys. selectable h \<longrightarrow> Fitness h \<le> Fitness g)"
proof (cases "Best cs")
  case None
  then show ?thesis using Best_None_iff[of cs] by simp
next
  case (Some g)
  then show ?thesis by (auto elim!: Best_Some)
qed

definition sample_gw :: "string \<Rightarrow> int \<Rightarrow> int \<Rightarrow> gateway" where
  "sample_gw nm peers bw = zero_gateway\<lparr>g_ID := nm, g_Name := nm, g_Status := GatewayHealthy,
     g_Capacity := 10, g_ActivePeers := peers, g_BandwidthMbps := bw\<rparr>"

theorem Best_correct_witness:
  "Best [sample_gw ''a'' 5 0, sample_gw ''b'' 0 0, sample_gw ''c'' 0 0] = Some (sample_gw ''b'' 0 0) \<and>
   (\<exists>xs ys. [sample_gw ''a'' 5 0, sample_gw ''b'' 0 0, sample_gw ''c'' 0 0] = xs @ sample_gw ''b'' 0 0 # ys \<and>
      selectable (sample_gw ''b'' 0 0) \<and>
      (\<forall>h\<in>set xs. selectable h \<longrightarrow> Fitness h < Fitness (sample_gw ''b'' 0 0)) \<and>
      (\<forall>h\<in>set ys. selectable h \<longrightarrow> Fitness h \<le> Fitness (sample_gw ''b'' 0 0)))"
proof -
  have best: "Best [sample_gw ''a'' 5 0, sample_gw ''b'' 0 0, sample_gw ''c'' 0 0] = Some (sample_gw ''b'' 0 0)"
    by code_simp
  then show ?thesis
    using Best_correct[of "[sample_gw ''a'' 5 0, sample_gw ''b'' 0 0, sample_gw ''c'' 0 0]"] by simp
qed

text \<open>
  A score is between 0 and 1, whatever the gateway's fields are: a wrapped
  throughput sum, a negative peer count or a capacity that is not positive included.
\<close>

theorem Fitness_range: "0 \<le> Fitness g \<and> Fitness g \<le> 1"
  by (simp add: Fitness_nonneg Fitness_le_1)

text \<open>
  Of two gateways with the same positive capacity and the same advertised
  bandwidth, the one with no more peers and no more traffic scores at least as high, through the
  rounding of the floating-point operations.
\<close>

theorem Fitness_antimono:
  assumes "0 < g_Capacity g" "g_Capacity h = g_Capacity g" "g_BandwidthMbps h = g_BandwidthMbps g"
    and "g_ActivePeers g \<le> g_ActivePeers h"
    and "wrap64 (g_RxBps g + g_TxBps g) \<le> wrap64 (g_RxBps h + g_TxBps h)"
  shows "Fitness h \<le> Fitness g"
proof (cases "0 < g_BandwidthMbps g")
  case True
  have "bw_headroom h \<le> bw_headroom g" using bw_headroom_antimono[OF True] assms by simp
  moreover have "load_headroom h \<le> load_headroom g" using load_headroom_antimono assms by simp
  ultimately show ?thesis
    using True assms DefaultWeights_pos headroom_bounds f64r.rnd_mean_mono[of "w_Load DefaultWeights" "w_Bandwidth DefaultWeights" 1
        "load_headroom h" "load_headroom g" "bw_headroom h" "bw_headroom g"]
    by (auto simp: Fitness_eq less_imp_le)
next
  case False
  then show ?thesis using assms load_headroom_antimono[of g h] by (simp add: Fitness_eq)
qed

theorem Fitness_antimono_witness:
  "Fitness (sample_gw ''a'' 5 100) \<le> Fitness (sample_gw ''b'' 2 100)"
  by (rule Fitness_antimono) (simp_all add: sample_gw_def zero_gateway_def)

end
