(* ===== verification/Store_Connections.thy ===== *)
theory Store_Connections
  imports Store_Gateways Selection
begin

text \<open>
  \<^verbatim>\<open>internal/store/connections.go\<close>: leases. Connecting selects a gateway, allocates an address
  and records a lease in one transaction; the agents read the leases back as peers; clients
  renew and release them; the reaper expires them.
\<close>

section \<open>Connecting\<close>

record gwCandidate =
  cand_g :: gateway
  cand_subnetV4 :: string
  cand_subnetV6 :: "string option"

definition zero_candidate :: gwCandidate where
  "zero_candidate = \<lparr>cand_g = zero_gateway, cand_subnetV4 = '''', cand_subnetV6 = None\<rparr>"

definition on_gateway :: "string \<Rightarrow> lease_row \<Rightarrow> bool" where
  "on_gateway gid l \<longleftrightarrow> le_gateway_id l = gid \<and> active l"

definition active_count :: "db \<Rightarrow> string \<Rightarrow> nat" where
  "active_count s gid = count_where (on_gateway gid) (leases s)"

text \<open>The candidate query and the scan of its rows.\<close>

definition eligible :: "env \<Rightarrow> string \<Rightarrow> duration \<Rightarrow> gateway_row \<times> location_row \<Rightarrow> bool" where
  "eligible e country ttl gl = (case gl of (g, l) \<Rightarrow>
     loc_code l = country \<and> loc_enabled l \<and> gw_status g = GatewayHealthy \<and> heartbeat_fresh e ttl g)"

definition scan_candidate :: "db \<Rightarrow> gateway_row \<times> location_row \<Rightarrow> gwCandidate" where
  "scan_candidate s gl = (case gl of (g, l) \<Rightarrow>
     \<lparr>cand_g = zero_gateway\<lparr>g_ID := gw_id g, g_Name := gw_name g, g_City := coalesce '''' (gw_city g),
        g_CountryName := loc_country_name l, g_PublicKey := gw_public_key g,
        g_EndpointHost := gw_endpoint_host g, g_EndpointPort := gw_endpoint_port g,
        g_Capacity := gw_capacity g, g_BandwidthMbps := coalesce 0 (gw_bandwidth_mbps g),
        g_RxBps := gw_rx_bps g, g_TxBps := gw_tx_bps g,
        g_ActivePeers := int (active_count s (gw_id g)), g_Status := GatewayHealthy\<rparr>,
      cand_subnetV4 = gw_wg_subnet_v4 g, cand_subnetV6 = gw_wg_subnet_v6 g\<rparr>)"

definition candidates :: "env \<Rightarrow> string \<Rightarrow> duration \<Rightarrow> db \<Rightarrow> gwCandidate list" where
  "candidates e country ttl s =
     map (scan_candidate s) (in_order (e_order e) (filter (eligible e country ttl) (gateway_join s)))"

text \<open>The map \<open>byID\<close>: a later entry of the same key replaces an earlier one.\<close>

definition by_id :: "gwCandidate list \<Rightarrow> string \<Rightarrow> gwCandidate" where
  "by_id cs gid =
     (case map_of (rev (map (\<lambda>c. (g_ID (cand_g c), c)) cs)) gid of
        None \<Rightarrow> zero_candidate | Some c \<Rightarrow> c)"

text \<open>\<open>net.ParseIP(s).To4()\<close> as a 32-bit number; nil when \<open>s\<close> is no IPv4 address.\<close>

definition host_addr :: "string \<Rightarrow> u32 option" where
  "host_addr s = Option.bind (Option.bind (ParseIP s) To4) Uint32"

definition used_addrs :: "db \<Rightarrow> string \<Rightarrow> u32 set" where
  "used_addrs s gid =
     set (List.map_filter (\<lambda>l. host_addr (le_assigned_ip_v4 l)) (filter (on_gateway gid) (leases s)))"

definition usedHostAddrs :: "env \<Rightarrow> nat \<Rightarrow> string \<Rightarrow> u32 set dbact" where
  "usedHostAddrs e k gatewayID = stmt e k (gets (\<lambda>s. used_addrs s gatewayID))"

definition device_usable :: "string \<Rightarrow> string \<Rightarrow> device_row \<Rightarrow> bool" where
  "device_usable userID deviceID d \<longleftrightarrow>
     dev_id d = deviceID \<and> dev_user_id d = userID \<and> dev_revoked_at d = None"

definition release :: "instant \<Rightarrow> lease_row \<Rightarrow> lease_row" where
  "release now l = l\<lparr>le_state := LReleased, le_released_at := Some now\<rparr>"

definition of_device :: "string \<Rightarrow> lease_row \<Rightarrow> bool" where
  "of_device deviceID l \<longleftrightarrow> le_device_id l = deviceID \<and> active l"

definition new_lease ::
  "env \<Rightarrow> string \<Rightarrow> string \<Rightarrow> string \<Rightarrow> string \<Rightarrow> string option \<Rightarrow> duration \<Rightarrow> lease_row" where
  "new_lease e gatewayID deviceID clientPub v4 v6 leaseTTL =
     \<lparr>le_id = e_uuid e 0, le_gateway_id = gatewayID, le_device_id = deviceID,
      le_client_public_key = clientPub, le_assigned_ip_v4 = v4, le_assigned_ip_v6 = v6,
      le_state = LActive, le_created_at = e_now e,
      le_expires_at = e_now e + make_interval (Seconds leaseTTL), le_released_at = None\<rparr>"

definition connection_of :: "gwCandidate \<Rightarrow> lease_row \<Rightarrow> connection" where
  "connection_of chosen l =
     \<lparr>c_ID = le_id l, c_GatewayName = g_Name (cand_g chosen), c_Country = g_CountryName (cand_g chosen),
      c_City = g_City (cand_g chosen),
      c_Endpoint = JoinHostPort (g_EndpointHost (cand_g chosen)) (Itoa (g_EndpointPort (cand_g chosen))),
      c_GatewayPublicKey = g_PublicKey (cand_g chosen),
      c_AssignedIPv4 = le_assigned_ip_v4 l @ ''/32'',
      c_AssignedIPv6 = map_option (\<lambda>v6. v6 @ ''/128'') (le_assigned_ip_v6 l),
      c_ExpiresAt = le_expires_at l\<rparr>"

text \<open>The statements between begin and commit.\<close>

definition connect_tx ::
  "env \<Rightarrow> string \<Rightarrow> string \<Rightarrow> string \<Rightarrow> duration \<Rightarrow> duration \<Rightarrow> connection dbact" where
  "connect_tx e userID deviceID country leaseTTL heartbeatTTL =
       andThen (stmt e 0 (ret ())) (\<lambda>_.
       andThen (stmt e 1 (gets (\<lambda>s. find (device_usable userID deviceID) (devices s)))) (\<lambda>found.
       case found of
         None \<Rightarrow> throw ErrDeviceNotFound
       | Some d \<Rightarrow>
           andThen (stmt e 2 (update_leases (of_device deviceID) (release (e_now e)))) (\<lambda>_.
           andThen (stmt e 3 (gets (candidates e country heartbeatTTL))) (\<lambda>cs.
           case Best (map cand_g cs) of
             None \<Rightarrow> throw ErrNoGatewayAvailable
           | Some best \<Rightarrow>
               let chosen = by_id cs (g_ID best); gid = g_ID (cand_g chosen)
               in andThen (stmt e 4 (ret ())) (\<lambda>_.
                  andThen (usedHostAddrs e 5 gid) (\<lambda>used.
                  case allocateHost (cand_subnetV4 chosen) (cand_subnetV6 chosen) used of
                    Inl err \<Rightarrow> throw err
                  | Inr (v4, v6) \<Rightarrow>
                      let l = new_lease e gid deviceID (dev_public_key d) v4 v6 leaseTTL
                      in andThen (stmt e 6 (insert_lease l)) (\<lambda>_.
                         ret (connection_of chosen l))))))))"

definition CreateConnection ::
  "env \<Rightarrow> string \<Rightarrow> string \<Rightarrow> string \<Rightarrow> duration \<Rightarrow> duration \<Rightarrow> connection dbact" where
  "CreateConnection e userID deviceID country leaseTTL heartbeatTTL =
     tx e 7 (connect_tx e userID deviceID country leaseTTL heartbeatTTL)"


section \<open>Reading the peers\<close>

definition peer_of :: "lease_row \<Rightarrow> peer" where
  "peer_of l =
     \<lparr>p_PublicKey = le_client_public_key l,
      p_AllowedIPs = (le_assigned_ip_v4 l @ ''/32'') #
        (case le_assigned_ip_v6 l of
           None \<Rightarrow> [] | Some v6 \<Rightarrow> if v6 \<noteq> '''' then [v6 @ ''/128''] else [])\<rparr>"

definition current :: "env \<Rightarrow> string \<Rightarrow> lease_row \<Rightarrow> bool" where
  "current e gid l \<longleftrightarrow> on_gateway gid l \<and> e_now e < le_expires_at l"

definition GatewayPeers :: "env \<Rightarrow> string \<Rightarrow> peer list dbact" where
  "GatewayPeers e tokenHash =
     andThen (stmt e 0 (gets (\<lambda>s. in_order (e_order e) (filter (token_live tokenHash) (gateways s)))))
       (\<lambda>hits. case hits of
          [] \<Rightarrow> throw ErrInvalidToken
        | g # _ \<Rightarrow>
            stmt e 1 (gets (\<lambda>s. map peer_of (in_order (e_order e)
              (filter (current e (gw_id g)) (leases s))))))"


section \<open>Releasing, renewing, expiring\<close>

definition owned_lease :: "db \<Rightarrow> string \<Rightarrow> string \<Rightarrow> lease_row \<Rightarrow> bool" where
  "owned_lease s userID leaseID l \<longleftrightarrow>
     le_id l = leaseID \<and> active l \<and>
     le_device_id l \<in> dev_id ` {d \<in> set (devices s). dev_user_id d = userID}"

definition ReleaseConnection :: "env \<Rightarrow> string \<Rightarrow> string \<Rightarrow> unit dbact" where
  "ReleaseConnection e userID leaseID =
     andThen (stmt e 0 (\<lambda>s. update_leases (owned_lease s userID leaseID) (release (e_now e)) s))
       (\<lambda>affected. failIf (affected = 0) ErrNotFound)"

definition RenewConnection :: "env \<Rightarrow> string \<Rightarrow> string \<Rightarrow> duration \<Rightarrow> instant dbact" where
  "RenewConnection e userID leaseID leaseTTL =
     (let expiresAt = e_now e + make_interval (Seconds leaseTTL)
      in andThen (stmt e 0 (\<lambda>s. update_leases (owned_lease s userID leaseID)
                                  (\<lambda>l. l\<lparr>le_expires_at := expiresAt\<rparr>) s))
           (\<lambda>affected. andThen (failIf (affected = 0) ErrNotFound) (\<lambda>_. ret expiresAt)))"

definition expire :: "lease_row \<Rightarrow> lease_row" where
  "expire l = l\<lparr>le_state := LExpired\<rparr>"

definition ExpireStaleLeases :: "env \<Rightarrow> nat dbact" where
  "ExpireStaleLeases e = stmt e 0 (update_leases (\<lambda>l. active l \<and> le_expires_at l < e_now e) expire)"

definition ExpireLeasesOnUnhealthyGateways :: "env \<Rightarrow> nat dbact" where
  "ExpireLeasesOnUnhealthyGateways e =
     stmt e 0 (\<lambda>s. update_leases
       (\<lambda>l. active l \<and> le_gateway_id l \<in> gw_id ` {g \<in> set (gateways s). gw_status g \<noteq> GatewayHealthy})
       expire s)"

section \<open>Addresses on a gateway\<close>

lemma host_addr_canonical [simp]: "host_addr (IP_String (PutUint32 a)) = Some a"
  by (simp add: host_addr_def ParseIP_IP_String_v4 Uint32_PutUint32)

text \<open>The addresses read back from the table are those of the active leases.\<close>

lemma used_addrs_canonical:
  assumes "\<forall>l\<in>set (leases s). \<exists>a. le_assigned_ip_v4 l = IP_String (PutUint32 a)"
  shows "a \<in> used_addrs s gid \<longleftrightarrow>
    (\<exists>l\<in>set (leases s). on_gateway gid l \<and> le_assigned_ip_v4 l = IP_String (PutUint32 a))"
proof
  assume "a \<in> used_addrs s gid"
  then obtain l where l: "l \<in> set (leases s)" "on_gateway gid l" "host_addr (le_assigned_ip_v4 l) = Some a"
    by (auto simp: used_addrs_def List.map_filter_def)
  moreover obtain b where "le_assigned_ip_v4 l = IP_String (PutUint32 b)"
    using assms l(1) by auto
  ultimately show "\<exists>l\<in>set (leases s). on_gateway gid l \<and> le_assigned_ip_v4 l = IP_String (PutUint32 a)"
    by auto
next
  assume "\<exists>l\<in>set (leases s). on_gateway gid l \<and> le_assigned_ip_v4 l = IP_String (PutUint32 a)"
  then show "a \<in> used_addrs s gid" by (force simp: used_addrs_def List.map_filter_def)
qed

lemma used_addrs_iff:
  assumes "lease_inv s"
  shows "a \<in> used_addrs s gid \<longleftrightarrow>
    (\<exists>l\<in>set (leases s). on_gateway gid l \<and> le_assigned_ip_v4 l = IP_String (PutUint32 a))"
  using assms by (intro used_addrs_canonical) (simp add: lease_inv_def)


section \<open>Candidates\<close>

lemma distinct_concat_keys:
  assumes "distinct (map k gs)" "\<And>g. map k' (F g) = [] \<or> map k' (F g) = [k g]"
  shows "distinct (map k' (concat (map F gs)))"
proof -
  have sub: "set (map k' (concat (map F gs))) \<subseteq> k ` set gs" for gs
    using assms(2) by (induction gs) (auto, metis list.set_map list.set_intros(1) empty_iff image_eqI
        insert_iff list.set(1) list.set(2))
  show ?thesis using assms(1)
  proof (induction gs)
    case (Cons g gs)
    then have "k g \<notin> set (map k' (concat (map F gs)))" using sub[of gs] by auto
    with Cons assms(2)[of g] show ?case by auto
  qed simp
qed

lemma gateway_join_alt:
  "gateway_join s =
     concat (map (\<lambda>g. map (Pair g) (filter (\<lambda>l. loc_id l = gw_location_id g) (locations s))) (gateways s))"
proof -
  have "concat (map (\<lambda>l. if loc_id l = x then [(g, l)] else []) ls) =
        map (Pair g) (filter (\<lambda>l. loc_id l = x) ls)" for x and g :: gateway_row and ls :: "location_row list"
    by (induction ls) auto
  then show ?thesis by (simp add: gateway_join_def)
qed

lemma filter_key_le_1:
  "distinct (map k ls) \<Longrightarrow> filter (\<lambda>l. k l = x) ls = [] \<or> (\<exists>l. filter (\<lambda>l. k l = x) ls = [l])"
proof (induction ls)
  case (Cons a ls)
  then show ?case by (cases "k a = x") (auto simp: filter_empty_conv image_iff)
qed simp

lemma distinct_gateway_join: "schema_ok s \<Longrightarrow> distinct (map (gw_id \<circ> fst) (gateway_join s))"
  unfolding gateway_join_alt
proof (rule distinct_concat_keys[where k = gw_id])
  assume s: "schema_ok s"
  then show "distinct (map gw_id (gateways s))" by (simp add: schema_ok_def)
  fix g
  have "distinct (map loc_id (locations s))" using s by (simp add: schema_ok_def)
  from filter_key_le_1[OF this, of "gw_location_id g"]
  show "map (gw_id \<circ> fst) (map (Pair g) (filter (\<lambda>l. loc_id l = gw_location_id g) (locations s))) = [] \<or>
        map (gw_id \<circ> fst) (map (Pair g) (filter (\<lambda>l. loc_id l = gw_location_id g) (locations s))) = [gw_id g]"
    by auto
qed

lemma set_gateway_join:
  "(g, l) \<in> set (gateway_join s) \<longleftrightarrow>
     g \<in> set (gateways s) \<and> l \<in> set (locations s) \<and> loc_id l = gw_location_id g"
  by (auto simp: gateway_join_alt)

lemma g_ID_scan_candidate: "g_ID (cand_g (scan_candidate s gl)) = gw_id (fst gl)"
  by (simp add: scan_candidate_def split: prod.split)

lemma distinct_candidates:
  assumes "schema_ok s" "row_order_ok (e_order e)"
  shows "distinct (map (\<lambda>c. g_ID (cand_g c)) (candidates e country ttl s))"
proof -
  have "distinct (map (gw_id \<circ> fst) (filter (eligible e country ttl) (gateway_join s)))"
    using distinct_gateway_join[OF assms(1)] by (rule distinct_map_filterI)
  then show ?thesis using distinct_in_order[OF assms(2), of "gw_id \<circ> fst" "filter (eligible e country ttl) (gateway_join s)"]
    by (simp add: candidates_def comp_def g_ID_scan_candidate)
qed

lemma by_id_candidate:
  assumes "distinct (map (\<lambda>c. g_ID (cand_g c)) cs)" "c \<in> set cs"
  shows "by_id cs (g_ID (cand_g c)) = c"
proof -
  have "map_of (rev (map (\<lambda>c. (g_ID (cand_g c), c)) cs)) (g_ID (cand_g c)) = Some c"
    using assms by (intro map_of_is_SomeI) (auto simp: rev_map[symmetric] comp_def)
  then show ?thesis by (simp add: by_id_def)
qed

lemma set_candidates:
  "row_order_ok (e_order e) \<Longrightarrow>
   set (candidates e country ttl s) =
     scan_candidate s ` {gl \<in> set (gateway_join s). eligible e country ttl gl}"
  by (auto simp: candidates_def set_in_order)

text \<open>The gateway the selection hands to the allocator.\<close>

lemma chosen_candidate:
  assumes "schema_ok s" "row_order_ok (e_order e)"
    and "Best (map cand_g (candidates e country ttl s)) = Some best"
  obtains g loc where "g \<in> set (gateways s)" "loc \<in> set (locations s)" "loc_id loc = gw_location_id g"
    "eligible e country ttl (g, loc)" "active_count s (gw_id g) < nat (gw_capacity g)"
    "best = cand_g (scan_candidate s (g, loc))"
    "by_id (candidates e country ttl s) (g_ID best) = scan_candidate s (g, loc)"
proof -
  from Best_in[OF assms(3)] obtain c where c: "c \<in> set (candidates e country ttl s)" "best = cand_g c"
    and sel: "selectable best" by auto
  from c(1) obtain g loc where gl: "(g, loc) \<in> set (gateway_join s)" "eligible e country ttl (g, loc)"
    and cg: "c = scan_candidate s (g, loc)" by (auto simp: set_candidates[OF assms(2)])
  have "0 < gw_capacity g" using assms(1) gl(1) by (auto simp: set_gateway_join schema_ok_def)
  then have "active_count s (gw_id g) < nat (gw_capacity g)"
    using sel by (auto simp: c(2) cg selectable_def scan_candidate_def)
  then show thesis
    using that[of g loc] gl c(2) cg by_id_candidate[OF distinct_candidates[OF assms(1,2)] c(1)]
    by (simp add: set_gateway_join)
qed

section \<open>The connect transaction\<close>

text \<open>The state after the device's earlier lease has been released.\<close>

definition released_db :: "env \<Rightarrow> string \<Rightarrow> db \<Rightarrow> db" where
  "released_db e deviceID s = s\<lparr>leases := update_where (of_device deviceID) (release (e_now e)) (leases s)\<rparr>"

lemma not_active_release [simp]: "\<not> active (release now l)"
  by (simp add: active_def release_def)

lemma release_sel [simp]:
  "le_id (release now l) = le_id l" "le_gateway_id (release now l) = le_gateway_id l"
  "le_device_id (release now l) = le_device_id l" "le_assigned_ip_v4 (release now l) = le_assigned_ip_v4 l" "le_assigned_ip_v6 (release now l) = le_assigned_ip_v6 l"
  "le_client_public_key (release now l) = le_client_public_key l"
  by (simp_all add: release_def)

lemma keeps_release: "keeps store_inv (update_leases p (release now))"
  by (intro keeps_intros keeps_updates) simp_all

lemma released_db_simps [simp]:
  "gateways (released_db e dev s) = gateways s" "devices (released_db e dev s) = devices s"
  "locations (released_db e dev s) = locations s"
  "le_id ` set (leases (released_db e dev s)) = le_id ` set (leases s)"
  "filter active (leases (released_db e dev s)) =
     filter (\<lambda>l. active l \<and> le_device_id l \<noteq> dev) (leases s)"
  by (auto simp: released_db_def image_update_where_same filter_update_where_drop of_device_def
      intro: filter_cong)

lemma filter_released:
  "filter (\<lambda>l. le_device_id l \<noteq> dev) (leases (released_db e dev s)) = filter (\<lambda>l. le_device_id l \<noteq> dev) (leases s)"
  by (simp add: released_db_def filter_update_where update_where_none of_device_def)

lemma store_inv_released: "store_inv s \<Longrightarrow> store_inv (released_db e dev s)"
  using keepsD[OF keeps_release, of s "of_device dev" "e_now e"]
  by (simp add: released_db_def exec_update_def)

lemma connect_tx_Inr:
  assumes "connect_tx e userID dev country leaseTTL hbTTL s = (Inr conn, t)"
  obtains d best v4 v6 chosen l where "d \<in> set (devices s)" "device_usable userID dev d"
    "Best (map cand_g (candidates e country hbTTL (released_db e dev s))) = Some best"
    "chosen = by_id (candidates e country hbTTL (released_db e dev s)) (g_ID best)"
    "allocateHost (cand_subnetV4 chosen) (cand_subnetV6 chosen)
       (used_addrs (released_db e dev s) (g_ID (cand_g chosen))) = Inr (v4, v6)"
    "l = new_lease e (g_ID (cand_g chosen)) dev (dev_public_key d) v4 v6 leaseTTL"
    "insert_lease l (released_db e dev s) = (Inr (), t)" "conn = connection_of chosen l"
  using assms
  by (auto simp: connect_tx_def usedHostAddrs_def Let_def released_db_def[symmetric] act_simps
      split: option.splits sum.splits dest!: find_Some_set)

lemma insert_lease_Inr:
  "insert_lease l s = (Inr (), t) \<longleftrightarrow>
     t = s\<lparr>leases := leases s @ [l]\<rparr> \<and> le_id l \<notin> le_id ` set (leases s) \<and>
     (active l \<longrightarrow> (\<forall>l'\<in>set (leases s). on_gateway (le_gateway_id l) l' \<longrightarrow>
                       le_assigned_ip_v4 l' \<noteq> le_assigned_ip_v4 l)) \<and>
     le_gateway_id l \<in> gw_id ` set (gateways s) \<and> le_device_id l \<in> dev_id ` set (devices s)"
  by (auto simp: insert_lease_def on_gateway_def active_def) (metis image_eqI)+

lemma new_lease_sel [simp]:
  "le_id (new_lease e gid dev pk v4 v6 ttl) = e_uuid e 0"
  "le_gateway_id (new_lease e gid dev pk v4 v6 ttl) = gid"
  "le_device_id (new_lease e gid dev pk v4 v6 ttl) = dev"
  "le_client_public_key (new_lease e gid dev pk v4 v6 ttl) = pk"
  "le_assigned_ip_v4 (new_lease e gid dev pk v4 v6 ttl) = v4"
  "le_assigned_ip_v6 (new_lease e gid dev pk v4 v6 ttl) = v6"
  "le_expires_at (new_lease e gid dev pk v4 v6 ttl) = e_now e + make_interval (Seconds ttl)"
  "active (new_lease e gid dev pk v4 v6 ttl)"
  by (simp_all add: new_lease_def active_def)

lemma keeps_CreateConnection: "keeps store_inv (CreateConnection e userID dev country leaseTTL hbTTL)"
  unfolding CreateConnection_def
proof (rule keeps_txI)
  fix s conn t
  assume inv: "store_inv s" and run: "connect_tx e userID dev country leaseTTL hbTTL s = (Inr conn, t)"
  from run obtain d v4 v6 l c4 c6 gid where d: "d \<in> set (devices s)" "device_usable userID dev d"
    and alloc: "allocateHost c4 c6 (used_addrs (released_db e dev s) gid) = Inr (v4, v6)"
    and l: "l = new_lease e gid dev (dev_public_key d) v4 v6 leaseTTL"
    and ins: "insert_lease l (released_db e dev s) = (Inr (), t)"
    by (auto elim!: connect_tx_Inr)
  have rel: "store_inv (released_db e dev s)" by (rule store_inv_released[OF inv])
  have "schema_ok t" using keepsD[OF keeps_schema_insert_lease, of "released_db e dev s" l] rel ins
    by (simp add: store_inv_def)
  moreover obtain a where "v4 = IP_String (PutUint32 a)" using alloc by (rule allocateHost_fresh)
  then have "lease_inv t"
    using rel ins d l by (auto simp: store_inv_def lease_inv_def insert_lease_Inr device_usable_def image_iff)
  ultimately show "store_inv t" by (simp add: store_inv_def)
qed

text \<open>A success from a state of the program: the row, the gateway and the address behind it.\<close>

lemma connect_tx_success:
  assumes inv: "store_inv s" and ord: "row_order_ok (e_order e)"
    and run: "connect_tx e userID dev country leaseTTL hbTTL s = (Inr conn, t)"
  obtains d g loc l where "d \<in> set (devices s)" "device_usable userID dev d"
    "g \<in> set (gateways s)" "loc \<in> set (locations s)" "loc_id loc = gw_location_id g"
    "eligible e country hbTTL (g, loc)"
    "active_count (released_db e dev s) (gw_id g) < nat (gw_capacity g)"
    "t = (released_db e dev s)\<lparr>leases := leases (released_db e dev s) @ [l]\<rparr>"
    "l = new_lease e (gw_id g) dev (dev_public_key d) (le_assigned_ip_v4 l) (le_assigned_ip_v6 l) leaseTTL"
    "allocateHost (gw_wg_subnet_v4 g) (gw_wg_subnet_v6 g) (used_addrs (released_db e dev s) (gw_id g)) =
       Inr (le_assigned_ip_v4 l, le_assigned_ip_v6 l)"
    "conn = connection_of (scan_candidate (released_db e dev s) (g, loc)) l"
proof -
  obtain d best v4 v6 chosen l where d: "d \<in> set (devices s)" "device_usable userID dev d"
    and best: "Best (map cand_g (candidates e country hbTTL (released_db e dev s))) = Some best"
    and chosen: "chosen = by_id (candidates e country hbTTL (released_db e dev s)) (g_ID best)"
    and alloc: "allocateHost (cand_subnetV4 chosen) (cand_subnetV6 chosen)
       (used_addrs (released_db e dev s) (g_ID (cand_g chosen))) = Inr (v4, v6)"
    and l: "l = new_lease e (g_ID (cand_g chosen)) dev (dev_public_key d) v4 v6 leaseTTL"
    and ins: "insert_lease l (released_db e dev s) = (Inr (), t)" and conn: "conn = connection_of chosen l"
    using run by (rule connect_tx_Inr)
  have "schema_ok (released_db e dev s)" using store_inv_released[OF inv] by (simp add: store_inv_def)
  then obtain g loc where g: "g \<in> set (gateways s)" "loc \<in> set (locations s)"
    "loc_id loc = gw_location_id g" "eligible e country hbTTL (g, loc)"
    "active_count (released_db e dev s) (gw_id g) < nat (gw_capacity g)"
    and c: "chosen = scan_candidate (released_db e dev s) (g, loc)"
    using chosen_candidate[OF _ ord best] chosen by (metis released_db_simps(1,3))
  have sel: "g_ID (cand_g chosen) = gw_id g" "cand_subnetV4 chosen = gw_wg_subnet_v4 g"
    "cand_subnetV6 chosen = gw_wg_subnet_v6 g" by (simp_all add: c scan_candidate_def)
  show thesis
    using that[of d g loc l] d g conn c alloc l ins unfolding sel by (simp add: insert_lease_Inr)
qed

section \<open>What connecting promises\<close>

lemma active_count_append:
  "active_count (s\<lparr>leases := ls @ [l]\<rparr>) gid = active_count (s\<lparr>leases := ls\<rparr>) gid + (if on_gateway gid l then 1 else 0)"
  by (simp add: active_count_def count_where_def)

text \<open>
  C3. A successful connect is for a device of the caller that is not revoked. It
  uses a healthy, freshly heartbeating gateway of an enabled location of the asked country, and
  the gateway's active leases stay within its capacity. The new lease carries the device's key and
  the address the connection shows; it is the device's only active lease, no other active lease
  of the gateway has its address, and the leases of other devices are as before.
\<close>

theorem CreateConnection_correct:
  assumes "store_inv s" "row_order_ok (e_order e)"
    and "CreateConnection e userID dev country leaseTTL hbTTL s = (Inr conn, t)"
  shows "\<exists>d g loc l. d \<in> set (devices s) \<and> device_usable userID dev d \<and>
     g \<in> set (gateways s) \<and> gw_status g = GatewayHealthy \<and> heartbeat_fresh e hbTTL g \<and>
     loc \<in> set (locations s) \<and> loc_id loc = gw_location_id g \<and> loc_code loc = country \<and> loc_enabled loc \<and>
     active_count t (gw_id g) \<le> nat (gw_capacity g) \<and>
     {l' \<in> set (leases t). of_device dev l'} = {l} \<and>
     {l' \<in> set (leases t). on_gateway (gw_id g) l' \<and> le_assigned_ip_v4 l' = le_assigned_ip_v4 l} = {l} \<and>
     le_gateway_id l = gw_id g \<and> le_client_public_key l = dev_public_key d \<and>
     filter (\<lambda>l. le_device_id l \<noteq> dev) (leases t) = filter (\<lambda>l. le_device_id l \<noteq> dev) (leases s) \<and>
     conn = connection_of (scan_candidate (released_db e dev s) (g, loc)) l"
proof -
  have run: "connect_tx e userID dev country leaseTTL hbTTL s = (Inr conn, t)"
    using assms(3) by (simp add: CreateConnection_def act_simps)
  obtain d g loc l where d: "d \<in> set (devices s)" "device_usable userID dev d"
    and g: "g \<in> set (gateways s)" "loc \<in> set (locations s)" "loc_id loc = gw_location_id g"
    "eligible e country hbTTL (g, loc)" "active_count (released_db e dev s) (gw_id g) < nat (gw_capacity g)"
    and t: "t = (released_db e dev s)\<lparr>leases := leases (released_db e dev s) @ [l]\<rparr>"
    and l: "l = new_lease e (gw_id g) dev (dev_public_key d) (le_assigned_ip_v4 l) (le_assigned_ip_v6 l) leaseTTL"
    and conn: "conn = connection_of (scan_candidate (released_db e dev s) (g, loc)) l"
    by (rule connect_tx_success[OF assms(1,2) run])
  have lsel: "le_gateway_id l = gw_id g" "le_device_id l = dev" "active l"
    "le_client_public_key l = dev_public_key d" by (subst l, simp)+
  have inv_t: "store_inv t" using keepsD[OF keeps_CreateConnection assms(1)] assms(3) by (metis snd_conv)
  have "active_count t (gw_id g) \<le> nat (gw_capacity g)"
    using g(5) by (simp add: t active_count_append)
  moreover have "{l' \<in> set (leases t). of_device dev l'} = {l}"
    using lsel active_lease_unique[of t _ l] inv_t by (auto simp: t of_device_def store_inv_def)
  moreover have "{l' \<in> set (leases t). on_gateway (gw_id g) l' \<and> le_assigned_ip_v4 l' = le_assigned_ip_v4 l} = {l}"
    using lsel active_address_unique[of t _ l] inv_t by (auto simp: t on_gateway_def store_inv_def)
  moreover have "filter (\<lambda>l. le_device_id l \<noteq> dev) (leases t) = filter (\<lambda>l. le_device_id l \<noteq> dev) (leases s)"
    using lsel by (simp add: t filter_released)
  ultimately show ?thesis using d g(1-4) lsel conn
    by (intro exI[of _ d] exI[of _ g] exI[of _ loc] exI[of _ l]) (simp add: eligible_def)
qed

text \<open>
  A connect that returns an error has changed nothing, the release of the
  device's earlier lease included, except when the commit went through unacknowledged.
\<close>

theorem CreateConnection_atomic:
  assumes "CreateConnection e userID dev country leaseTTL hbTTL s = (Inl err, t)"
  shows "t = s \<or> e_outcome e 7 = Unacknowledged \<and>
           (\<exists>conn. connect_tx e userID dev country leaseTTL hbTTL s = (Inr conn, t))"
  using tx_Inl[OF assms[unfolded CreateConnection_def]] by blast

section \<open>Collisions and exhaustion\<close>

lemma card_used_addrs: "card (used_addrs s gid) \<le> active_count s gid"
proof -
  have "card (set (List.map_filter f xs)) \<le> length xs" for f :: "lease_row \<Rightarrow> u32 option" and xs
    by (induction xs) (auto simp: List.map_filter_simps card_insert_if split: option.split)
  then show ?thesis by (simp add: used_addrs_def active_count_def count_where_def)
qed

lemma insert_lease_fresh:
  assumes "lease_inv s" "allocateHost c4 c6 (used_addrs s gid) = Inr (v4, v6)"
    and "le_id l \<notin> le_id ` set (leases s)" "le_gateway_id l = gid" "le_assigned_ip_v4 l = v4"
    and "gid \<in> gw_id ` set (gateways s)" "le_device_id l \<in> dev_id ` set (devices s)"
  shows "insert_lease l s = (Inr (), s\<lparr>leases := leases s @ [l]\<rparr>)"
proof -
  obtain a where "v4 = IP_String (PutUint32 a)" "a \<notin> used_addrs s gid"
    using assms(2) by (rule allocateHost_fresh)
  then show ?thesis using assms by (auto simp: insert_lease_Inr used_addrs_iff)
qed

text \<open>
  A gateway whose capacity fits its IPv4 subnet: as many host numbers as leases.
\<close>

definition pool_fits :: "gateway_row \<Rightarrow> bool" where
  "pool_fits g \<longleftrightarrow>
     (\<exists>n base. ParseCIDR (gw_wg_subnet_v4 g) = Some n \<and>
        Option.bind (To4 (n_IP n)) Uint32 = Some base \<and>
        nat (gw_capacity g) \<le> card {base + h | h. 2 \<le> h \<and> h < push_bit (n_Bits n - n_Ones n) 1 - 1})"

lemma allocateHost_fits:
  assumes "pool_fits g" "active_count s (gw_id g) < nat (gw_capacity g)"
  shows "\<exists>v4 v6. allocateHost (gw_wg_subnet_v4 g) c6 (used_addrs s (gw_id g)) = Inr (v4, v6)"
proof -
  obtain n base where n: "ParseCIDR (gw_wg_subnet_v4 g) = Some n" "Option.bind (To4 (n_IP n)) Uint32 = Some base"
    and fits: "nat (gw_capacity g) \<le> card {base + h | h. 2 \<le> h \<and> h < push_bit (n_Bits n - n_Ones n) 1 - 1}"
    using assms(1) by (auto simp: pool_fits_def)
  let ?pool = "{base + h | h. 2 \<le> h \<and> h < push_bit (n_Bits n - n_Ones n) 1 - 1}"
  have "finite (used_addrs s (gw_id g))" by (simp add: used_addrs_def)
  then have "\<not> ?pool \<subseteq> used_addrs s (gw_id g)"
    using fits assms(2) card_used_addrs[of s "gw_id g"] card_mono[of "used_addrs s (gw_id g)" ?pool]
    by linarith
  then obtain h where "host_loop base (push_bit (n_Bits n - n_Ones n) 1) (used_addrs s (gw_id g)) 2 = Some h"
    using host_pool.alloc_None_iff[of base "push_bit (n_Bits n - n_Ones n) 1" "used_addrs s (gw_id g)"]
    by (cases "host_loop base (push_bit (n_Bits n - n_Ones n) 1) (used_addrs s (gw_id g)) 2") simp_all
  then show ?thesis using n by (simp add: allocateHost_def Let_def)
qed

lemma allocateHost_not_unique: "allocateHost c c6 used \<noteq> Inl ErrUnique"
  using allocateHost_Inl by fastforce

lemma connect_tx_no_unique:
  assumes inv: "store_inv s" and ord: "row_order_ok (e_order e)" and fresh: "e_uuid e 0 \<notin> le_id ` set (leases s)"
  shows "connect_tx e userID dev country leaseTTL hbTTL s \<noteq> (Inl ErrUnique, t)"
proof
  let ?s = "released_db e dev s"
  assume "connect_tx e userID dev country leaseTTL hbTTL s = (Inl ErrUnique, t)"
  then obtain d best v4 v6 chosen where d: "d \<in> set (devices s)" "device_usable userID dev d"
    and best: "Best (map cand_g (candidates e country hbTTL ?s)) = Some best"
    and chosen: "chosen = by_id (candidates e country hbTTL ?s) (g_ID best)"
    and alloc: "allocateHost (cand_subnetV4 chosen) (cand_subnetV6 chosen)
        (used_addrs ?s (g_ID (cand_g chosen))) = Inr (v4, v6)"
    and ins: "insert_lease (new_lease e (g_ID (cand_g chosen)) dev (dev_public_key d) v4 v6 leaseTTL) ?s =
        (Inl ErrUnique, t)"
    by (auto simp: connect_tx_def usedHostAddrs_def Let_def released_db_def[symmetric] act_simps act_errs
        allocateHost_not_unique split: option.splits sum.splits dest!: find_Some_set)
  have rel: "store_inv ?s" by (rule store_inv_released[OF inv])
  then obtain g loc where "g \<in> set (gateways s)" "chosen = scan_candidate ?s (g, loc)"
    using chosen_candidate[OF _ ord best] chosen by (metis released_db_simps(1) store_inv_def)
  then have "g_ID (cand_g chosen) \<in> gw_id ` set (gateways ?s)" by (simp add: g_ID_scan_candidate)
  then have "insert_lease (new_lease e (g_ID (cand_g chosen)) dev (dev_public_key d) v4 v6 leaseTTL) ?s \<noteq>
      (Inl ErrUnique, t)"
    using d rel fresh by (subst insert_lease_fresh[OF _ alloc]) (auto simp: store_inv_def device_usable_def)
  with ins show False by simp
qed

text \<open>
  From a state of the program, with an unused row id, a connect never runs
  into the unique index on addresses: the address it chose is free.
\<close>

theorem CreateConnection_no_collision:
  assumes "store_inv s" "row_order_ok (e_order e)" "e_uuid e 0 \<notin> le_id ` set (leases s)"
  shows "fst (CreateConnection e userID dev country leaseTTL hbTTL s) \<noteq> Inl ErrUnique"
proof
  assume "fst (CreateConnection e userID dev country leaseTTL hbTTL s) = Inl ErrUnique"
  then obtain t where "CreateConnection e userID dev country leaseTTL hbTTL s = (Inl ErrUnique, t)"
    by (metis prod.collapse)
  then show False unfolding CreateConnection_def
    by (cases rule: tx_InlE) (use connect_tx_no_unique[OF assms] in auto)
qed


section \<open>Leases as peers\<close>

lemma length_v6_host: "length (v6_host n6 h) = 16"
proof -
  obtain c6 where c6: "(case To16 (n_IP n6) of Some b \<Rightarrow> b | None \<Rightarrow> replicate 16 0) = c6" "length c6 = 16"
    by (auto simp: To16_def v4InV6Prefix_def split: option.splits if_splits)
  then show ?thesis by (auto simp: v6_host_def Let_def PutUint32_def split: option.split)
qed

lemma Join_not_Nil: "2 \<le> length ws \<Longrightarrow> Join c ws \<noteq> []"
  by (induction c ws rule: Join.induct) auto

lemma length_groups16: "length (groups16 bs) = length bs div 2"
  by (induction bs rule: groups16.induct) auto

lemma IP_String_not_Nil:
  assumes "length ip = 16" shows "IP_String ip \<noteq> ''''"
proof (cases "To4 ip")
  case None
  then show ?thesis using assms
    by (auto simp: IP_String_def print6_def Let_def length_groups16 Join_not_Nil split: prod.split)
next
  case (Some b)
  then have "length b = 4" using assms by (auto simp: To4_def split: if_splits)
  then show ?thesis using Some by (simp add: IP_String_def print4_def Join_not_Nil)
qed

lemma allocateHost_v6_not_Nil: "allocateHost c c6 used = Inr (v4, Some v6) \<Longrightarrow> v6 \<noteq> ''''"
  by (auto elim!: allocateHost_InrE simp: eq_commute[of "Some _"] IP_String_not_Nil length_v6_host)

lemma GatewayPeers_Inr:
  assumes "row_order_ok (e_order e)" "GatewayPeers e h s = (Inr ps, t)"
  obtains g where "g \<in> set (gateways s)" "token_live h g" "t = s"
    "ps = map peer_of (in_order (e_order e) (filter (current e (gw_id g)) (leases s)))"
proof -
  obtain g rest where hit: "in_order (e_order e) (filter (token_live h) (gateways s)) = g # rest"
    and r: "t = s" "ps = map peer_of (in_order (e_order e) (filter (current e (gw_id g)) (leases s)))"
    using assms(2) by (auto simp: GatewayPeers_def act_simps split: list.splits)
  have "g \<in> set (filter (token_live h) (gateways s))"
    using set_in_order[OF assms(1), of "filter (token_live h) (gateways s)"] hit
    by (metis list.set_intros(1))
  with r show thesis by (intro that[of g]) auto
qed

text \<open>The active leases have pairwise different keys: different devices, whose keys differ.\<close>

lemma distinct_active_keys:
  assumes "store_inv s"
  shows "distinct (map le_client_public_key (filter active (leases s)))"
proof -
  have dist: "distinct (map le_device_id (filter active (leases s)))"
    and keys: "\<And>l. l \<in> set (leases s) \<Longrightarrow>
      (le_device_id l, le_client_public_key l) \<in> (\<lambda>d. (dev_id d, dev_public_key d)) ` set (devices s)"
    using assms by (simp_all add: store_inv_def lease_inv_def)
  have dev: "distinct (map dev_public_key (devices s))" using assms by (simp add: store_inv_def schema_ok_def)
  have "le_device_id l = le_device_id l'" if "l \<in> set (leases s)" "l' \<in> set (leases s)"
    and key: "le_client_public_key l = le_client_public_key l'" for l l'
  proof -
    obtain d d' where "d \<in> set (devices s)" "d' \<in> set (devices s)"
      "le_device_id l = dev_id d" "le_client_public_key l = dev_public_key d"
      "le_device_id l' = dev_id d'" "le_client_public_key l' = dev_public_key d'"
      using keys[of l] keys[of l'] \<open>l \<in> set (leases s)\<close> \<open>l' \<in> set (leases s)\<close> by auto
    with key distinct_map_filter_inj[OF dev, of d d'] show ?thesis by simp
  qed
  then have "inj_on le_client_public_key (set (filter active (leases s)))"
    using dist by (intro inj_onI) (simp add: distinct_map inj_on_def)
  with dist show ?thesis by (simp add: distinct_map)
qed

lemma distinct_active_addresses:
  assumes "store_inv s"
  shows "distinct (map (\<lambda>l. le_assigned_ip_v4 l @ ''/32'') (filter (on_gateway gid) (leases s)))"
proof -
  have "inj_on (\<lambda>l. le_assigned_ip_v4 l @ ''/32'') (set (filter (on_gateway gid) (leases s)))"
    using assms active_address_unique[of s] by (intro inj_onI) (simp add: on_gateway_def store_inv_def)
  moreover have "distinct (leases s)"
    using assms by (simp add: store_inv_def schema_ok_def distinct_map)
  ultimately show ?thesis by (simp add: distinct_map)
qed

lemma filter_current:
  "filter (current e gid) ls = filter (current e gid) (filter active ls)"
  "filter (current e gid) ls = filter (current e gid) (filter (on_gateway gid) ls)"
  by (induction ls) (auto simp: current_def on_gateway_def)

lemma gateway_peers:
  assumes "store_inv s" "row_order_ok (e_order e)" "GatewayPeers e h s = (Inr ps, t)"
  shows "t = s \<and> distinct (map p_PublicKey ps) \<and> distinct (map (hd \<circ> p_AllowedIPs) ps) \<and>
    (\<exists>g\<in>set (gateways s). token_live h g \<and>
       mset ps = mset (map peer_of (filter (current e (gw_id g)) (leases s))))"
proof -
  from assms(2,3) obtain g where g: "g \<in> set (gateways s)" "token_live h g" "t = s"
    and ps: "ps = map peer_of (in_order (e_order e) (filter (current e (gw_id g)) (leases s)))"
    by (rule GatewayPeers_Inr)
  have m: "mset ps = mset (map peer_of (filter (current e (gw_id g)) (leases s)))"
    by (simp add: ps mset_in_order[OF assms(2)])
  have "distinct (map le_client_public_key (filter (current e (gw_id g)) (leases s)))"
    by (subst filter_current(1)) (rule distinct_map_filterI[OF distinct_active_keys[OF assms(1)]])
  moreover have "distinct (map (\<lambda>l. le_assigned_ip_v4 l @ ''/32'') (filter (current e (gw_id g)) (leases s)))"
    by (subst filter_current(2)) (rule distinct_map_filterI[OF distinct_active_addresses[OF assms(1)]])
  ultimately have "distinct (map p_PublicKey ps)" "distinct (map (hd \<circ> p_AllowedIPs) ps)"
    unfolding ps map_map comp_def peer_of_def
    by (simp_all add: distinct_in_order[OF assms(2), of le_client_public_key]
        distinct_in_order[OF assms(2), of "\<lambda>l. le_assigned_ip_v4 l @ ''/32''"])
  then show ?thesis using g m by auto
qed

text \<open>
  C17. What an agent is told: exactly the active, unexpired leases of the gateway its
  token names, no public key twice and no IPv4 address twice; reading changes nothing.
\<close>

theorem GatewayPeers_correct:
  assumes "store_inv s" "row_order_ok (e_order e)" "GatewayPeers e h s = (Inr ps, t)"
  shows "t = s \<and> distinct (map p_PublicKey ps) \<and> distinct (map (hd \<circ> p_AllowedIPs) ps) \<and>
    (\<exists>g\<in>set (gateways s). token_live h g \<and>
       mset ps = mset (map peer_of (filter (current e (gw_id g)) (leases s))))"
  by (rule gateway_peers[OF assms])

end
