(* ===== verification/Store_Fleet.thy ===== *)
theory Store_Fleet
  imports Store_Gateways
begin

text \<open>
  \<^verbatim>\<open>internal/store/locations.go\<close> and \<^verbatim>\<open>internal/store/observability.go\<close>: the list of
  locations with their gateway counts, and the counts behind the fleet metrics.
\<close>

definition gateways_at :: "db \<Rightarrow> location_row \<Rightarrow> gateway_row list" where
  "gateways_at s l = filter (\<lambda>g. gw_location_id g = loc_id l) (gateways s)"

definition location_of :: "db \<Rightarrow> location_row \<Rightarrow> location" where
  "location_of s l =
     \<lparr>l_ID = loc_id l, l_Code = loc_code l, l_CountryName = loc_country_name l, l_Enabled = loc_enabled l,
      l_ServerCount = int (length (gateways_at s l)),
      l_HealthyCount = int (count_where (\<lambda>g. gw_status g = GatewayHealthy) (gateways_at s l))\<rparr>"

definition ListLocations :: "env \<Rightarrow> location list dbact" where
  "ListLocations e =
     stmt e 0 (gets (\<lambda>s. map (location_of s)
       (sort_key (\<lambda>l. e_collate e (loc_country_name l)) (in_order (e_order e) (filter loc_enabled (locations s))))))"

text \<open>\<open>GROUP BY status\<close> yields a row for every status some gateway has.\<close>

definition gateways_by_status :: "db \<Rightarrow> gateway_status \<Rightarrow> nat option" where
  "gateways_by_status s st =
     (let n = count_where (\<lambda>g. gw_status g = st) (gateways s) in if n = 0 then None else Some n)"

definition FleetSnapshot :: "env \<Rightarrow> ((gateway_status \<Rightarrow> nat option) \<times> nat) dbact" where
  "FleetSnapshot e =
     andThen (stmt e 0 (gets gateways_by_status)) (\<lambda>byStatus.
     andThen (stmt e 1 (gets (\<lambda>s. count_where active (leases s)))) (\<lambda>activeSessions.
     ret (byStatus, activeSessions)))"

lemma keeps_fleet_queries: "keeps I (ListLocations e)" "keeps I (FleetSnapshot e)"
  unfolding ListLocations_def FleetSnapshot_def by (intro keeps_intros)+

text \<open>
  The listing shows every enabled location once, ordered by the collation of
  its country name, with its gateways counted; a location is shown as available exactly when one
  of its gateways is healthy.
\<close>

theorem ListLocations_correct:
  assumes "store_inv s" "row_order_ok (e_order e)" "ListLocations e s = (Inr ls, t)"
  shows "t = s \<and> sorted (map (\<lambda>l. e_collate e (l_CountryName l)) ls) \<and>
     mset (map l_ID ls) = mset (map loc_id (filter loc_enabled (locations s))) \<and>
     (\<forall>l\<in>set ls. Available l \<longleftrightarrow>
        (\<exists>g\<in>set (gateways s). gw_location_id g = l_ID l \<and> gw_status g = GatewayHealthy))"
proof -
  let ?rows = "sort_key (\<lambda>l. e_collate e (loc_country_name l)) (in_order (e_order e) (filter loc_enabled (locations s)))"
  have ls: "ls = map (location_of s) ?rows" "t = s"
    using assms(3) by (auto simp: ListLocations_def act_simps)
  have "sorted (map (\<lambda>l. e_collate e (l_CountryName l)) ls)"
    unfolding ls(1) map_map comp_def location_of_def location.simps by (rule sorted_sort_key)
  moreover have "mset (map l_ID ls) = mset (map loc_id (filter loc_enabled (locations s)))"
    unfolding ls(1) map_map comp_def location_of_def location.simps
    by (metis mset_map mset_sort mset_in_order[OF assms(2)])
  moreover have "Available (location_of s l) \<longleftrightarrow>
      (\<exists>g\<in>set (gateways s). gw_location_id g = l_ID (location_of s l) \<and> gw_status g = GatewayHealthy)" for l
    by (auto simp: Available_def location_of_def gateways_at_def count_where_def filter_empty_conv)
  ultimately show ?thesis using ls by auto
qed

theorem ListLocations_correct_witness:
  "\<exists>ls. ListLocations sample_env (empty_db\<lparr>locations := [sample_location]\<rparr>) =
      (Inr ls, empty_db\<lparr>locations := [sample_location]\<rparr>) \<and> mset (map l_ID ls) = {#''u0''#}"
proof -
  let ?s = "empty_db\<lparr>locations := [sample_location]\<rparr>"
  have inv: "store_inv ?s"
    by (simp add: store_inv_def schema_ok_def lease_inv_def empty_db_def)
  obtain ls where run: "ListLocations sample_env ?s = (Inr ls, ?s)"
    by (simp add: ListLocations_def stmt_def gets_def)
  have "row_order_ok (e_order sample_env)" by simp
  from ListLocations_correct[OF inv this run] run show ?thesis
    by (auto simp: sample_location_def empty_db_def)
qed

text \<open>
  The snapshot's counts add up: every status some gateway has is
  counted with the gateways that have it, and the session count is that of the active leases.
\<close>

theorem FleetSnapshot_correct:
  assumes "FleetSnapshot e s = (Inr (byStatus, n), t)"
  shows "t = s \<and> n = length (filter active (leases s)) \<and> dom byStatus = gw_status ` set (gateways s) \<and>
     (\<Sum>st \<in> dom byStatus. the (byStatus st)) = length (gateways s)"
proof -
  have r: "byStatus = gateways_by_status s" "n = length (filter active (leases s))" "t = s"
    using assms by (auto simp: FleetSnapshot_def act_simps count_where_def)
  have dom: "dom byStatus = gw_status ` set (gateways s)"
    by (auto simp: r(1) gateways_by_status_def Let_def count_where_0_iff split: if_splits)
  have total: "length gs = (\<Sum>st \<in> gw_status ` set gs. length (filter (\<lambda>g. gw_status g = st) gs))" for gs :: "gateway_row list"
  proof -
    have "count_list (map gw_status gs) st = length (filter (\<lambda>g. gw_status g = st) gs)" for st
      by (induction gs) auto
    with sum_count_set[of "map gw_status gs" "gw_status ` set gs"] show ?thesis by simp
  qed
  have count: "the (byStatus st) = length (filter (\<lambda>g. gw_status g = st) (gateways s))" if "st \<in> dom byStatus" for st
    using that by (auto simp: r(1) gateways_by_status_def Let_def count_where_def split: if_splits)
  have "(\<Sum>st \<in> dom byStatus. the (byStatus st)) =
        (\<Sum>st \<in> dom byStatus. length (filter (\<lambda>g. gw_status g = st) (gateways s)))"
    by (rule sum.cong[OF refl count])
  also have "\<dots> = length (gateways s)" unfolding dom by (rule total[symmetric])
  finally show ?thesis using r(2,3) dom by (intro conjI)
qed

theorem FleetSnapshot_correct_witness:
  "\<exists>byStatus n. FleetSnapshot sample_env sample_fleet = (Inr (byStatus, n), sample_fleet) \<and>
     (\<Sum>st \<in> dom byStatus. the (byStatus st)) = length (gateways sample_fleet)"
proof -
  obtain byStatus n where run: "FleetSnapshot sample_env sample_fleet = (Inr (byStatus, n), sample_fleet)"
    by (simp add: FleetSnapshot_def stmt_def gets_def andThen_def ret_def)
  with FleetSnapshot_correct[OF run] show ?thesis by blast
qed

end
