(* ===== verification/Lease_Lifecycle.thy ===== *)
theory Lease_Lifecycle
  imports Store_Connections Store_Fleet
begin

text \<open>
  Leases from the connect to their end: a small network on which the connect transaction is
  evaluated, the way from a connection to the peer its gateway is told, and what release,
  renewal, expiry and failover do to the leases.
\<close>

section \<open>A small network\<close>

definition sample_device :: device_row where
  "sample_device = \<lparr>dev_id = ''dev'', dev_user_id = ''usr'', dev_name = ''phone'', dev_platform = ''ios'',
     dev_public_key = ''ck'', dev_created_at = 0, dev_last_seen_at = None, dev_revoked_at = None\<rparr>"

definition sample_user :: user_row where
  "sample_user = \<lparr>usr_id = ''usr'', usr_email = ''a@b'', usr_display_name = None, usr_status = ''active'',
     usr_created_at = 0, usr_password_hash = None\<rparr>"

definition sample_gw_row :: gateway_row where
  "sample_gw_row = \<lparr>gw_id = ''gw'', gw_location_id = ''loc'', gw_name = ''de-fra-1'', gw_city = None,
     gw_region = None, gw_public_key = ''gk'', gw_endpoint_host = ''192.0.2.1'', gw_endpoint_port = 443,
     gw_wg_subnet_v4 = ''10.7.50.0/29'', gw_wg_subnet_v6 = None, gw_capacity = 2, gw_bandwidth_mbps = None,
     gw_latitude = None, gw_longitude = None, gw_status = GatewayHealthy, gw_active_peers = 0,
     gw_cpu_pct = 0, gw_rx_bps = 0, gw_tx_bps = 0, gw_agent_token_hash = Some ''h'',
     gw_last_heartbeat_at = Some (10 ^ 18)\<rparr>"

definition sample_net :: db where
  "sample_net = \<lparr>users = [sample_user], invites = [], devices = [sample_device],
     locations = [\<lparr>loc_id = ''loc'', loc_code = ''de'', loc_country_name = ''Germany'', loc_enabled = True\<rparr>],
     gateways = [sample_gw_row], leases = [], refresh_tokens = []\<rparr>"

abbreviation sample_connect :: "connection dbact" where
  "sample_connect \<equiv> CreateConnection sample_env ''usr'' ''dev'' ''de'' 3600000000000 30000000000"

lemma store_inv_sample_net: "store_inv sample_net"
  by (simp add: store_inv_def schema_ok_def lease_inv_def sample_net_def sample_user_def
      sample_device_def sample_gw_row_def ValidPlatform_def)

section \<open>From the connection to the gateway\<close>

lemma gateway_name_unique:
  "schema_ok s \<Longrightarrow> g \<in> set (gateways s) \<Longrightarrow> g' \<in> set (gateways s) \<Longrightarrow> gw_name g = gw_name g' \<Longrightarrow> g = g'"
  unfolding schema_ok_def by (meson distinct_map_filter_inj)

lemma GatewayPeers_run:
  assumes ord: "row_order_ok (e_order e)" and ok: "e_outcome e 0 = Done" "e_outcome e 1 = Done"
    and g: "g \<in> set (gateways s)" "\<And>g'. g' \<in> set (gateways s) \<Longrightarrow> token_live h g' \<longleftrightarrow> g' = g"
  shows "GatewayPeers e h s =
    (Inr (map peer_of (in_order (e_order e) (filter (current e (gw_id g)) (leases s)))), s)"
proof -
  have "filter (token_live h) (gateways s) \<noteq> []" using g by (auto simp: filter_empty_conv)
  then obtain x xs where hit: "in_order (e_order e) (filter (token_live h) (gateways s)) = x # xs"
    using in_order_Cons_iff[OF ord] by metis
  then have "x \<in> set (filter (token_live h) (gateways s))"
    using set_in_order[OF ord] by (metis list.set_intros(1))
  then have "x = g" using g(2)[of x] by simp
  with hit ok show ?thesis by (simp add: GatewayPeers_def stmt_def gets_def andThen_def)
qed



section \<open>Release and renewal\<close>

context statements
begin

lemma ReleaseConnection_kept: "keeps I (ReleaseConnection e userID leaseID)"
proof -
  have k: "keeps I (update_leases p (release now))" for p now by (rule leases_kept) simp_all
  show ?thesis unfolding ReleaseConnection_def
    by (rule keeps_andThen[OF keeps_stmt[OF keeps_update_reader[OF k]] keeps_failIf])
qed

lemma RenewConnection_kept: "keeps I (RenewConnection e userID leaseID ttl)"
proof -
  have k: "keeps I (update_leases p (\<lambda>l. l\<lparr>le_expires_at := x\<rparr>))" for p x
    by (rule leases_kept) (simp_all add: active_def)
  show ?thesis unfolding RenewConnection_def Let_def
    by (rule keeps_andThen[OF keeps_stmt[OF keeps_update_reader[OF k]]])
       (intro keeps_andThen keeps_failIf keeps_ret)
qed

end

lemma owned_lease_unique:
  assumes "schema_ok s" "l \<in> set (leases s)" "owned_lease s u i l" "l' \<in> set (leases s)" "active l'"
  shows "owned_lease s u i l' \<longleftrightarrow> le_id l' = i"
  using lease_unique[OF assms(1,4,2)] assms(3,5) by (auto simp: owned_lease_def)

text \<open>
  A release that reaches the database ends exactly the named lease, and only for the user
  whose device holds it while it is active; otherwise it reports not-found and changes nothing.
\<close>

theorem ReleaseConnection_correct:
  assumes "store_inv s" "e_outcome e 0 = Done"
  shows "case ReleaseConnection e userID leaseID s of
           (Inl err, t) \<Rightarrow> err = ErrNotFound \<and> t = s \<and> (\<forall>l\<in>set (leases s). \<not> owned_lease s userID leaseID l)
         | (Inr _, t) \<Rightarrow> (\<exists>l\<in>set (leases s). owned_lease s userID leaseID l) \<and>
             filter active (leases t) = filter (\<lambda>l. active l \<and> le_id l \<noteq> leaseID) (leases s)"
proof (cases "\<exists>l\<in>set (leases s). owned_lease s userID leaseID l")
  case False
  then show ?thesis
    by (simp add: ReleaseConnection_def stmt_def assms(2) andThen_def exec_update_def count_where_0_iff
        update_where_none failIf_def throw_def)
next
  case True
  then obtain l where l: "l \<in> set (leases s)" "owned_lease s userID leaseID l" by blast
  have "filter active (update_where (owned_lease s userID leaseID) (release (e_now e)) (leases s)) =
        filter (\<lambda>l. active l \<and> \<not> owned_lease s userID leaseID l) (leases s)"
    by (rule filter_update_where_drop) simp
  also have "\<dots> = filter (\<lambda>l. active l \<and> le_id l \<noteq> leaseID) (leases s)"
    using owned_lease_unique[OF _ l] assms(1) by (intro filter_cong refl) (auto simp: store_inv_def)
  finally show ?thesis using l
    by (auto simp: ReleaseConnection_def stmt_def assms(2) andThen_def exec_update_def count_where_0_iff
        failIf_def ret_def)
qed

text \<open>
  A renewal that reaches the database moves the expiry of exactly the named active lease of
  the caller and returns it; otherwise it reports not-found and changes nothing.
\<close>

theorem RenewConnection_correct:
  assumes "store_inv s" "e_outcome e 0 = Done"
  shows "case RenewConnection e userID leaseID ttl s of
           (Inl err, t) \<Rightarrow> err = ErrNotFound \<and> t = s \<and> (\<forall>l\<in>set (leases s). \<not> owned_lease s userID leaseID l)
         | (Inr x, t) \<Rightarrow> x = e_now e + make_interval (Seconds ttl) \<and>
             (\<exists>l\<in>set (leases s). owned_lease s userID leaseID l \<and>
                set (leases t) = insert (l\<lparr>le_expires_at := x\<rparr>) (set (leases s) - {l}))"
proof (cases "\<exists>l\<in>set (leases s). owned_lease s userID leaseID l")
  case False
  then show ?thesis
    by (simp add: RenewConnection_def Let_def stmt_def assms(2) andThen_def exec_update_def count_where_0_iff
        update_where_none failIf_def throw_def)
next
  case True
  then obtain l where l: "l \<in> set (leases s)" "owned_lease s userID leaseID l" by blast
  have one: "l' = l" if "l' \<in> set (leases s)" "owned_lease s userID leaseID l'" for l'
    using that l lease_unique[of s l' l] assms(1) by (simp add: store_inv_def owned_lease_def)
  have "set (update_where (owned_lease s userID leaseID) f (leases s)) = insert (f l) (set (leases s) - {l})" for f
    using one l by (subst set_update_where_one[of l]) blast+
  then show ?thesis using l
    by (auto simp: RenewConnection_def Let_def stmt_def assms(2) andThen_def exec_update_def count_where_0_iff
        failIf_def ret_def)
qed

section \<open>The reaper\<close>

text \<open>
  One tick of \<open>runReaper\<close> (\<^verbatim>\<open>cmd/aevora-controld/main.go\<close>): three sweeps and a snapshot for the
  metrics, each a call of its own; an error is logged and the next one runs. The second result is
  what \<open>UpdateFleet\<close> is called with.
\<close>

definition reaper_tick ::
  "env \<Rightarrow> env \<Rightarrow> env \<Rightarrow> env \<Rightarrow> duration \<Rightarrow> db \<Rightarrow> db \<times> ((gateway_status \<Rightarrow> nat option) \<times> nat) option" where
  "reaper_tick e1 e2 e3 e4 ttl s =
     (let s1 = snd (MarkStaleUnhealthy e1 ttl s);
          s2 = snd (ExpireStaleLeases e2 s1);
          s3 = snd (ExpireLeasesOnUnhealthyGateways e3 s2)
      in case FleetSnapshot e4 s3 of (Inl _, s4) \<Rightarrow> (s4, None) | (Inr snapshot, s4) \<Rightarrow> (s4, Some snapshot))"

lemma not_active_expire [simp]: "\<not> active (expire l)"
  by (simp add: active_def expire_def)

lemma expire_sel [simp]:
  "le_id (expire l) = le_id l" "le_gateway_id (expire l) = le_gateway_id l"
  "le_device_id (expire l) = le_device_id l" "le_assigned_ip_v4 (expire l) = le_assigned_ip_v4 l" "le_assigned_ip_v6 (expire l) = le_assigned_ip_v6 l"
  "le_client_public_key (expire l) = le_client_public_key l"
  by (simp_all add: expire_def)

context statements
begin

lemma expire_kept: "keeps I (update_leases p expire)"
  by (rule leases_kept) simp_all

lemma ExpireStaleLeases_kept: "keeps I (ExpireStaleLeases e)"
  unfolding ExpireStaleLeases_def by (rule keeps_stmt[OF expire_kept])

lemma ExpireLeasesOnUnhealthyGateways_kept: "keeps I (ExpireLeasesOnUnhealthyGateways e)"
  unfolding ExpireLeasesOnUnhealthyGateways_def by (rule keeps_stmt[OF keeps_update_reader[OF expire_kept]])

end

lemma FleetSnapshot_state: "snd (FleetSnapshot e s) = s"
  by (auto simp: FleetSnapshot_def andThen_def stmt_def gets_def throw_def ret_def split: outcome.splits)

lemma fst_reaper_tick:
  "fst (reaper_tick e1 e2 e3 e4 ttl s) =
     snd (ExpireLeasesOnUnhealthyGateways e3 (snd (ExpireStaleLeases e2 (snd (MarkStaleUnhealthy e1 ttl s)))))"
  using FleetSnapshot_state
  by (auto simp: reaper_tick_def Let_def split: prod.splits sum.splits) (metis snd_conv)+

context statements
begin

lemma reaper_tick_kept: "I s \<Longrightarrow> I (fst (reaper_tick e1 e2 e3 e4 ttl s))"
  unfolding fst_reaper_tick
  by (intro keepsD[OF ExpireLeasesOnUnhealthyGateways_kept] keepsD[OF ExpireStaleLeases_kept]
      keepsD[OF MarkStaleUnhealthy_kept])

end

lemma MarkStaleUnhealthy_leases: "leases (snd (MarkStaleUnhealthy e ttl s)) = leases s"
  by (auto simp: MarkStaleUnhealthy_def stmt_def throw_def exec_update_def split: outcome.splits)

text \<open>
  C18. After a tick whose statements go through, the active leases are exactly those
  active before that are not past their expiry and whose gateway is healthy with a heartbeat
  within the time to live; a dead gateway keeps no lease.
\<close>

theorem reaper_tick_correct:
  assumes inv: "store_inv s"
    and ok: "e_outcome e1 0 = Done" "e_outcome e2 0 = Done" "e_outcome e3 0 = Done"
  shows "filter active (leases (fst (reaper_tick e1 e2 e3 e4 ttl s))) =
     filter (\<lambda>l. active l \<and> e_now e2 \<le> le_expires_at l \<and>
        (\<exists>g\<in>set (gateways s). gw_id g = le_gateway_id l \<and> gw_status g = GatewayHealthy \<and>
           heartbeat_fresh e1 ttl g)) (leases s)"
proof -
  let ?s1 = "s\<lparr>gateways := update_where (stale e1 ttl) (\<lambda>g. g\<lparr>gw_status := GatewayUnhealthy\<rparr>) (gateways s)\<rparr>"
  let ?bad = "\<lambda>l. active l \<and> le_gateway_id l \<in> gw_id ` {g \<in> set (gateways ?s1). gw_status g \<noteq> GatewayHealthy}"
  have "leases (fst (reaper_tick e1 e2 e3 e4 ttl s)) =
      update_where ?bad expire (update_where (\<lambda>l. active l \<and> le_expires_at l < e_now e2) expire (leases s))"
    by (simp add: fst_reaper_tick MarkStaleUnhealthy_def ExpireStaleLeases_def
        ExpireLeasesOnUnhealthyGateways_def stmt_def ok exec_update_def)
  then have act: "filter active (leases (fst (reaper_tick e1 e2 e3 e4 ttl s))) =
      filter (\<lambda>l. \<not> ?bad l) (filter (\<lambda>l. active l \<and> \<not> le_expires_at l < e_now e2) (leases s))"
    by (simp add: filter_update_where_drop) (rule filter_cong[OF refl], blast)
  have "\<not> ?bad l \<longleftrightarrow> (\<exists>g\<in>set (gateways s). gw_id g = le_gateway_id l \<and> gw_status g = GatewayHealthy \<and>
           heartbeat_fresh e1 ttl g)" if l: "l \<in> set (leases s)" and act_l: "active l" for l
  proof -
    obtain g where g: "g \<in> set (gateways s)" "le_gateway_id l = gw_id g"
      using inv l by (auto simp: store_inv_def schema_ok_def)
    have one: "g' = g" if "g' \<in> set (gateways s)" "gw_id g' = gw_id g" for g'
      using gateway_unique[of s g' g] that g(1) inv by (simp add: store_inv_def)
    have "?bad l \<longleftrightarrow> (\<exists>g'\<in>set (gateways ?s1). gw_status g' \<noteq> GatewayHealthy \<and> gw_id g' = gw_id g)"
      using g(2) act_l by (auto simp: image_iff)
    also have "\<dots> \<longleftrightarrow> (\<exists>g'\<in>set (gateways s). gw_id g' = gw_id g \<and>
        (stale e1 ttl g' \<or> gw_status g' \<noteq> GatewayHealthy))"
      by (simp add: bex_update_where) (meson)
    also have "\<dots> \<longleftrightarrow> stale e1 ttl g \<or> gw_status g \<noteq> GatewayHealthy" using g(1) one by blast
    finally have "?bad l \<longleftrightarrow> stale e1 ttl g \<or> gw_status g \<noteq> GatewayHealthy" .
    moreover have "\<not> (stale e1 ttl g \<or> gw_status g \<noteq> GatewayHealthy) \<longleftrightarrow>
        gw_status g = GatewayHealthy \<and> heartbeat_fresh e1 ttl g"
      by (auto simp: stale_def heartbeat_fresh_def split: option.split)
    moreover have "(\<exists>g\<in>set (gateways s). gw_id g = le_gateway_id l \<and> gw_status g = GatewayHealthy \<and>
        heartbeat_fresh e1 ttl g) \<longleftrightarrow> gw_status g = GatewayHealthy \<and> heartbeat_fresh e1 ttl g"
      using g one by metis
    ultimately show ?thesis by (simp only:)
  qed
  then show ?thesis unfolding act filter_filter by (intro filter_cong) auto
qed

section \<open>The properties on the small network\<close>

lemma sample_connect_run:
  "map_prod (map_sum id (\<lambda>c. (c_AssignedIPv4 c, c_Endpoint c, c_ID c)))
     (\<lambda>t. (map le_device_id (leases t), map le_assigned_ip_v4 (leases t))) (sample_connect sample_net) =
   (Inr (''10.7.50.2/32'', ''192.0.2.1:443'', ''u0''), [''dev''], [''10.7.50.2''])"
  by code_simp

lemma sample_connect_ok:
  obtains conn t where "sample_connect sample_net = (Inr conn, t)" "c_AssignedIPv4 conn = ''10.7.50.2/32''"
    "c_ID conn = ''u0''" "map le_device_id (leases t) = [''dev'']"
proof -
  obtain r t where rt: "sample_connect sample_net = (r, t)" by (cases "sample_connect sample_net")
  then show thesis using sample_connect_run that by (cases r) auto
qed

theorem CreateConnection_correct_witness:
  "\<exists>conn t. sample_connect sample_net = (Inr conn, t) \<and>
     (\<exists>d g loc l. d \<in> set (devices sample_net) \<and> device_usable ''usr'' ''dev'' d \<and>
       g \<in> set (gateways sample_net) \<and> gw_status g = GatewayHealthy \<and>
       active_count t (gw_id g) \<le> nat (gw_capacity g) \<and>
       {l' \<in> set (leases t). of_device ''dev'' l'} = {l} \<and>
       conn = connection_of (scan_candidate (released_db sample_env ''dev'' sample_net) (g, loc)) l)"
proof -
  obtain conn t where run: "sample_connect sample_net = (Inr conn, t)" by (rule sample_connect_ok)
  have "row_order_ok (e_order sample_env)" by simp
  from CreateConnection_correct[OF store_inv_sample_net this run] run show ?thesis by blast
qed

theorem CreateConnection_atomic_witness:
  "snd (CreateConnection sample_env ''usr'' ''none'' ''de'' 3600000000000 30000000000 sample_net) = sample_net"
proof -
  have "fst (CreateConnection sample_env ''usr'' ''none'' ''de'' 3600000000000 30000000000 sample_net) =
      Inl ErrDeviceNotFound"
    by (simp add: CreateConnection_def tx_def connect_tx_def stmt_def andThen_def ret_def gets_def throw_def
        sample_net_def sample_device_def device_usable_def)
  then obtain t where "CreateConnection sample_env ''usr'' ''none'' ''de'' 3600000000000 30000000000 sample_net =
      (Inl ErrDeviceNotFound, t)" by (metis prod.collapse)
  then show ?thesis using CreateConnection_atomic by fastforce
qed

theorem CreateConnection_no_collision_witness:
  "fst (sample_connect sample_net) \<noteq> Inl ErrUnique"
  by (rule CreateConnection_no_collision[OF store_inv_sample_net]) (simp_all add: sample_net_def)

lemma sample_eligible:
  "eligible sample_env ''de'' 30000000000 (sample_gw_row, \<lparr>loc_id = ''loc'', loc_code = ''de'', loc_country_name = ''Germany'', loc_enabled = True\<rparr>)"
  by code_simp

lemma sample_pool_fits: "pool_fits sample_gw_row"
proof -
  let ?pool = "{0x0A073200 + h | h :: u32. 2 \<le> h \<and> h < push_bit (32 - 29) 1 - 1}"
  have parse: "ParseCIDR ''10.7.50.0/29'' = Some \<lparr>n_IP = [10, 7, 50, 0], n_Ones = 29, n_Bits = 32\<rparr>" by code_simp
  have base: "Option.bind (To4 [10, 7, 50, 0]) Uint32 = Some 0x0A073200" by code_simp
  have mem: "0x0A073200 + 2 \<in> ?pool" "0x0A073200 + 3 \<in> ?pool"
    by (rule CollectI, rule exI[of _ 2], simp) (rule CollectI, rule exI[of _ 3], simp)
  have "card {0x0A073202 :: u32, 0x0A073203} \<le> card ?pool"
    by (rule card_mono) (use mem in auto)
  then have "nat 2 \<le> card ?pool" by simp
  with parse base show ?thesis unfolding pool_fits_def
    by (intro exI[of _ "\<lparr>n_IP = [10, 7, 50, 0], n_Ones = 29, n_Bits = 32\<rparr>"] exI[of _ "0x0A073200"])
       (simp add: sample_gw_row_def)
qed


definition sample_lease :: lease_row where
  "sample_lease = \<lparr>le_id = ''l1'', le_gateway_id = ''gw'', le_device_id = ''dev'', le_client_public_key = ''ck'',
     le_assigned_ip_v4 = ''10.7.50.2'', le_assigned_ip_v6 = None, le_state = LActive, le_created_at = 0,
     le_expires_at = 2 * 10 ^ 18, le_released_at = None\<rparr>"

definition sample_leased :: db where
  "sample_leased = sample_net\<lparr>leases := [sample_lease]\<rparr>"

lemma sample_address: "''10.7.50.2'' = IP_String (PutUint32 0x0A073202)"
  by code_simp

lemma store_inv_sample_leased: "store_inv sample_leased"
proof -
  have "\<exists>a. ''10.7.50.2'' = IP_String (PutUint32 a)" by (rule exI, rule sample_address)
  then show ?thesis
    by (simp add: sample_leased_def sample_lease_def store_inv_def schema_ok_def lease_inv_def sample_net_def
        sample_user_def sample_device_def sample_gw_row_def ValidPlatform_def active_def)
qed

lemma sample_owned: "owned_lease sample_leased ''usr'' ''l1'' sample_lease"
  by (auto simp: owned_lease_def sample_leased_def sample_lease_def sample_net_def sample_device_def active_def
      image_iff)

lemma sample_leased_simps: "leases sample_leased = [sample_lease]" "gateways sample_leased = [sample_gw_row]"
  by (simp_all add: sample_leased_def sample_net_def)

theorem GatewayPeers_correct_witness:
  "\<exists>ps. GatewayPeers sample_env ''h'' sample_leased = (Inr ps, sample_leased) \<and> distinct (map p_PublicKey ps)"
proof -
  have "row_order_ok (e_order sample_env)" by simp
  moreover have "GatewayPeers sample_env ''h'' sample_leased =
      (Inr (map peer_of (in_order (e_order sample_env) (filter (current sample_env (gw_id sample_gw_row)) (leases sample_leased)))),
       sample_leased)"
    by (rule GatewayPeers_run) (auto simp: sample_leased_simps token_live_def sample_gw_row_def)
  ultimately show ?thesis using GatewayPeers_correct[OF store_inv_sample_leased] by blast
qed


theorem ReleaseConnection_correct_witness:
  "case ReleaseConnection sample_env ''usr'' ''l1'' sample_leased of
     (Inl _, _) \<Rightarrow> False | (Inr _, t) \<Rightarrow> filter active (leases t) = []"
  using ReleaseConnection_correct[OF store_inv_sample_leased, where e = sample_env and userID = "''usr''" and leaseID = "''l1''"]
    sample_owned
  by (auto simp: sample_leased_simps sample_lease_def split: prod.splits sum.splits)

theorem RenewConnection_correct_witness:
  "case RenewConnection sample_env ''usr'' ''l1'' 3600000000000 sample_leased of
     (Inl _, _) \<Rightarrow> False
   | (Inr x, t) \<Rightarrow> set (leases t) = {sample_lease\<lparr>le_expires_at := x\<rparr>}"
  using RenewConnection_correct[OF store_inv_sample_leased, where e = sample_env and userID = "''usr''" and
      leaseID = "''l1''" and ttl = 3600000000000] sample_owned
  by (auto simp: sample_leased_simps split: prod.splits sum.splits)

theorem reaper_tick_correct_witness:
  "filter active (leases (fst (reaper_tick (sample_env\<lparr>e_now := 3 * 10 ^ 18\<rparr>) sample_env sample_env sample_env
      30000000000 sample_leased))) = []"
proof -
  have late: "\<not> heartbeat_fresh (sample_env\<lparr>e_now := 3 * 10 ^ 18\<rparr>) 30000000000 sample_gw_row" by code_simp
  have "e_outcome (sample_env\<lparr>e_now := 3 * 10 ^ 18\<rparr>) 0 = Done" "e_outcome sample_env 0 = Done" by simp_all
  from reaper_tick_correct[OF store_inv_sample_leased this(1) this(2) this(2)] late
  show ?thesis by (simp add: sample_leased_simps)
qed

end
