(* ===== verification/Store_Identity.thy ===== *)
theory Store_Identity
  imports Lease_Lifecycle
begin

text \<open>
  \<^verbatim>\<open>internal/store/identity.go\<close>: enrolment by invite, devices and their refresh tokens,
  revocation, and the credentials of password logins. Enrolment and the creation of a device
  are transactions; revocation is three statements on their own.
\<close>

section \<open>Refresh tokens and devices\<close>

text \<open>\<open>rnd\<close>, \<open>uid\<close> and \<open>k\<close> number the random draw, the generated id and the statement of the call.\<close>

definition newRefreshToken :: "env \<Rightarrow> nat \<Rightarrow> nat \<Rightarrow> nat \<Rightarrow> string \<Rightarrow> duration \<Rightarrow> string dbact" where
  "newRefreshToken e rnd uid k deviceID ttl =
     (case GenerateToken (e_rand e rnd) of
        None \<Rightarrow> throw ErrRand
      | Some plain \<Rightarrow>
          andThen (stmt e k (insert_refresh
            \<lparr>rt_id = e_uuid e uid, rt_device_id = deviceID, rt_token_hash = HashToken plain,
             rt_created_at = e_now e, rt_expires_at = e_now e + make_interval (Seconds ttl),
             rt_revoked_at = None\<rparr>))
          (\<lambda>_. ret plain))"

definition isUniqueViolation :: "store_error \<Rightarrow> bool" where
  "isUniqueViolation err \<longleftrightarrow> err = ErrUnique"

definition device_row_of :: "env \<Rightarrow> nat \<Rightarrow> string \<Rightarrow> device_registration \<Rightarrow> device_row" where
  "device_row_of e uid userID r =
     \<lparr>dev_id = e_uuid e uid, dev_user_id = userID, dev_name = dr_Name r, dev_platform = dr_Platform r,
      dev_public_key = dr_PublicKey r, dev_created_at = e_now e, dev_last_seen_at = None,
      dev_revoked_at = None\<rparr>"

definition scan_device :: "device_row \<Rightarrow> device" where
  "scan_device d =
     \<lparr>d_ID = dev_id d, d_UserID = dev_user_id d, d_Name = dev_name d, d_Platform = dev_platform d,
      d_PublicKey = dev_public_key d, d_CreatedAt = dev_created_at d, d_LastSeenAt = dev_last_seen_at d,
      d_RevokedAt = dev_revoked_at d\<rparr>"

definition insertDevice :: "env \<Rightarrow> nat \<Rightarrow> nat \<Rightarrow> string \<Rightarrow> device_registration \<Rightarrow> device dbact" where
  "insertDevice e uid k userID r = (\<lambda>s.
     case stmt e k (insert_device (device_row_of e uid userID r)) s of
       (Inl err, t) \<Rightarrow> (Inl (if isUniqueViolation err then ErrDeviceKeyTaken else err), t)
     | (Inr _, t) \<Rightarrow> (Inr (scan_device (device_row_of e uid userID r)), t))"


section \<open>Enrolment\<close>

definition invite_usable :: "env \<Rightarrow> invite_row \<Rightarrow> bool" where
  "invite_usable e i \<longleftrightarrow>
     \<not> (inv_used_at i \<noteq> None \<or> (case inv_expires_at i of None \<Rightarrow> False | Some t \<Rightarrow> t < e_clock e))"

text \<open>\<open>INSERT INTO users ... ON CONFLICT (email) DO UPDATE ... RETURNING\<close>; emails compare as \<open>citext\<close>.\<close>

definition scan_user :: "user_row \<Rightarrow> user" where
  "scan_user u =
     \<lparr>u_ID = usr_id u, u_Email = usr_email u, u_DisplayName = coalesce '''' (usr_display_name u),
      u_Status = usr_status u, u_CreatedAt = usr_created_at u\<rparr>"

definition upsert_user :: "env \<Rightarrow> string \<Rightarrow> string option \<Rightarrow> user dbact" where
  "upsert_user e email display = (\<lambda>s.
     case find (\<lambda>u. EqualFold (usr_email u) email) (users s) of
       Some u \<Rightarrow>
         let f = (\<lambda>u. u\<lparr>usr_display_name := (case display of None \<Rightarrow> usr_display_name u | Some d \<Rightarrow> Some d)\<rparr>)
         in (Inr (scan_user (f u)), s\<lparr>users := update_where (\<lambda>u. EqualFold (usr_email u) email) f (users s)\<rparr>)
     | None \<Rightarrow>
         let u = \<lparr>usr_id = e_uuid e 0, usr_email = email, usr_display_name = display, usr_status = ''active'',
                  usr_created_at = e_now e, usr_password_hash = None\<rparr>
         in andThen (insert_user u) (\<lambda>_. ret (scan_user u)) s)"

definition enroll_tx :: "env \<Rightarrow> enroll_request \<Rightarrow> duration \<Rightarrow> (user \<times> device \<times> string) dbact" where
  "enroll_tx e req refreshTTL =
     andThen (stmt e 0 (ret ())) (\<lambda>_.
     andThen (stmt e 1 (gets (\<lambda>s. find (\<lambda>i. inv_code i = e_InviteCode req) (invites s)))) (\<lambda>found.
     case found of
       None \<Rightarrow> throw ErrInviteInvalid
     | Some i \<Rightarrow>
         andThen (failIf (\<not> invite_usable e i) ErrInviteInvalid) (\<lambda>_.
         andThen (stmt e 2 (upsert_user e (e_Email req) (nilIfEmpty (e_DisplayName req)))) (\<lambda>u.
         andThen (insertDevice e 1 3 (u_ID u) (e_Device req)) (\<lambda>d.
         andThen (stmt e 4 (update_invites (\<lambda>i. inv_code i = e_InviteCode req)
                   (\<lambda>i. i\<lparr>inv_used_by := Some (u_ID u), inv_used_at := Some (e_now e)\<rparr>))) (\<lambda>_.
         andThen (newRefreshToken e 0 2 5 (d_ID d) refreshTTL) (\<lambda>refresh.
         ret (u, d, refresh))))))))"

definition Enroll :: "env \<Rightarrow> enroll_request \<Rightarrow> duration \<Rightarrow> (user \<times> device \<times> string) dbact" where
  "Enroll e req refreshTTL = tx e 6 (enroll_tx e req refreshTTL)"

definition CreateDevice :: "env \<Rightarrow> string \<Rightarrow> device_registration \<Rightarrow> duration \<Rightarrow> (device \<times> string) dbact" where
  "CreateDevice e userID r refreshTTL =
     tx e 3 (
       andThen (stmt e 0 (ret ())) (\<lambda>_.
       andThen (insertDevice e 0 1 userID r) (\<lambda>d.
       andThen (newRefreshToken e 0 1 2 (d_ID d) refreshTTL) (\<lambda>refresh.
       ret (d, refresh)))))"

definition ListDevices :: "env \<Rightarrow> string \<Rightarrow> device list dbact" where
  "ListDevices e userID =
     stmt e 0 (gets (\<lambda>s. map scan_device
       (sort_key (\<lambda>d. - dev_created_at d)
         (in_order (e_order e) (filter (\<lambda>d. dev_user_id d = userID) (devices s))))))"


section \<open>Revocation and refresh\<close>

definition RevokeDevice :: "env \<Rightarrow> string \<Rightarrow> string \<Rightarrow> unit dbact" where
  "RevokeDevice e userID deviceID =
     andThen (stmt e 0 (update_devices (device_usable userID deviceID) (\<lambda>d. d\<lparr>dev_revoked_at := Some (e_now e)\<rparr>))) (\<lambda>affected.
     andThen (failIf (affected = 0) ErrNotFound) (\<lambda>_.
     andThen (stmt e 1 (update_refresh (\<lambda>t. rt_device_id t = deviceID \<and> rt_revoked_at t = None)
                          (\<lambda>t. t\<lparr>rt_revoked_at := Some (e_now e)\<rparr>))) (\<lambda>_.
     andThen (stmt e 2 (update_leases (of_device deviceID) expire)) (\<lambda>_.
     ret ()))))"

definition refresh_live :: "env \<Rightarrow> string \<Rightarrow> refresh_row \<times> device_row \<Rightarrow> bool" where
  "refresh_live e hash td = (case td of (t, d) \<Rightarrow>
     dev_id d = rt_device_id t \<and> rt_token_hash t = hash \<and> rt_revoked_at t = None \<and>
     e_now e < rt_expires_at t \<and> dev_revoked_at d = None)"

definition RefreshAccess :: "env \<Rightarrow> string \<Rightarrow> (string \<times> string) dbact" where
  "RefreshAccess e refreshPlain =
     andThen (stmt e 0 (gets (\<lambda>s. in_order (e_order e)
         (filter (refresh_live e (HashToken refreshPlain)) (List.product (refresh_tokens s) (devices s))))))
       (\<lambda>hits. case hits of
          [] \<Rightarrow> throw ErrInvalidToken
        | (t, d) # _ \<Rightarrow>
            (\<lambda>s. (Inr (dev_user_id d, dev_id d),
                   snd (stmt e 1 (update_devices (\<lambda>x. dev_id x = dev_id d)
                                   (\<lambda>x. x\<lparr>dev_last_seen_at := Some (e_now e)\<rparr>)) s))))"


section \<open>Invites and passwords\<close>

definition CreateInvite :: "env \<Rightarrow> string \<Rightarrow> string \<Rightarrow> instant option \<Rightarrow> unit dbact" where
  "CreateInvite e code note expiresAt =
     stmt e 0 (insert_invite
       \<lparr>inv_code = code, inv_note = nilIfEmpty note, inv_used_by = None, inv_expires_at = expiresAt,
        inv_used_at = None, inv_created_at = e_now e\<rparr>)"

definition SetPassword :: "env \<Rightarrow> string \<Rightarrow> string \<Rightarrow> unit dbact" where
  "SetPassword e userID passwordHash =
     andThen (stmt e 0 (update_users (\<lambda>u. usr_id u = userID) (\<lambda>u. u\<lparr>usr_password_hash := Some passwordHash\<rparr>)))
       (\<lambda>affected. failIf (affected = 0) ErrNotFound)"

definition GetCredentialsByEmail :: "env \<Rightarrow> string \<Rightarrow> (string \<times> string \<times> string) dbact" where
  "GetCredentialsByEmail e email =
     andThen (stmt e 0 (gets (\<lambda>s. find (\<lambda>u. EqualFold (usr_email u) email) (users s))))
       (\<lambda>found. case found of
          None \<Rightarrow> throw ErrNotFound
        | Some u \<Rightarrow> ret (usr_id u, coalesce '''' (usr_password_hash u), usr_status u))"


section \<open>Invariants\<close>

context statements
begin

lemma insertDevice_kept: "keeps I (insertDevice e uid k userID r)"
proof -
  have "keeps I (stmt e k (insert_device (device_row_of e uid userID r)))" by (intro keeps_stmt insert_device_kept)
  then show ?thesis
    by (auto simp: keeps_def insertDevice_def split: prod.splits sum.splits)
qed

lemma newRefreshToken_kept: "keeps I (newRefreshToken e rnd uid k dev ttl)"
  unfolding newRefreshToken_def by (auto split: option.split intro!: keeps_intros insert_refresh_kept)

lemma upsert_user_kept: "keeps I (upsert_user e email display)"
proof (rule keepsI)
  fix s assume s: "I s"
  show "I (snd (upsert_user e email display s))"
  proof (cases "find (\<lambda>u. EqualFold (usr_email u) email) (users s)")
    case None
    have "keeps I (andThen (insert_user u) (\<lambda>_. ret (scan_user u) :: user dbact))" for u
      by (intro keeps_andThen insert_user_kept keeps_ret)
    with None s show ?thesis by (simp add: upsert_user_def Let_def keepsD)
  next
    case (Some u)
    have "keeps I (update_users (\<lambda>u. EqualFold (usr_email u) email)
        (\<lambda>u. u\<lparr>usr_display_name := (case display of None \<Rightarrow> usr_display_name u | Some d \<Rightarrow> Some d)\<rparr>))"
      by (rule users_kept) simp_all
    from keepsD[OF this s] Some show ?thesis by (simp add: upsert_user_def Let_def exec_update_def)
  qed
qed

lemma consume_invite_kept: "keeps I (update_invites p (\<lambda>i. i\<lparr>inv_used_by := u, inv_used_at := Some x\<rparr>))"
  by (rule invites_kept) simp_all

lemma Enroll_kept: "keeps I (Enroll e req ttl)"
proof -
  have "keeps I (andThen (failIf (\<not> invite_usable e i) ErrInviteInvalid) (\<lambda>_.
      andThen (stmt e 2 (upsert_user e m n)) (\<lambda>u. andThen (insertDevice e 1 3 (u_ID u) dv) (\<lambda>d.
      andThen (stmt e 4 (update_invites p (\<lambda>i. i\<lparr>inv_used_by := Some (u_ID u), inv_used_at := Some x\<rparr>))) (\<lambda>_.
      andThen (newRefreshToken e 0 2 5 (d_ID d) ttl) (\<lambda>refresh. ret (u, d, refresh)))))))" for i m n dv p x
    by (intro keeps_andThen keeps_failIf keeps_stmt upsert_user_kept insertDevice_kept
        consume_invite_kept newRefreshToken_kept keeps_ret)
  then show ?thesis unfolding Enroll_def enroll_tx_def
    by (intro keeps_tx keeps_andThen keeps_stmt keeps_ret keeps_gets)
       (auto split: option.split intro: keeps_throw)
qed

lemma CreateDevice_kept: "keeps I (CreateDevice e userID r ttl)"
  unfolding CreateDevice_def
  by (intro keeps_tx keeps_andThen keeps_stmt keeps_ret insertDevice_kept newRefreshToken_kept)

lemma RevokeDevice_kept: "keeps I (RevokeDevice e userID dev)"
  unfolding RevokeDevice_def
  by (intro keeps_andThen keeps_stmt keeps_failIf keeps_ret expire_kept devices_kept refresh_kept) simp_all

lemma RefreshAccess_kept: "keeps I (RefreshAccess e plain)"
proof -
  have "keeps I (stmt e 1 (update_devices (\<lambda>x. dev_id x = i) (\<lambda>x. x\<lparr>dev_last_seen_at := Some (e_now e)\<rparr>)))" for i
    by (intro keeps_stmt devices_kept) simp_all
  then show ?thesis unfolding RefreshAccess_def
    by (intro keeps_andThen keeps_stmt keeps_gets)
       (auto simp: keeps_def throw_def split: list.split)
qed

lemma CreateInvite_kept: "keeps I (CreateInvite e code note x)"
  unfolding CreateInvite_def by (intro keeps_stmt insert_invite_kept)

lemma SetPassword_kept: "keeps I (SetPassword e userID h)"
  unfolding SetPassword_def by (intro keeps_andThen keeps_stmt keeps_failIf users_kept) simp_all

end

lemma keeps_ListDevices: "keeps I (ListDevices e userID)"
  unfolding ListDevices_def by (intro keeps_intros)

lemma keeps_GetCredentialsByEmail: "keeps I (GetCredentialsByEmail e email)"
  unfolding GetCredentialsByEmail_def by (auto intro!: keeps_intros split: option.split)

end
