(* ===== verification/Identity_Lifecycle.thy ===== *)
theory Identity_Lifecycle
  imports Store_Identity
begin

text \<open>
  What the operations of \<open>Store_Identity\<close> achieve: an enrolment spends its invite and gives the
  device a refresh token that works, a revocation shuts the device out, and the two failure
  modes of an enrolment leave no trace.
\<close>

section \<open>Successful steps\<close>

abbreviation refresh_row_of :: "env \<Rightarrow> nat \<Rightarrow> string \<Rightarrow> string \<Rightarrow> duration \<Rightarrow> refresh_row" where
  "refresh_row_of e uid deviceID plain ttl \<equiv>
     \<lparr>rt_id = e_uuid e uid, rt_device_id = deviceID, rt_token_hash = HashToken plain,
      rt_created_at = e_now e, rt_expires_at = e_now e + make_interval (Seconds ttl), rt_revoked_at = None\<rparr>"

lemma newRefreshToken_Inr [act_simps]:
  "newRefreshToken e rnd uid k dev ttl s = (Inr plain, t) \<longleftrightarrow>
     e_outcome e k = Done \<and> GenerateToken (e_rand e rnd) = Some plain \<and>
     rt_id (refresh_row_of e uid dev plain ttl) \<notin> rt_id ` set (refresh_tokens s) \<and>
     HashToken plain \<notin> rt_token_hash ` set (refresh_tokens s) \<and> dev \<in> dev_id ` set (devices s) \<and>
     t = s\<lparr>refresh_tokens := refresh_tokens s @ [refresh_row_of e uid dev plain ttl]\<rparr>"
  by (auto simp: newRefreshToken_def act_simps insert_refresh_def image_iff split: option.split if_splits) metis+

lemma insertDevice_Inr [act_simps]:
  "insertDevice e uid k userID r s = (Inr d, t) \<longleftrightarrow>
     e_outcome e k = Done \<and> ValidPlatform (dr_Platform r) \<and> e_uuid e uid \<notin> dev_id ` set (devices s) \<and>
     dr_PublicKey r \<notin> dev_public_key ` set (devices s) \<and> userID \<in> usr_id ` set (users s) \<and>
     d = scan_device (device_row_of e uid userID r) \<and>
     t = s\<lparr>devices := devices s @ [device_row_of e uid userID r]\<rparr>"
  by (auto simp: insertDevice_def stmt_def throw_def insert_device_def device_row_of_def image_iff
      split: outcome.splits if_splits prod.splits sum.splits) metis+

lemma upsert_user_Inr:
  assumes "schema_ok s" "upsert_user e email display s = (Inr u, t)"
  obtains us where "t = s\<lparr>users := us\<rparr>" "\<exists>r\<in>set us. scan_user r = u \<and> EqualFold (usr_email r) email"
    "filter (\<lambda>r. \<not> EqualFold (usr_email r) email) us = filter (\<lambda>r. \<not> EqualFold (usr_email r) email) (users s)"
proof (cases "find (\<lambda>u. EqualFold (usr_email u) email) (users s)")
  case None
  with assms(2) have "users t = users s @ [\<lparr>usr_id = e_uuid e 0, usr_email = email, usr_display_name = display,
      usr_status = ''active'', usr_created_at = e_now e, usr_password_hash = None\<rparr>]"
    "t = s\<lparr>users := users t\<rparr>" "u = scan_user (last (users t))"
    by (auto simp: upsert_user_def Let_def act_simps insert_user_def split: if_splits)
  then show ?thesis by (intro that[of "users t"]) (auto simp: EqualFold_def)
next
  case (Some r)
  let ?p = "\<lambda>u. EqualFold (usr_email u) email"
  let ?f = "\<lambda>u. u\<lparr>usr_display_name := (case display of None \<Rightarrow> usr_display_name u | Some d \<Rightarrow> Some d)\<rparr>"
  from Some assms(2) have t: "t = s\<lparr>users := update_where ?p ?f (users s)\<rparr>" and u: "u = scan_user (?f r)"
    by (auto simp: upsert_user_def Let_def)
  have r: "r \<in> set (users s)" "?p r" using find_Some_set[OF Some] by auto
  then have "?f r \<in> set (update_where ?p ?f (users s))" by (force simp: set_update_where)
  moreover have "filter (\<lambda>r. \<not> ?p r) (update_where ?p ?f (users s)) = filter (\<lambda>r. \<not> ?p r) (users s)"
    by (auto simp: update_where_def filter_map o_def intro!: map_idI filter_cong)
  ultimately show ?thesis using u r(2) by (intro that[OF t]) auto
qed

text \<open>A complete run of the enrolment.\<close>

lemma enroll_tx_Inr:
  assumes "schema_ok s" "enroll_tx e req ttl s = (Inr (u, d, plain), t)"
  obtains i us where
    "i \<in> set (invites s)" "inv_code i = e_InviteCode req" "invite_usable e i"
    "\<exists>r\<in>set us. scan_user r = u \<and> EqualFold (usr_email r) (e_Email req)"
    "filter (\<lambda>r. \<not> EqualFold (usr_email r) (e_Email req)) us = filter (\<lambda>r. \<not> EqualFold (usr_email r) (e_Email req)) (users s)"
    "dr_PublicKey (e_Device req) \<notin> dev_public_key ` set (devices s)"
    "d = scan_device (device_row_of e 1 (u_ID u) (e_Device req))"
    "HashToken plain \<notin> rt_token_hash ` set (refresh_tokens s)"
    "t = s\<lparr>users := us, devices := devices s @ [device_row_of e 1 (u_ID u) (e_Device req)],
           invites := update_where (\<lambda>i. inv_code i = e_InviteCode req)
             (\<lambda>i. i\<lparr>inv_used_by := Some (u_ID u), inv_used_at := Some (e_now e)\<rparr>) (invites s),
           refresh_tokens := refresh_tokens s @ [refresh_row_of e 2 (d_ID d) plain ttl]\<rparr>"
proof -
  from assms(2) obtain i s1 where i: "find (\<lambda>i. inv_code i = e_InviteCode req) (invites s) = Some i"
      "invite_usable e i"
    and up: "upsert_user e (e_Email req) (nilIfEmpty (e_DisplayName req)) s = (Inr u, s1)"
    and rest: "andThen (insertDevice e 1 3 (u_ID u) (e_Device req)) (\<lambda>d.
         andThen (stmt e 4 (update_invites (\<lambda>i. inv_code i = e_InviteCode req)
                   (\<lambda>i. i\<lparr>inv_used_by := Some (u_ID u), inv_used_at := Some (e_now e)\<rparr>))) (\<lambda>_.
         andThen (newRefreshToken e 0 2 5 (d_ID d) ttl) (\<lambda>refresh. ret (u, d, refresh)))) s1 = (Inr (u, d, plain), t)"
    by (auto simp: enroll_tx_def act_simps split: option.splits)
  obtain us where us: "s1 = s\<lparr>users := us\<rparr>" "\<exists>r\<in>set us. scan_user r = u \<and> EqualFold (usr_email r) (e_Email req)"
    "filter (\<lambda>r. \<not> EqualFold (usr_email r) (e_Email req)) us = filter (\<lambda>r. \<not> EqualFold (usr_email r) (e_Email req)) (users s)"
    by (rule upsert_user_Inr[OF assms(1) up])
  from find_Some_set[OF i(1)] i(2) us rest show ?thesis
    by (intro that[of i us]) (auto simp: act_simps)
qed

section \<open>Enrolment\<close>


section \<open>Refreshing access\<close>

lemma refresh_live_unique:
  assumes "schema_ok s" "(t, d) \<in> set (refresh_tokens s) \<times> set (devices s)"
    "(t', d') \<in> set (refresh_tokens s) \<times> set (devices s)" "refresh_live e h (t, d)" "refresh_live e' h (t', d')"
  shows "t' = t \<and> d' = d"
proof -
  have "distinct (map rt_token_hash (refresh_tokens s))" using assms(1) by (simp add: schema_ok_def)
  then have "t' = t" using assms(2-5) distinct_map_filter_inj[of rt_token_hash "refresh_tokens s" t' t]
    by (auto simp: refresh_live_def)
  then show ?thesis using assms device_unique[of s d' d] by (auto simp: refresh_live_def)
qed

abbreviation touched :: "env \<Rightarrow> string \<Rightarrow> db \<Rightarrow> db" where
  "touched e dev s \<equiv> snd (stmt e 1 (update_devices (\<lambda>x. dev_id x = dev)
      (\<lambda>x. x\<lparr>dev_last_seen_at := Some (e_now e)\<rparr>)) s)"

lemma RefreshAccess_hit:
  assumes "schema_ok s" "row_order_ok (e_order e)" "e_outcome e 0 = Done"
    and td: "t \<in> set (refresh_tokens s)" "d \<in> set (devices s)" "refresh_live e (HashToken plain) (t, d)"
  shows "RefreshAccess e plain s = (Inr (dev_user_id d, dev_id d), touched e (dev_id d) s)"
proof -
  let ?hits = "filter (refresh_live e (HashToken plain)) (List.product (refresh_tokens s) (devices s))"
  have td': "(t, d) \<in> set (in_order (e_order e) ?hits)"
    using assms by (simp add: set_in_order[OF assms(2)] set_product)
  then obtain h hs where h: "in_order (e_order e) ?hits = h # hs" by (cases "in_order (e_order e) ?hits") auto
  then have "h \<in> set ?hits" using set_in_order[OF assms(2), of ?hits] by (metis list.set_intros(1))
  then have "h \<in> set (refresh_tokens s) \<times> set (devices s)" "refresh_live e (HashToken plain) h"
    by (simp_all only: set_filter set_product mem_Collect_eq)
  then have "h = (t, d)" using refresh_live_unique[OF assms(1), of t d "fst h" "snd h" e "HashToken plain" e] td
    by (cases h) simp
  with h show ?thesis by (simp add: RefreshAccess_def andThen_def stmt_def gets_def assms(3))
qed

lemma RefreshAccess_miss:
  assumes "row_order_ok (e_order e)" "e_outcome e 0 = Done"
    and "\<And>t d. t \<in> set (refresh_tokens s) \<Longrightarrow> d \<in> set (devices s) \<Longrightarrow> \<not> refresh_live e (HashToken plain) (t, d)"
  shows "RefreshAccess e plain s = (Inl ErrInvalidToken, s)"
proof -
  have "filter (refresh_live e (HashToken plain)) (List.product (refresh_tokens s) (devices s)) = []"
    using assms(3) by (auto simp: filter_empty_conv set_product)
  then have "in_order (e_order e) (filter (refresh_live e (HashToken plain))
      (List.product (refresh_tokens s) (devices s))) = []"
    by (simp add: in_order_Nil[OF assms(1)])
  then show ?thesis by (simp add: RefreshAccess_def andThen_def stmt_def gets_def throw_def assms(2))
qed

text \<open>
  C26. A refresh token is accepted exactly when its hash is stored unrevoked, it has not expired, and its
  device is not revoked; the answer is that device and its owner. Everything else is refused as an
  invalid token without a change, and acceptance changes no row but the device's last-seen time.
\<close>

theorem RefreshAccess_correct:
  assumes "store_inv s" "row_order_ok (e_order e)" "e_outcome e 0 = Done"
  shows "case RefreshAccess e plain s of
           (Inl err, t) \<Rightarrow> err = ErrInvalidToken \<and> t = s \<and>
             (\<forall>r\<in>set (refresh_tokens s). \<forall>d\<in>set (devices s). \<not> refresh_live e (HashToken plain) (r, d))
         | (Inr (userID, deviceID), t) \<Rightarrow>
             (\<exists>r\<in>set (refresh_tokens s). \<exists>d\<in>set (devices s). refresh_live e (HashToken plain) (r, d) \<and>
                userID = dev_user_id d \<and> deviceID = dev_id d) \<and>
             map (\<lambda>d. d\<lparr>dev_last_seen_at := None\<rparr>) (devices t) = map (\<lambda>d. d\<lparr>dev_last_seen_at := None\<rparr>) (devices s) \<and>
             t = s\<lparr>devices := devices t\<rparr>"
proof (cases "\<exists>r\<in>set (refresh_tokens s). \<exists>d\<in>set (devices s). refresh_live e (HashToken plain) (r, d)")
  case True
  then obtain r d where rd: "r \<in> set (refresh_tokens s)" "d \<in> set (devices s)" "refresh_live e (HashToken plain) (r, d)"
    by blast
  have "map (\<lambda>d. d\<lparr>dev_last_seen_at := None\<rparr>) (devices (touched e i s)) = map (\<lambda>d. d\<lparr>dev_last_seen_at := None\<rparr>) (devices s)
      \<and> touched e i s = s\<lparr>devices := devices (touched e i s)\<rparr>" for i
    by (cases "e_outcome e 1") (auto simp: stmt_def throw_def exec_update_def update_where_def)
  with RefreshAccess_hit[OF _ assms(2,3) rd] rd assms(1) show ?thesis by (simp add: store_inv_def) blast
next
  case False
  with RefreshAccess_miss[OF assms(2,3)] show ?thesis by simp
qed

lemma enroll_token:
  "enroll_tx e req ttl s = (Inr (u, d, plain), t) \<Longrightarrow> GenerateToken (e_rand e 0) = Some plain"
  by (auto simp: enroll_tx_def act_simps split: option.splits)

lemma enroll_refresh:
  assumes inv: "store_inv s" and run: "Enroll e req ttl s = (Inr (u, d, plain), t)"
    and later: "row_order_ok (e_order e')" "e_outcome e' 0 = Done" "e_now e' < e_now e + make_interval (Seconds ttl)"
  shows "fst (RefreshAccess e' plain t) = Inr (u_ID u, d_ID d)"
proof -
  have tx: "enroll_tx e req ttl s = (Inr (u, d, plain), t)" using run by (simp add: Enroll_def act_simps)
  have s: "schema_ok s" using inv by (simp add: store_inv_def)
  have t: "schema_ok t" using keepsD[OF inv.Enroll_kept inv, of e req ttl] run by (simp add: store_inv_def)
  let ?d = "device_row_of e 1 (u_ID u) (e_Device req)"
  obtain us where d: "d = scan_device ?d"
    and te: "devices t = devices s @ [?d]" "refresh_tokens t = refresh_tokens s @ [refresh_row_of e 2 (d_ID d) plain ttl]"
    by (rule enroll_tx_Inr[OF s tx]) (rule that, simp_all)
  have "refresh_live e' (HashToken plain) (refresh_row_of e 2 (d_ID d) plain ttl, ?d)"
    using later(3) by (simp add: refresh_live_def d scan_device_def device_row_of_def)
  with RefreshAccess_hit[OF t later(1,2), of "refresh_row_of e 2 (d_ID d) plain ttl" ?d plain] te
  show ?thesis by (simp add: d scan_device_def device_row_of_def)
qed
text \<open>
  The token handed out by an enrolment works: until it expires, presenting it returns the enrolled
  user and device.
\<close>

theorem Enroll_RefreshAccess:
  assumes inv: "store_inv s" and run: "Enroll e req ttl s = (Inr (u, d, plain), t)"
    and later: "row_order_ok (e_order e')" "e_outcome e' 0 = Done" "e_now e' < e_now e + make_interval (Seconds ttl)"
  shows "fst (RefreshAccess e' plain t) = Inr (u_ID u, d_ID d)"
  using assms by (rule enroll_refresh)

section \<open>Revocation\<close>

abbreviation revoked_db :: "env \<Rightarrow> string \<Rightarrow> string \<Rightarrow> db \<Rightarrow> db" where
  "revoked_db e userID dev s \<equiv>
     s\<lparr>devices := update_where (device_usable userID dev) (\<lambda>d. d\<lparr>dev_revoked_at := Some (e_now e)\<rparr>) (devices s)\<rparr>"

lemma no_usable_after_revoke:
  assumes "schema_ok s" "d \<in> set (devices s)" "device_usable userID dev d" "x \<in> set (devices (revoked_db e userID dev s))"
    "dev_id x = dev"
  shows "dev_revoked_at x \<noteq> None"
proof (rule ccontr)
  assume none: "\<not> dev_revoked_at x \<noteq> None"
  from assms(4) obtain y where y: "y \<in> set (devices s)"
      "x = (if device_usable userID dev y then y\<lparr>dev_revoked_at := Some (e_now e)\<rparr> else y)"
    by (auto simp: set_update_where)
  with none assms(5) have "x = y" "\<not> device_usable userID dev y" "dev_id y = dev" by (auto split: if_splits)
  with device_unique[OF assms(1) y(1) assms(2)] assms(3) show False by (simp add: device_usable_def)
qed

lemma RevokeDevice_run:
  assumes "e_outcome e 0 = Done" "e_outcome e 1 = Done" "e_outcome e 2 = Done"
    "d \<in> set (devices s)" "device_usable userID dev d"
  shows "RevokeDevice e userID dev s = (Inr (), (revoked_db e userID dev s)\<lparr>
     refresh_tokens := update_where (\<lambda>t. rt_device_id t = dev \<and> rt_revoked_at t = None)
       (\<lambda>t. t\<lparr>rt_revoked_at := Some (e_now e)\<rparr>) (refresh_tokens s),
     leases := update_where (of_device dev) expire (leases s)\<rparr>)"
proof -
  have "count_where (device_usable userID dev) (devices s) \<noteq> 0" using assms(4,5) by (auto simp: count_where_0_iff)
  then show ?thesis using assms(1-3)
    by (simp add: RevokeDevice_def andThen_def stmt_def exec_update_def failIf_def ret_def)
qed

lemma RevokeDevice_none:
  assumes "e_outcome e 0 = Done" "\<forall>d\<in>set (devices s). \<not> device_usable userID dev d"
  shows "RevokeDevice e userID dev s = (Inl ErrNotFound, s)"
proof -
  have "count_where (device_usable userID dev) (devices s) = 0" using assms(2) by (simp add: count_where_0_iff)
  then show ?thesis using assms
    by (simp add: RevokeDevice_def andThen_def stmt_def exec_update_def failIf_def throw_def update_where_none)
qed

lemma CreateConnection_needs_device:
  assumes "\<And>x. x \<in> set (devices t) \<Longrightarrow> dev_id x = dev \<Longrightarrow> dev_revoked_at x \<noteq> None"
  shows "fst (CreateConnection e userID dev country lt hb t) \<noteq> Inr c"
proof
  assume "fst (CreateConnection e userID dev country lt hb t) = Inr c"
  then have "\<exists>t'. connect_tx e userID dev country lt hb t = (Inr c, t')"
    by (cases "CreateConnection e userID dev country lt hb t") (auto simp: CreateConnection_def act_simps)
  then obtain d where "find (device_usable userID dev) (devices t) = Some d"
    by (auto simp: connect_tx_def act_simps split: option.splits)
  from find_Some_set[OF this] have "d \<in> set (devices t)" "dev_id d = dev" "dev_revoked_at d = None"
    by (simp_all add: device_usable_def)
  with assms[of d] show False by simp
qed

lemma RefreshAccess_revoked:
  assumes t: "schema_ok t" and ord: "row_order_ok (e_order e)"
    and rev: "\<And>x. x \<in> set (devices t) \<Longrightarrow> dev_id x = dev \<Longrightarrow> dev_revoked_at x \<noteq> None"
  shows "fst (RefreshAccess e plain t) \<noteq> Inr (u, dev)"
proof (cases "e_outcome e 0 = Done \<and> (\<exists>r\<in>set (refresh_tokens t). \<exists>x\<in>set (devices t). refresh_live e (HashToken plain) (r, x))")
  case True
  then obtain r x where x: "e_outcome e 0 = Done" "r \<in> set (refresh_tokens t)" "x \<in> set (devices t)"
    "refresh_live e (HashToken plain) (r, x)" by blast
  then have "fst (RefreshAccess e plain t) = Inr (dev_user_id x, dev_id x)"
    by (simp only: RefreshAccess_hit[OF t ord] fst_conv)
  moreover have "dev_id x \<noteq> dev" using rev[of x] x(3,4) by (auto simp: refresh_live_def)
  ultimately show ?thesis by simp
next
  case False
  then show ?thesis using RefreshAccess_miss[OF ord, of t plain]
    by (cases "e_outcome e 0") (auto simp: RefreshAccess_def andThen_def stmt_def throw_def)
qed

text \<open>
  C16. A revocation whose statements go through succeeds exactly for a device of the caller that is not
  revoked yet. Afterwards no refresh token returns that device, no connect that starts then succeeds for it, and
  of the active leases exactly those of the device are gone; otherwise nothing changes.
\<close>

theorem RevokeDevice_correct:
  assumes inv: "store_inv s" and ok: "e_outcome e 0 = Done" "e_outcome e 1 = Done" "e_outcome e 2 = Done"
  shows "case RevokeDevice e userID dev s of
           (Inl err, t) \<Rightarrow> err = ErrNotFound \<and> t = s \<and> (\<forall>d\<in>set (devices s). \<not> device_usable userID dev d)
         | (Inr _, t) \<Rightarrow> (\<exists>d\<in>set (devices s). device_usable userID dev d) \<and>
             (\<forall>e' plain u. row_order_ok (e_order e') \<longrightarrow> fst (RefreshAccess e' plain t) \<noteq> Inr (u, dev)) \<and>
             (\<forall>e' u country lt hb c. fst (CreateConnection e' u dev country lt hb t) \<noteq> Inr c) \<and>
             filter active (leases t) = filter (\<lambda>l. active l \<and> le_device_id l \<noteq> dev) (leases s)"
proof (cases "\<exists>d\<in>set (devices s). device_usable userID dev d")
  case False
  with RevokeDevice_none[OF ok(1)] show ?thesis by simp
next
  case True
  then obtain d where d: "d \<in> set (devices s)" "device_usable userID dev d" by blast
  obtain t where t: "RevokeDevice e userID dev s = (Inr (), t)" "devices t = devices (revoked_db e userID dev s)"
      "leases t = update_where (of_device dev) expire (leases s)"
    using RevokeDevice_run[OF ok d] by simp
  have rev: "dev_revoked_at x \<noteq> None" if "x \<in> set (devices t)" "dev_id x = dev" for x
    using no_usable_after_revoke[OF _ d, of x e] that inv by (simp add: t store_inv_def)
  have "schema_ok t" using keepsD[OF inv.RevokeDevice_kept inv, of e userID dev] t(1) by (simp add: store_inv_def)
  from RefreshAccess_revoked[OF this _ rev]
  have "fst (RefreshAccess e' plain t) \<noteq> Inr (u, dev)" if "row_order_ok (e_order e')" for e' plain u
    using that by blast
  moreover have "filter active (leases t) = filter (\<lambda>l. active l \<and> le_device_id l \<noteq> dev) (leases s)"
    unfolding t(3) by (subst filter_update_where_drop) (auto simp: of_device_def intro!: filter_cong)
  ultimately show ?thesis using True CreateConnection_needs_device[of t dev, OF rev] by (simp add: t(1))
qed

text \<open>
  The three statements of a revocation are no transaction. When the second one fails, the device is
  revoked but keeps its active lease; a retry answers not-found and ends nothing, and the holder
  can still renew the lease.
\<close>

theorem RevokeDevice_interrupted:
  assumes inv: "store_inv s" and d: "d \<in> set (devices s)" "device_usable userID dev d"
    and l: "l \<in> set (leases s)" "active l" "le_device_id l = dev"
    and cut: "e_outcome e 0 = Done" "e_outcome e 1 = Refused"
    and later: "e_outcome e' 0 = Done"
  shows "\<exists>t. RevokeDevice e userID dev s = (Inl ErrDriver, t) \<and> leases t = leases s \<and>
     (\<forall>x\<in>set (devices t). dev_id x = dev \<longrightarrow> dev_revoked_at x \<noteq> None) \<and>
     RevokeDevice e' userID dev t = (Inl ErrNotFound, t) \<and>
     fst (RenewConnection e' userID (le_id l) ttl t) = Inr (e_now e' + make_interval (Seconds ttl))"
proof -
  let ?t = "revoked_db e userID dev s"
  have "count_where (device_usable userID dev) (devices s) \<noteq> 0" using d by (auto simp: count_where_0_iff)
  then have run: "RevokeDevice e userID dev s = (Inl ErrDriver, ?t)" using cut
    by (simp add: RevokeDevice_def andThen_def stmt_def exec_update_def failIf_def ret_def throw_def)
  have rev: "\<forall>x\<in>set (devices ?t). dev_id x = dev \<longrightarrow> dev_revoked_at x \<noteq> None"
    using no_usable_after_revoke[OF _ d] inv by (simp add: store_inv_def)
  then have "RevokeDevice e' userID dev ?t = (Inl ErrNotFound, ?t)"
    by (intro RevokeDevice_none[OF later]) (auto simp: device_usable_def)
  moreover have "owned_lease ?t userID (le_id l) l"
    using d l by (auto simp: owned_lease_def device_usable_def set_update_where image_iff intro!: bexI[of _ d])
  then have "count_where (owned_lease ?t userID (le_id l)) (leases s) \<noteq> 0" using l(1) by (auto simp: count_where_0_iff)
  then have "fst (RenewConnection e' userID (le_id l) ttl ?t) = Inr (e_now e' + make_interval (Seconds ttl))"
    using later by (simp add: RenewConnection_def Let_def andThen_def stmt_def exec_update_def failIf_def ret_def)
  ultimately show ?thesis using run rev by (intro exI[of _ ?t]) simp
qed
section \<open>A key in use\<close>

text \<open>
  Enrolling with a WireGuard key that some device already has, even a revoked one, is refused as such
  and leaves the database as it was: the invite can still be used.
\<close>

theorem Enroll_key_taken:
  assumes ok: "\<And>k. k < 4 \<Longrightarrow> e_outcome e k = Done"
    and i: "find (\<lambda>i. inv_code i = e_InviteCode req) (invites s) = Some i" "invite_usable e i"
    and id: "e_uuid e 0 \<notin> usr_id ` set (users s)"
    and dev: "ValidPlatform (dr_Platform (e_Device req))" "dr_PublicKey (e_Device req) \<in> dev_public_key ` set (devices s)"
  shows "Enroll e req ttl s = (Inl ErrDeviceKeyTaken, s)"
proof -
  let ?up = "upsert_user e (e_Email req) (nilIfEmpty (e_DisplayName req))"
  have "\<exists>u us. ?up s = (Inr u, s\<lparr>users := us\<rparr>)"
  proof (cases "find (\<lambda>u. EqualFold (usr_email u) (e_Email req)) (users s)")
    case None
    then have "\<forall>u\<in>set (users s). \<not> EqualFold (usr_email u) (e_Email req)" by (auto simp: find_None_iff)
    with None id show ?thesis
      by (auto simp: upsert_user_def Let_def andThen_def insert_user_def ret_def image_iff dest: sym)
  qed (auto simp: upsert_user_def Let_def)
  then obtain u us where u: "?up s = (Inr u, s\<lparr>users := us\<rparr>)" by blast
  have "\<exists>d\<in>set (devices s). dev_id d = e_uuid e 1 \<or> dev_public_key d = dr_PublicKey (e_Device req)"
    using dev(2) by auto
  then have "insert_device (device_row_of e 1 (u_ID u) (e_Device req)) (s\<lparr>users := us\<rparr>) = (Inl ErrUnique, s\<lparr>users := us\<rparr>)"
    using dev(1) by (simp add: insert_device_def device_row_of_def)
  then have ins: "insertDevice e 1 3 (u_ID u) (e_Device req) (s\<lparr>users := us\<rparr>) = (Inl ErrDeviceKeyTaken, s\<lparr>users := us\<rparr>)"
    using ok[of 3] by (simp add: insertDevice_def stmt_def isUniqueViolation_def)
  have "fst (enroll_tx e req ttl s) = Inl ErrDeviceKeyTaken"
    unfolding enroll_tx_def andThen_def using ok[of 0] ok[of 1] ok[of 2] i u ins
    by (simp add: stmt_def gets_def ret_def failIf_def)
  then show ?thesis by (cases "enroll_tx e req ttl s") (simp add: Enroll_def tx_def)
qed


section \<open>Passwords\<close>

text \<open>
  The hash set for a user is what a login under the user's email, in any letter case, reads back,
  with the user's id and status; setting one for an unknown user is not-found.
\<close>

theorem SetPassword_GetCredentials:
  assumes inv: "store_inv s" and ok: "e_outcome e 0 = Done" "e_outcome e' 0 = Done"
  shows "case SetPassword e userID hash s of
           (Inl err, t) \<Rightarrow> err = ErrNotFound \<and> t = s \<and> userID \<notin> usr_id ` set (users s)
         | (Inr _, t) \<Rightarrow> \<exists>r\<in>set (users s). usr_id r = userID \<and>
             (\<forall>email. EqualFold (usr_email r) email \<longrightarrow>
                GetCredentialsByEmail e' email t = (Inr (userID, hash, usr_status r), t))"
proof (cases "\<exists>r\<in>set (users s). usr_id r = userID")
  case False
  then have "count_where (\<lambda>u. usr_id u = userID) (users s) = 0" by (simp add: count_where_0_iff)
  with False ok show ?thesis
    by (auto simp: SetPassword_def andThen_def stmt_def exec_update_def failIf_def throw_def update_where_none)
next
  case True
  then obtain r where r: "r \<in> set (users s)" "usr_id r = userID" by blast
  let ?us = "update_where (\<lambda>u. usr_id u = userID) (\<lambda>u. u\<lparr>usr_password_hash := Some hash\<rparr>) (users s)"
  have "count_where (\<lambda>u. usr_id u = userID) (users s) \<noteq> 0" using r by (auto simp: count_where_0_iff)
  then have run: "SetPassword e userID hash s = (Inr (), s\<lparr>users := ?us\<rparr>)"
    using ok by (simp add: SetPassword_def andThen_def stmt_def exec_update_def failIf_def ret_def)
  have d: "distinct (map (map to_lower \<circ> usr_email) ?us)"
    using inv by (simp add: store_inv_def schema_ok_def map_update_where_same)
  have mem: "r\<lparr>usr_password_hash := Some hash\<rparr> \<in> set ?us" using r by (force simp: set_update_where)
  have "find (\<lambda>u. EqualFold (usr_email u) email) ?us = Some (r\<lparr>usr_password_hash := Some hash\<rparr>)"
    if em: "EqualFold (usr_email r) email" for email
  proof (rule find_unique[OF mem])
    show "y = r\<lparr>usr_password_hash := Some hash\<rparr>" if "y \<in> set ?us" "EqualFold (usr_email y) email" for y
      using distinct_map_filter_inj[OF d \<open>y \<in> set ?us\<close> mem] that(2) em by (simp add: EqualFold_def)
  qed (use em in simp)
  then have "\<forall>email. EqualFold (usr_email r) email \<longrightarrow>
      GetCredentialsByEmail e' email (s\<lparr>users := ?us\<rparr>) = (Inr (userID, hash, usr_status r), s\<lparr>users := ?us\<rparr>)"
    using ok r by (auto simp: GetCredentialsByEmail_def andThen_def stmt_def gets_def ret_def coalesce_def)
  with r run show ?thesis by auto
qed
section \<open>The properties at concrete inputs\<close>

definition sample_invited :: db where
  "sample_invited = sample_net\<lparr>invites := [\<lparr>inv_code = ''welcome'', inv_note = None, inv_used_by = None,
     inv_expires_at = Some (2 * 10 ^ 18), inv_used_at = None, inv_created_at = 0\<rparr>]\<rparr>"

definition sample_enroll :: enroll_request where
  "sample_enroll = \<lparr>e_InviteCode = ''welcome'', e_Email = ''c@d'', e_DisplayName = '''',
     e_Device = \<lparr>dr_Name = ''laptop'', dr_Platform = ''linux'', dr_PublicKey = ''ck2''\<rparr>\<rparr>"

lemma store_inv_sample_invited: "store_inv sample_invited"
  using store_inv_sample_net by (simp add: store_inv_def schema_ok_def lease_inv_def sample_invited_def)

lemma sample_enroll_run:
  obtains u d plain t where "Enroll sample_env sample_enroll 3600000000000 sample_invited = (Inr (u, d, plain), t)"
    "u_ID u = ''u0''" "d_ID d = ''u1''"
proof -
  have "EqualFold ''a@b'' ''c@d'' = False" by code_simp
  moreover have "\<exists>plain. GenerateToken (Some (replicate 32 7)) = Some plain" by (simp add: GenerateToken_def)
  ultimately have "\<exists>u d plain t. Enroll sample_env sample_enroll 3600000000000 sample_invited = (Inr (u, d, plain), t) \<and>
      u_ID u = ''u0'' \<and> d_ID d = ''u1''"
    by (auto simp: Enroll_def tx_def enroll_tx_def andThen_def stmt_def sample_env_def ret_def gets_def failIf_def
        sample_invited_def sample_enroll_def sample_net_def invite_usable_def upsert_user_def Let_def sample_user_def
        insert_user_def insertDevice_def insert_device_def device_row_of_def ValidPlatform_def sample_device_def
        exec_update_def newRefreshToken_def insert_refresh_def scan_user_def scan_device_def)
  then show ?thesis using that by blast
qed



theorem Enroll_RefreshAccess_witness:
  "\<exists>u d plain t. Enroll sample_env sample_enroll 3600000000000 sample_invited = (Inr (u, d, plain), t) \<and>
     fst (RefreshAccess sample_env plain t) = Inr (''u0'', ''u1'')"
proof -
  obtain u d plain t where run: "Enroll sample_env sample_enroll 3600000000000 sample_invited = (Inr (u, d, plain), t)"
    "u_ID u = ''u0''" "d_ID d = ''u1''" by (rule sample_enroll_run)
  have "make_interval (Seconds 3600000000000) = 3600000000000" by code_simp
  with Enroll_RefreshAccess[OF store_inv_sample_invited run(1), of sample_env] run show ?thesis by auto
qed

theorem RefreshAccess_correct_witness:
  "RefreshAccess sample_env ''nonsense'' sample_net = (Inl ErrInvalidToken, sample_net)"
proof -
  have "row_order_ok (e_order sample_env)" "e_outcome sample_env 0 = Done" by simp_all
  from RefreshAccess_correct[OF store_inv_sample_net this, of "''nonsense''"] show ?thesis
    by (auto simp: sample_net_def split: prod.splits sum.splits)
qed

theorem RevokeDevice_correct_witness:
  "\<exists>t. RevokeDevice sample_env ''usr'' ''dev'' sample_leased = (Inr (), t) \<and> filter active (leases t) = []"
proof -
  have "e_outcome sample_env 0 = Done" "e_outcome sample_env 1 = Done" "e_outcome sample_env 2 = Done" by simp_all
  from RevokeDevice_correct[OF store_inv_sample_leased this, of "''usr''" "''dev''"] show ?thesis
    by (auto simp: sample_leased_simps sample_lease_def device_usable_def sample_leased_def sample_net_def
        sample_device_def split: prod.splits sum.splits)
qed

theorem RevokeDevice_interrupted_witness:
  "\<exists>t. RevokeDevice (sample_env\<lparr>e_outcome := (\<lambda>k. if k = 1 then Refused else Done)\<rparr>) ''usr'' ''dev'' sample_leased =
         (Inl ErrDriver, t) \<and> leases t = [sample_lease] \<and>
       RevokeDevice sample_env ''usr'' ''dev'' t = (Inl ErrNotFound, t)"
  using RevokeDevice_interrupted[OF store_inv_sample_leased, of sample_device "''usr''" "''dev''" sample_lease
      "sample_env\<lparr>e_outcome := (\<lambda>k. if k = 1 then Refused else Done)\<rparr>" sample_env]
  by (auto simp: sample_leased_simps device_usable_def sample_leased_def sample_net_def sample_device_def
      sample_lease_def active_def)

theorem Enroll_key_taken_witness:
  "Enroll sample_env (sample_enroll\<lparr>e_Device := \<lparr>dr_Name = ''x'', dr_Platform = ''ios'', dr_PublicKey = ''ck''\<rparr>\<rparr>) 1000000000
     sample_invited = (Inl ErrDeviceKeyTaken, sample_invited)"
  by (rule Enroll_key_taken[where i = "hd (invites sample_invited)"])
     (auto simp: sample_invited_def sample_enroll_def invite_usable_def sample_net_def sample_user_def
       sample_device_def ValidPlatform_def sample_env_def)

theorem SetPassword_GetCredentials_witness:
  "\<exists>t. SetPassword sample_env ''usr'' ''$argon2id$'' sample_net = (Inr (), t) \<and>
     fst (GetCredentialsByEmail sample_env ''A@B'' t) = Inr (''usr'', ''$argon2id$'', ''active'')"
proof -
  have "EqualFold ''a@b'' ''A@B''" by code_simp
  with SetPassword_GetCredentials[OF store_inv_sample_net, of sample_env sample_env "''usr''" "''$argon2id$''"]
  show ?thesis by (auto simp: sample_net_def sample_user_def split: prod.splits sum.splits)
qed

end
