(* ===== verification/Api.thy ===== *)
theory Api
  imports Http Identity_Lifecycle
begin

text \<open>
  The handlers of \<^verbatim>\<open>internal/api\<close>, one definition each, over the store's operations. A handler
  returns its response, the metrics it records (calls into the Prometheus client, kept as a list)
  and the database. A panic below a handler is turned into a 500 by \<open>recoverer\<close>; the hash
  function of passwords is the parameter \<open>deps\<close>.
\<close>

datatype metric =
    ConnCreated | ConnFailed string | AuthMetric string
  | UpdateFleet "gateway_status \<rightharpoonup> nat" nat

type_synonym result = "response \<times> metric list \<times> db"

record deps =
  dp_IDKey :: argon2
  dp_Version :: int

text \<open>\<open>reply\<close> ends a handler, \<open>call\<close> runs an operation of the store.\<close>

definition reply :: "response \<Rightarrow> db \<Rightarrow> result" where
  "reply r s = (r, [], s)"

definition recovered :: response where
  "recovered = writeError 500 ''internal error''"

definition call :: "'a dbact \<Rightarrow> (store_error + 'a \<Rightarrow> db \<Rightarrow> result) \<Rightarrow> db \<Rightarrow> result" where
  "call m k s = (case m s of (Inl Panic, t) \<Rightarrow> reply recovered t | (r, t) \<Rightarrow> k r t)"

definition count_metric :: "metric \<Rightarrow> (db \<Rightarrow> result) \<Rightarrow> db \<Rightarrow> result" where
  "count_metric x h s = (case h s of (rs, ms, t) \<Rightarrow> (rs, x # ms, t))"

definition with_user :: "env \<Rightarrow> server_config \<Rightarrow> request \<Rightarrow> (string \<Rightarrow> db \<Rightarrow> result) \<Rightarrow> db \<Rightarrow> result" where
  "with_user e cfg rq k s =
     (case authUser (e_clock e) cfg rq of Inl r \<Rightarrow> reply r s | Inr userID \<Rightarrow> k userID s)"

definition issueAccess :: "env \<Rightarrow> server_config \<Rightarrow> string \<Rightarrow> string option" where
  "issueAccess e cfg userID = IssueJWT (sc_JWTSecret cfg) userID (sc_AccessTTL cfg) (e_clock e)"

record tokenResponse =
  tr_AccessToken :: string
  tr_TokenType :: string
  tr_ExpiresIn :: int
  tr_RefreshToken :: string
  tr_UserID :: string
  tr_DeviceID :: string

definition token_json :: "tokenResponse \<Rightarrow> json" where
  "token_json t = JObj
     (omit_str ''access_token'' (tr_AccessToken t) @ [(''token_type'', JStr (tr_TokenType t))] @
      omit_int ''expires_in'' (tr_ExpiresIn t) @ omit_str ''refresh_token'' (tr_RefreshToken t) @
      omit_str ''user_id'' (tr_UserID t) @ omit_str ''device_id'' (tr_DeviceID t))"

definition expiresIn :: "server_config \<Rightarrow> int" where
  "expiresIn cfg = f64_trunc (Seconds (sc_AccessTTL cfg))"


section \<open>Locations (\<^verbatim>\<open>handlers.go\<close>)\<close>

definition handleHealth :: "db \<Rightarrow> result" where
  "handleHealth s = reply (writeJSON 200 (JObj [(''status'', JStr ''ok'')])) s"

record locationDTO =
  ld_Code :: string
  ld_Country :: string
  ld_Available :: bool
  ld_Servers :: int

definition location_json :: "locationDTO \<Rightarrow> json" where
  "location_json l = JObj
     [(''code'', JStr (ld_Code l)), (''country'', JStr (ld_Country l)), (''available'', JBool (ld_Available l)),
      (''servers'', JInt (ld_Servers l))]"

definition toLocationDTO :: "location \<Rightarrow> locationDTO" where
  "toLocationDTO l =
     \<lparr>ld_Code = l_Code l, ld_Country = l_CountryName l, ld_Available = Available l, ld_Servers = l_ServerCount l\<rparr>"

definition handleLocations :: "env \<Rightarrow> db \<Rightarrow> result" where
  "handleLocations e =
     call (ListLocations e) (\<lambda>r. case r of
       Inl _ \<Rightarrow> reply (writeError 500 ''could not list locations'')
     | Inr locs \<Rightarrow> reply (writeJSON 200 (JObj [(''locations'', JArr (map (location_json \<circ> toLocationDTO) locs))])))"


section \<open>Identity (\<^verbatim>\<open>handlers_identity.go\<close>)\<close>

definition device_fields :: "device_registration field list" where
  "device_fields =
     [(''name'', str_field (\<lambda>x d. d\<lparr>dr_Name := x\<rparr>)), (''platform'', str_field (\<lambda>x d. d\<lparr>dr_Platform := x\<rparr>)),
      (''public_key'', str_field (\<lambda>x d. d\<lparr>dr_PublicKey := x\<rparr>))]"

definition zero_device :: device_registration where
  "zero_device = \<lparr>dr_Name = '''', dr_Platform = '''', dr_PublicKey = ''''\<rparr>"

definition enroll_fields :: "enroll_request field list" where
  "enroll_fields =
     [(''invite_code'', str_field (\<lambda>x r. r\<lparr>e_InviteCode := x\<rparr>)), (''email'', str_field (\<lambda>x r. r\<lparr>e_Email := x\<rparr>)),
      (''display_name'', str_field (\<lambda>x r. r\<lparr>e_DisplayName := x\<rparr>)),
      (''device'', struct_field device_fields e_Device (\<lambda>x r. r\<lparr>e_Device := x\<rparr>))]"

definition zero_enroll :: enroll_request where
  "zero_enroll = \<lparr>e_InviteCode = '''', e_Email = '''', e_DisplayName = '''', e_Device = zero_device\<rparr>"

text \<open>The message of a bad request, or nothing.\<close>

definition validateEnroll :: "enroll_request \<Rightarrow> string option" where
  "validateEnroll r =
     (if e_InviteCode r = '''' then Some ''invite_code is required''
      else if CHR 0x40 \<notin> set (e_Email r) then Some ''a valid email is required''
      else if dr_Name (e_Device r) = '''' then Some ''device.name is required''
      else if \<not> ValidPlatform (dr_Platform (e_Device r))
      then Some ''device.platform must be one of ios, macos, android, windows, linux, cli''
      else if dr_PublicKey (e_Device r) = '''' then Some ''device.public_key is required''
      else None)"

definition handleEnroll :: "env \<Rightarrow> server_config \<Rightarrow> request \<Rightarrow> db \<Rightarrow> result" where
  "handleEnroll e cfg rq =
     (if sc_JWTSecret cfg = '''' then reply (writeError 503 ''authentication is disabled'')
      else case decode_body enroll_fields zero_enroll rq of (req, ok) \<Rightarrow>
        if \<not> ok then reply (writeError 400 ''invalid JSON body'')
        else case validateEnroll req of
          Some msg \<Rightarrow> reply (writeError 400 msg)
        | None \<Rightarrow>
            call (Enroll e req (sc_RefreshTTL cfg)) (\<lambda>r. case r of
              Inl err \<Rightarrow>
                reply (if err = ErrInviteInvalid then writeError 403 ''invite is invalid, expired, or already used''
                       else if err = ErrDeviceKeyTaken then writeError 409 ''device public key already registered''
                       else writeError 500 ''enrollment failed'')
            | Inr (user, device, refresh) \<Rightarrow>
                (case issueAccess e cfg (u_ID user) of
                   None \<Rightarrow> reply (writeError 500 ''could not issue token'')
                 | Some access \<Rightarrow>
                     reply (writeJSON 201 (token_json
                       \<lparr>tr_AccessToken = access, tr_TokenType = ''Bearer'', tr_ExpiresIn = expiresIn cfg,
                        tr_RefreshToken = refresh, tr_UserID = u_ID user, tr_DeviceID = d_ID device\<rparr>)))))"

definition handleRefresh :: "env \<Rightarrow> server_config \<Rightarrow> request \<Rightarrow> db \<Rightarrow> result" where
  "handleRefresh e cfg rq =
     (if sc_JWTSecret cfg = '''' then reply (writeError 503 ''authentication is disabled'')
      else case decode_body [(''refresh_token'', str_field (\<lambda>x _. x))] '''' rq of (token, ok) \<Rightarrow>
        if \<not> ok \<or> token = '''' then reply (writeError 400 ''refresh_token is required'')
        else call (RefreshAccess e token) (\<lambda>r. case r of
          Inl err \<Rightarrow>
            reply (if err = ErrInvalidToken then writeError 401 ''invalid or expired refresh token''
                   else writeError 500 ''refresh failed'')
        | Inr (userID, _) \<Rightarrow>
            (case issueAccess e cfg userID of
               None \<Rightarrow> reply (writeError 500 ''could not issue token'')
             | Some access \<Rightarrow>
                 reply (writeJSON 200 (token_json
                   \<lparr>tr_AccessToken = access, tr_TokenType = ''Bearer'', tr_ExpiresIn = expiresIn cfg,
                    tr_RefreshToken = '''', tr_UserID = '''', tr_DeviceID = ''''\<rparr>)))))"

record deviceDTO =
  dd_ID :: string
  dd_Name :: string
  dd_Platform :: string
  dd_PublicKey :: string
  dd_CreatedAt :: string
  dd_LastSeenAt :: "string option"
  dd_Revoked :: bool

definition device_json :: "deviceDTO \<Rightarrow> json" where
  "device_json d = JObj
     ([(''id'', JStr (dd_ID d)), (''name'', JStr (dd_Name d)), (''platform'', JStr (dd_Platform d)),
       (''public_key'', JStr (dd_PublicKey d)), (''created_at'', JStr (dd_CreatedAt d))] @
      omit_nil ''last_seen_at'' JStr (dd_LastSeenAt d) @ [(''revoked'', JBool (dd_Revoked d))])"

definition toDeviceDTO :: "device \<Rightarrow> deviceDTO" where
  "toDeviceDTO d =
     \<lparr>dd_ID = d_ID d, dd_Name = d_Name d, dd_Platform = d_Platform d, dd_PublicKey = d_PublicKey d,
      dd_CreatedAt = RFC3339 (d_CreatedAt d), dd_LastSeenAt = map_option RFC3339 (d_LastSeenAt d),
      dd_Revoked = (d_RevokedAt d \<noteq> None)\<rparr>"

definition handleDeviceList :: "env \<Rightarrow> server_config \<Rightarrow> request \<Rightarrow> db \<Rightarrow> result" where
  "handleDeviceList e cfg rq =
     with_user e cfg rq (\<lambda>userID.
       call (ListDevices e userID) (\<lambda>r. case r of
         Inl _ \<Rightarrow> reply (writeError 500 ''could not list devices'')
       | Inr devs \<Rightarrow> reply (writeJSON 200 (JObj [(''devices'', JArr (map (device_json \<circ> toDeviceDTO) devs))]))))"

definition handleDeviceCreate :: "env \<Rightarrow> server_config \<Rightarrow> request \<Rightarrow> db \<Rightarrow> result" where
  "handleDeviceCreate e cfg rq =
     with_user e cfg rq (\<lambda>userID.
       case decode_body device_fields zero_device rq of (reg, ok) \<Rightarrow>
         if \<not> ok then reply (writeError 400 ''invalid JSON body'')
         else if dr_Name reg = '''' then reply (writeError 400 ''name is required'')
         else if \<not> ValidPlatform (dr_Platform reg)
         then reply (writeError 400 ''platform must be one of ios, macos, android, windows, linux, cli'')
         else if dr_PublicKey reg = '''' then reply (writeError 400 ''public_key is required'')
         else call (CreateDevice e userID reg (sc_RefreshTTL cfg)) (\<lambda>r. case r of
           Inl err \<Rightarrow>
             reply (if err = ErrDeviceKeyTaken then writeError 409 ''device public key already registered''
                    else writeError 500 ''could not register device'')
         | Inr (dev, refresh) \<Rightarrow>
             reply (writeJSON 201 (token_json
               \<lparr>tr_AccessToken = '''', tr_TokenType = ''Bearer'', tr_ExpiresIn = 0,
                tr_RefreshToken = refresh, tr_UserID = '''', tr_DeviceID = d_ID dev\<rparr>))))"

definition handleDeviceRevoke :: "env \<Rightarrow> server_config \<Rightarrow> request \<Rightarrow> string \<Rightarrow> db \<Rightarrow> result" where
  "handleDeviceRevoke e cfg rq deviceID =
     with_user e cfg rq (\<lambda>userID.
       call (RevokeDevice e userID deviceID) (\<lambda>r. case r of
         Inl err \<Rightarrow>
           reply (if err = ErrNotFound then writeError 404 ''device not found''
                  else writeError 500 ''could not revoke device'')
       | Inr _ \<Rightarrow> reply noContent))"

definition invite_fields :: "(string \<times> string) field list" where
  "invite_fields = [(''note'', str_field (\<lambda>x p. (x, snd p))), (''ttl'', str_field (\<lambda>x p. (fst p, x)))]"

text \<open>The body is optional: what could be decoded counts, errors do not.\<close>

definition handleInviteCreate :: "env \<Rightarrow> server_config \<Rightarrow> request \<Rightarrow> db \<Rightarrow> result" where
  "handleInviteCreate e cfg rq =
     (if sc_AdminToken cfg = '''' then reply NotFound
      else if \<not> constEq (bearerToken rq) (sc_AdminToken cfg) then reply (writeError 401 ''invalid admin token'')
      else case decode_body invite_fields ('''', '''') rq of ((note, ttl), _) \<Rightarrow>
        if ttl \<noteq> '''' \<and> ParseDuration ttl = None
        then reply (writeError 400 ''ttl must be a Go duration, e.g. 168h'')
        else let expiresAt = (if ttl = '''' then None else map_option ((+) (e_clock e)) (ParseDuration ttl)) in
          case GenerateToken (e_rand e 0) of
            None \<Rightarrow> reply (writeError 500 ''could not generate invite'')
          | Some code \<Rightarrow>
              call (CreateInvite e code note expiresAt) (\<lambda>r. case r of
                Inl _ \<Rightarrow> reply (writeError 500 ''could not create invite'')
              | Inr _ \<Rightarrow>
                  reply (writeJSON 201 (JObj ([(''code'', JStr code)] @ omit_nil ''expires_at'' (JStr \<circ> RFC3339) expiresAt)))))"


section \<open>Passwords (\<^verbatim>\<open>handlers_auth.go\<close>)\<close>

definition login_fields :: "(string \<times> string) field list" where
  "login_fields = [(''email'', str_field (\<lambda>x p. (x, snd p))), (''password'', str_field (\<lambda>x p. (fst p, x)))]"

definition handleLogin :: "deps \<Rightarrow> env \<Rightarrow> server_config \<Rightarrow> request \<Rightarrow> db \<Rightarrow> result" where
  "handleLogin dp e cfg rq =
     (if sc_JWTSecret cfg = '''' then reply (writeError 503 ''authentication is disabled'')
      else case decode_body login_fields ('''', '''') rq of ((rawEmail, password), ok) \<Rightarrow>
        if \<not> ok then reply (writeError 400 ''invalid JSON body'')
        else let email = TrimSpace rawEmail in
          if email = '''' \<or> password = '''' then reply (writeError 400 ''email and password are required'')
          else call (GetCredentialsByEmail e email) (\<lambda>r.
            let failure = count_metric (AuthMetric ''failure'') (reply (writeError 401 ''invalid credentials''))
            in case r of
              Inl err \<Rightarrow> if err = ErrNotFound then failure else reply (writeError 500 ''login failed'')
            | Inr (userID, hash, status) \<Rightarrow>
                if hash = '''' then failure
                else if status \<noteq> ''active'' then reply (writeError 403 ''account is not active'')
                else (case VerifyPassword (dp_IDKey dp) (dp_Version dp) password hash of
                   Inl PwPanic \<Rightarrow> reply recovered
                 | Inl _ \<Rightarrow> failure
                 | Inr _ \<Rightarrow> count_metric (AuthMetric ''success'')
                     (case issueAccess e cfg userID of
                        None \<Rightarrow> reply (writeError 500 ''could not issue token'')
                      | Some access \<Rightarrow>
                          reply (writeJSON 200 (token_json
                            \<lparr>tr_AccessToken = access, tr_TokenType = ''Bearer'', tr_ExpiresIn = expiresIn cfg,
                             tr_RefreshToken = '''', tr_UserID = userID, tr_DeviceID = ''''\<rparr>))))))"

definition handleSetPassword :: "deps \<Rightarrow> env \<Rightarrow> server_config \<Rightarrow> request \<Rightarrow> db \<Rightarrow> result" where
  "handleSetPassword dp e cfg rq =
     with_user e cfg rq (\<lambda>userID.
       case decode_body [(''password'', str_field (\<lambda>x _. x))] '''' rq of (password, ok) \<Rightarrow>
         if \<not> ok then reply (writeError 400 ''invalid JSON body'')
         else if length password < 8 then reply (writeError 400 ''password must be at least 8 characters'')
         else case HashPassword (dp_IDKey dp) (dp_Version dp) (e_rand e 0) password of
           Inl PwPanic \<Rightarrow> reply recovered
         | Inl _ \<Rightarrow> reply (writeError 500 ''could not set password'')
         | Inr hash \<Rightarrow>
             call (SetPassword e userID hash) (\<lambda>r. case r of
               Inl err \<Rightarrow>
                 reply (if err = ErrNotFound then writeError 404 ''user not found''
                        else writeError 500 ''could not set password'')
             | Inr _ \<Rightarrow> reply noContent))"

section \<open>Connections (\<^verbatim>\<open>handlers_connections.go\<close>)\<close>

text \<open>The gateway's own address inside the tunnel, guessed from the client's.\<close>

definition gatewayProbeAddr :: "string \<Rightarrow> int \<Rightarrow> string" where
  "gatewayProbeAddr assignedIP port =
     (let host = takeWhile (\<lambda>x. x \<noteq> CHR ''/'') assignedIP
      in case Option.bind (ParseIP host) To4 of
           None \<Rightarrow> ''''
         | Some ip \<Rightarrow> JoinHostPort (IP_String [ip ! 0, ip ! 1, ip ! 2, 1]) (Itoa port))"

definition connect_fields :: "(string \<times> string) field list" where
  "connect_fields = [(''country_code'', str_field (\<lambda>x p. (x, snd p))), (''device_id'', str_field (\<lambda>x p. (fst p, x)))]"

record serverIn =
  si_Name :: string
  si_Country :: string
  si_City :: string
  si_Endpoint :: string
  si_PublicKey :: string

definition server_json :: "serverIn \<Rightarrow> json" where
  "server_json s = JObj
     ([(''name'', JStr (si_Name s)), (''country'', JStr (si_Country s))] @ omit_str ''city'' (si_City s) @
      [(''endpoint'', JStr (si_Endpoint s)), (''public_key'', JStr (si_PublicKey s))])"

record connectionResponse =
  co_ConnectionID :: string
  co_Server :: serverIn
  co_AssignedIP :: string
  co_AssignedIPv6 :: "string option"
  co_DNS :: "string list"
  co_AllowedIPs :: "string list"
  co_Keepalive :: int
  co_ExpiresAt :: string
  co_ProbeAddr :: string

definition connection_json :: "connectionResponse \<Rightarrow> json" where
  "connection_json r = JObj
     ([(''connection_id'', JStr (co_ConnectionID r)), (''server'', server_json (co_Server r)),
       (''assigned_ip'', JStr (co_AssignedIP r))] @
      omit_nil ''assigned_ip6'' JStr (co_AssignedIPv6 r) @
      [(''dns'', JArr (map JStr (co_DNS r))), (''allowed_ips'', JArr (map JStr (co_AllowedIPs r))),
       (''persistent_keepalive'', JInt (co_Keepalive r)), (''expires_at'', JStr (co_ExpiresAt r))] @
      omit_str ''probe_addr'' (co_ProbeAddr r))"

definition connection_response :: "server_config \<Rightarrow> connection \<Rightarrow> connectionResponse" where
  "connection_response cfg c =
     \<lparr>co_ConnectionID = c_ID c,
      co_Server = \<lparr>si_Name = c_GatewayName c, si_Country = c_Country c, si_City = c_City c, si_Endpoint = c_Endpoint c,
        si_PublicKey = c_GatewayPublicKey c\<rparr>,
      co_AssignedIP = c_AssignedIPv4 c, co_AssignedIPv6 = c_AssignedIPv6 c, co_DNS = sc_ClientDNS cfg,
      co_AllowedIPs = [''0.0.0.0/0'', ''::/0''], co_Keepalive = 25, co_ExpiresAt = RFC3339 (c_ExpiresAt c),
      co_ProbeAddr = gatewayProbeAddr (c_AssignedIPv4 c) (sc_ProbePort cfg)\<rparr>"

definition handleConnectionCreate :: "env \<Rightarrow> server_config \<Rightarrow> request \<Rightarrow> db \<Rightarrow> result" where
  "handleConnectionCreate e cfg rq =
     with_user e cfg rq (\<lambda>userID.
       case decode_body connect_fields ('''', '''') rq of ((country, deviceID), ok) \<Rightarrow>
         if \<not> ok then reply (writeError 400 ''invalid JSON body'')
         else if country = '''' \<or> deviceID = '''' then reply (writeError 400 ''country_code and device_id are required'')
         else call (CreateConnection e userID deviceID country (sc_LeaseTTL cfg) (sc_HeartbeatTTL cfg)) (\<lambda>r. case r of
           Inl err \<Rightarrow>
             if err = ErrDeviceNotFound then reply (writeError 404 ''device not found or revoked'')
             else if err = ErrNoGatewayAvailable
             then count_metric (ConnFailed ''no_gateway'') (reply (writeError 503 ''no healthy gateway available in that location''))
             else if err = ErrGatewayFull
             then count_metric (ConnFailed ''no_gateway'') (reply (writeError 503 ''selected gateway is at capacity, try again''))
             else count_metric (ConnFailed ''error'') (reply (writeError 500 ''could not create connection''))
         | Inr conn \<Rightarrow> count_metric ConnCreated (reply (writeJSON 201 (connection_json (connection_response cfg conn))))))"

definition handleConnectionDelete :: "env \<Rightarrow> server_config \<Rightarrow> request \<Rightarrow> string \<Rightarrow> db \<Rightarrow> result" where
  "handleConnectionDelete e cfg rq leaseID =
     with_user e cfg rq (\<lambda>userID.
       call (ReleaseConnection e userID leaseID) (\<lambda>r. case r of
         Inl err \<Rightarrow>
           reply (if err = ErrNotFound then writeError 404 ''connection not found''
                  else writeError 500 ''could not release connection'')
       | Inr _ \<Rightarrow> reply noContent))"

text \<open>The samples in the body are not used.\<close>

definition handleConnectionStats :: "env \<Rightarrow> server_config \<Rightarrow> request \<Rightarrow> string \<Rightarrow> db \<Rightarrow> result" where
  "handleConnectionStats e cfg rq leaseID =
     with_user e cfg rq (\<lambda>userID.
       call (RenewConnection e userID leaseID (sc_LeaseTTL cfg)) (\<lambda>r. case r of
         Inl err \<Rightarrow>
           reply (if err = ErrNotFound then writeError 404 ''connection not found''
                  else writeError 500 ''could not renew connection'')
       | Inr expiresAt \<Rightarrow> reply (writeJSON 200 (JObj [(''expires_at'', JStr (RFC3339 expiresAt))]))))"

definition peer_json :: "peer \<Rightarrow> json" where
  "peer_json p = JObj [(''public_key'', JStr (p_PublicKey p)), (''allowed_ips'', JArr (map JStr (p_AllowedIPs p)))]"

definition handleGatewayPeers :: "env \<Rightarrow> request \<Rightarrow> db \<Rightarrow> result" where
  "handleGatewayPeers e rq =
     (let token = bearerToken rq in
      if token = '''' then reply (writeError 401 ''missing node token'')
      else call (GatewayPeers e (HashToken token)) (\<lambda>r. case r of
        Inl err \<Rightarrow>
          reply (if err = ErrInvalidToken then writeError 401 ''invalid node token''
                 else writeError 500 ''could not list peers'')
      | Inr peers \<Rightarrow> reply (writeJSON 200 (JObj [(''peers'', JArr (map peer_json peers))]))))"


section \<open>Gateways (\<^verbatim>\<open>handlers_gateways.go\<close>)\<close>

definition registration_fields :: "gateway_registration field list" where
  "registration_fields =
     [(''name'', str_field (\<lambda>x r. r\<lparr>r_Name := x\<rparr>)), (''country_code'', str_field (\<lambda>x r. r\<lparr>r_CountryCode := x\<rparr>)),
      (''country_name'', str_field (\<lambda>x r. r\<lparr>r_CountryName := x\<rparr>)), (''city'', str_field (\<lambda>x r. r\<lparr>r_City := x\<rparr>)),
      (''region'', str_field (\<lambda>x r. r\<lparr>r_Region := x\<rparr>)), (''endpoint_host'', str_field (\<lambda>x r. r\<lparr>r_EndpointHost := x\<rparr>)),
      (''endpoint_port'', int_field (\<lambda>x r. r\<lparr>r_EndpointPort := x\<rparr>)), (''public_key'', str_field (\<lambda>x r. r\<lparr>r_PublicKey := x\<rparr>)),
      (''wg_subnet_v4'', str_field (\<lambda>x r. r\<lparr>r_WGSubnetV4 := x\<rparr>)), (''wg_subnet_v6'', str_field (\<lambda>x r. r\<lparr>r_WGSubnetV6 := x\<rparr>)),
      (''capacity'', int_field (\<lambda>x r. r\<lparr>r_Capacity := x\<rparr>)), (''bandwidth_mbps'', int_field (\<lambda>x r. r\<lparr>r_BandwidthMbps := x\<rparr>)),
      (''latitude'', f64_ptr_field (\<lambda>x r. r\<lparr>r_Latitude := x\<rparr>)), (''longitude'', f64_ptr_field (\<lambda>x r. r\<lparr>r_Longitude := x\<rparr>))]"

definition zero_registration :: gateway_registration where
  "zero_registration =
     \<lparr>r_Name = '''', r_CountryCode = '''', r_CountryName = '''', r_City = '''', r_Region = '''', r_EndpointHost = '''',
      r_EndpointPort = 0, r_PublicKey = '''', r_WGSubnetV4 = '''', r_WGSubnetV6 = '''', r_Capacity = 0,
      r_BandwidthMbps = 0, r_Latitude = None, r_Longitude = None\<rparr>"

definition validateRegistration :: "gateway_registration \<Rightarrow> string option" where
  "validateRegistration r =
     (if r_Name r = '''' then Some ''name is required''
      else if r_CountryCode r = '''' then Some ''country_code is required''
      else if r_CountryName r = '''' then Some ''country_name is required''
      else if r_EndpointHost r = '''' then Some ''endpoint_host is required''
      else if r_PublicKey r = '''' then Some ''public_key is required''
      else if r_WGSubnetV4 r = '''' then Some ''wg_subnet_v4 is required''
      else if r_Capacity r \<le> 0 then Some ''capacity must be > 0''
      else None)"

fun status_text :: "gateway_status \<Rightarrow> string" where
  "status_text GatewayPending = ''pending''"
| "status_text GatewayHealthy = ''healthy''"
| "status_text GatewayUnhealthy = ''unhealthy''"
| "status_text GatewayDraining = ''draining''"
| "status_text GatewayDisabled = ''disabled''"
| "status_text GatewayNoStatus = ''''"

definition handleGatewayRegister :: "env \<Rightarrow> server_config \<Rightarrow> request \<Rightarrow> db \<Rightarrow> result" where
  "handleGatewayRegister e cfg rq =
     (if sc_EnrollmentSecret cfg = '''' then reply (writeError 503 ''gateway registration is disabled'')
      else if \<not> constEq (bearerToken rq) (sc_EnrollmentSecret cfg) then reply (writeError 401 ''invalid enrollment secret'')
      else case decode_body registration_fields zero_registration rq of (reg, ok) \<Rightarrow>
        if \<not> ok then reply (writeError 400 ''invalid JSON body'')
        else case validateRegistration reg of
          Some msg \<Rightarrow> reply (writeError 400 msg)
        | None \<Rightarrow>
            let reg' = (if r_EndpointPort reg = 0 then reg\<lparr>r_EndpointPort := 51820\<rparr> else reg) in
            call (RegisterGateway e reg') (\<lambda>r. case r of
              Inl _ \<Rightarrow> reply (writeError 500 ''could not register gateway'')
            | Inr (gw, token) \<Rightarrow>
                reply (writeJSON 201 (JObj
                  [(''id'', JStr (g_ID gw)), (''name'', JStr (g_Name gw)), (''node_token'', JStr token),
                   (''status'', JStr (status_text (g_Status gw)))]))))"

definition metrics_fields :: "gateway_metrics field list" where
  "metrics_fields =
     [(''active_peers'', int_field (\<lambda>x m. m\<lparr>m_ActivePeers := x\<rparr>)), (''cpu_pct'', f64_field (\<lambda>x m. m\<lparr>m_CPUPct := x\<rparr>)),
      (''rx_bps'', int_field (\<lambda>x m. m\<lparr>m_RxBps := x\<rparr>)), (''tx_bps'', int_field (\<lambda>x m. m\<lparr>m_TxBps := x\<rparr>))]"

definition zero_metrics :: gateway_metrics where
  "zero_metrics = \<lparr>m_ActivePeers = 0, m_CPUPct = 0, m_RxBps = 0, m_TxBps = 0\<rparr>"

definition handleGatewayHeartbeat :: "env \<Rightarrow> request \<Rightarrow> db \<Rightarrow> result" where
  "handleGatewayHeartbeat e rq =
     (let token = bearerToken rq in
      if token = '''' then reply (writeError 401 ''missing node token'')
      else case decode_body metrics_fields zero_metrics rq of (m, ok) \<Rightarrow>
        if \<not> ok then reply (writeError 400 ''invalid JSON body'')
        else call (Heartbeat e (HashToken token) m) (\<lambda>r. case r of
          Inl err \<Rightarrow>
            reply (if err = ErrInvalidToken then writeError 401 ''invalid node token''
                   else writeError 500 ''heartbeat failed'')
        | Inr gw \<Rightarrow>
            reply (writeJSON 200 (JObj [(''gateway_id'', JStr (g_ID gw)), (''status'', JStr (status_text (g_Status gw)))]))))"

definition handleGatewayDeregister :: "env \<Rightarrow> request \<Rightarrow> db \<Rightarrow> result" where
  "handleGatewayDeregister e rq =
     (let token = bearerToken rq in
      if token = '''' then reply (writeError 401 ''missing node token'')
      else call (DeregisterGateway e (HashToken token)) (\<lambda>r. case r of
        Inl err \<Rightarrow>
          reply (if err = ErrInvalidToken then writeError 401 ''invalid node token''
                 else writeError 500 ''deregister failed'')
      | Inr _ \<Rightarrow> reply noContent))"

definition endpoint :: "string \<Rightarrow> int \<Rightarrow> string" where
  "endpoint host port = JoinHostPort host (Itoa (if port = 0 then 51820 else port))"

record gatewayDTO =
  gd_ID :: string
  gd_Name :: string
  gd_Country :: string
  gd_CountryCode :: string
  gd_City :: string
  gd_Region :: string
  gd_Endpoint :: string
  gd_PublicKey :: string
  gd_Status :: string
  gd_Online :: bool
  gd_Capacity :: int
  gd_ActivePeers :: int
  gd_CPUPct :: rat
  gd_RxBps :: int
  gd_TxBps :: int
  gd_BandwidthMbps :: int
  gd_Latitude :: "rat option"
  gd_Longitude :: "rat option"
  gd_LastHeartbeatAt :: "string option"

definition gateway_json :: "gatewayDTO \<Rightarrow> json" where
  "gateway_json g = JObj
     ([(''id'', JStr (gd_ID g)), (''name'', JStr (gd_Name g)), (''country'', JStr (gd_Country g)),
       (''country_code'', JStr (gd_CountryCode g))] @
      omit_str ''city'' (gd_City g) @ omit_str ''region'' (gd_Region g) @
      [(''endpoint'', JStr (gd_Endpoint g)), (''public_key'', JStr (gd_PublicKey g)),
       (''status'', JStr (gd_Status g)), (''online'', JBool (gd_Online g)),
       (''capacity'', JInt (gd_Capacity g)), (''active_peers'', JInt (gd_ActivePeers g)), (''cpu_pct'', f64_json (gd_CPUPct g)),
       (''rx_bps'', JInt (gd_RxBps g)), (''tx_bps'', JInt (gd_TxBps g))] @
      omit_int ''bandwidth_mbps'' (gd_BandwidthMbps g) @ omit_nil ''latitude'' f64_json (gd_Latitude g) @
      omit_nil ''longitude'' f64_json (gd_Longitude g) @ omit_nil ''last_heartbeat_at'' JStr (gd_LastHeartbeatAt g))"

definition toGatewayDTO :: "gateway \<Rightarrow> instant \<Rightarrow> duration \<Rightarrow> gatewayDTO" where
  "toGatewayDTO g now ttl =
     \<lparr>gd_ID = g_ID g, gd_Name = g_Name g, gd_Country = g_CountryName g, gd_CountryCode = g_LocationCode g,
      gd_City = g_City g, gd_Region = g_Region g, gd_Endpoint = endpoint (g_EndpointHost g) (g_EndpointPort g),
      gd_PublicKey = g_PublicKey g, gd_Status = status_text (g_Status g), gd_Online = Online g now ttl,
      gd_Capacity = g_Capacity g, gd_ActivePeers = g_ActivePeers g, gd_CPUPct = g_CPUPct g, gd_RxBps = g_RxBps g,
      gd_TxBps = g_TxBps g, gd_BandwidthMbps = g_BandwidthMbps g, gd_Latitude = g_Latitude g,
      gd_Longitude = g_Longitude g, gd_LastHeartbeatAt = map_option RFC3339 (g_LastHeartbeatAt g)\<rparr>"

definition handleGatewayList :: "env \<Rightarrow> server_config \<Rightarrow> request \<Rightarrow> db \<Rightarrow> result" where
  "handleGatewayList e cfg rq =
     (if sc_AdminToken cfg = '''' then reply NotFound
      else if \<not> constEq (bearerToken rq) (sc_AdminToken cfg) then reply (writeError 401 ''invalid admin token'')
      else call (ListGateways e) (\<lambda>r. case r of
        Inl _ \<Rightarrow> reply (writeError 500 ''could not list gateways'')
      | Inr gws \<Rightarrow>
          reply (writeJSON 200 (JObj [(''gateways'',
            JArr (map (\<lambda>g. gateway_json (toGatewayDTO g (e_clock e) (sc_HeartbeatTTL cfg))) gws))]))))"


section \<open>Routing (\<^verbatim>\<open>server.go\<close>)\<close>

text \<open>
  The patterns registered with the mux, on a path cut at its slashes; a wildcard stands for one
  non-empty segment. \<open>GET\<close> patterns also serve \<open>HEAD\<close>. A path known under other methods only is
  answered with 405.
\<close>

datatype route =
    Health | MetricsPage | Locations | EnrollRoute | Login | Refresh | Password
  | DeviceList | DeviceCreate | DeviceRevoke string | InviteCreate
  | ConnectionCreate | ConnectionDelete string | ConnectionStats string
  | GatewayRegister | GatewayHeartbeat | GatewayDeregister | PeersRoute | GatewayList

definition routes :: "string list \<Rightarrow> (string \<times> route) list" where
  "routes segs =
     (if segs = ['''', ''healthz''] then [(''GET'', Health)]
      else if segs = ['''', ''metrics''] then [(''GET'', MetricsPage)]
      else if segs = ['''', ''v1'', ''locations''] then [(''GET'', Locations)]
      else if segs = ['''', ''v1'', ''enroll''] then [(''POST'', EnrollRoute)]
      else if segs = ['''', ''v1'', ''auth'', ''login''] then [(''POST'', Login)]
      else if segs = ['''', ''v1'', ''auth'', ''refresh''] then [(''POST'', Refresh)]
      else if segs = ['''', ''v1'', ''auth'', ''password''] then [(''POST'', Password)]
      else if segs = ['''', ''v1'', ''devices''] then [(''GET'', DeviceList), (''POST'', DeviceCreate)]
      else if segs = ['''', ''v1'', ''invites''] then [(''POST'', InviteCreate)]
      else if segs = ['''', ''v1'', ''connections''] then [(''POST'', ConnectionCreate)]
      else if segs = ['''', ''v1'', ''gateways'', ''register''] then [(''POST'', GatewayRegister)]
      else if segs = ['''', ''v1'', ''gateways'', ''heartbeat''] then [(''POST'', GatewayHeartbeat)]
      else if segs = ['''', ''v1'', ''gateways'', ''deregister''] then [(''POST'', GatewayDeregister)]
      else if segs = ['''', ''v1'', ''gateways'', ''peers''] then [(''GET'', PeersRoute)]
      else if segs = ['''', ''v1'', ''gateways''] then [(''GET'', GatewayList)]
      else case segs of
        [a, b, c, i] \<Rightarrow>
          if [a, b] = ['''', ''v1''] \<and> i \<noteq> '''' then
            if c = ''devices'' then [(''DELETE'', DeviceRevoke i)]
            else if c = ''connections'' then [(''DELETE'', ConnectionDelete i)] else []
          else []
      | [a, b, c, i, d] \<Rightarrow>
          if [a, b, c] = ['''', ''v1'', ''connections''] \<and> i \<noteq> '''' \<and> d = ''stats''
          then [(''POST'', ConnectionStats i)] else []
      | _ \<Rightarrow> [])"

definition method_matches :: "string \<Rightarrow> string \<Rightarrow> bool" where
  "method_matches m pat \<longleftrightarrow> m = pat \<or> m = ''HEAD'' \<and> pat = ''GET''"

definition mux :: "request \<Rightarrow> response + route" where
  "mux rq =
     (let rs = routes (Split CHR ''/'' (rq_Path rq))
      in case find (\<lambda>p. method_matches (rq_Method rq) (fst p)) rs of
           Some (_, r) \<Rightarrow> Inr r
         | None \<Rightarrow> Inl (if rs = [] then NotFound else \<lparr>rs_Status = 405, rs_Body = Plain ''Method Not Allowed''\<rparr>))"

text \<open>The routes behind \<open>rateLimited\<close>.\<close>

definition limited :: "route \<Rightarrow> bool" where
  "limited r \<longleftrightarrow> r \<in> {EnrollRoute, Login, Refresh}"

definition dispatch :: "deps \<Rightarrow> string \<Rightarrow> env \<Rightarrow> server_config \<Rightarrow> request \<Rightarrow> route \<Rightarrow> db \<Rightarrow> result" where
  "dispatch dp page e cfg rq r =
     (case r of
        Health \<Rightarrow> handleHealth
      | MetricsPage \<Rightarrow> reply \<lparr>rs_Status = 200, rs_Body = Plain page\<rparr>
      | Locations \<Rightarrow> handleLocations e
      | EnrollRoute \<Rightarrow> handleEnroll e cfg rq
      | Login \<Rightarrow> handleLogin dp e cfg rq
      | Refresh \<Rightarrow> handleRefresh e cfg rq
      | Password \<Rightarrow> handleSetPassword dp e cfg rq
      | DeviceList \<Rightarrow> handleDeviceList e cfg rq
      | DeviceCreate \<Rightarrow> handleDeviceCreate e cfg rq
      | DeviceRevoke i \<Rightarrow> handleDeviceRevoke e cfg rq i
      | InviteCreate \<Rightarrow> handleInviteCreate e cfg rq
      | ConnectionCreate \<Rightarrow> handleConnectionCreate e cfg rq
      | ConnectionDelete i \<Rightarrow> handleConnectionDelete e cfg rq i
      | ConnectionStats i \<Rightarrow> handleConnectionStats e cfg rq i
      | GatewayRegister \<Rightarrow> handleGatewayRegister e cfg rq
      | GatewayHeartbeat \<Rightarrow> handleGatewayHeartbeat e rq
      | GatewayDeregister \<Rightarrow> handleGatewayDeregister e rq
      | PeersRoute \<Rightarrow> handleGatewayPeers e rq
      | GatewayList \<Rightarrow> handleGatewayList e cfg rq)"

record ('q, 'l) server =
  sv_db :: db
  sv_authLimiter :: "('q, 'l) Limiter"
  sv_metrics :: "metric list"

definition NewServer :: "('q, 'l) rate_pkg \<Rightarrow> server_config \<Rightarrow> db \<Rightarrow> ('q, 'l) server" where
  "NewServer pkg cfg s =
     (let perMin = (if sc_AuthRatePerMin cfg \<le> 0 then 10 else sc_AuthRatePerMin cfg);
          burst = (if sc_AuthBurst cfg \<le> 0 then 5 else sc_AuthBurst cfg)
      in \<lparr>sv_db = s, sv_authLimiter = new_Limiter pkg perMin burst, sv_metrics = []\<rparr>)"

definition rateLimited ::
  "('q, 'l) rate_pkg \<Rightarrow> env \<Rightarrow> server_config \<Rightarrow> request \<Rightarrow> ('q, 'l) server \<Rightarrow> bool \<times> ('q, 'l) server" where
  "rateLimited pkg e cfg rq sv =
     (case Allow pkg (e_clock e) (e_clock e) (clientIP cfg rq) (sv_authLimiter sv) of
        (ok, l) \<Rightarrow> (ok, sv\<lparr>sv_authLimiter := l\<rparr>))"

definition run_handler ::
  "deps \<Rightarrow> (metric list \<Rightarrow> string) \<Rightarrow> env \<Rightarrow> server_config \<Rightarrow> request \<Rightarrow> route \<Rightarrow> ('q, 'l) server \<Rightarrow> response \<times> ('q, 'l) server" where
  "run_handler dp render e cfg rq r sv =
     (case dispatch dp (render (sv_metrics sv)) e cfg rq r (sv_db sv) of
        (rs, ms, s) \<Rightarrow> (rs, sv\<lparr>sv_db := s, sv_metrics := sv_metrics sv @ ms\<rparr>))"

definition serve ::
  "('q, 'l) rate_pkg \<Rightarrow> deps \<Rightarrow> (metric list \<Rightarrow> string) \<Rightarrow> env \<Rightarrow> server_config \<Rightarrow> request \<Rightarrow> ('q, 'l) server \<Rightarrow>
   response \<times> ('q, 'l) server" where
  "serve pkg dp render e cfg rq sv =
     (case mux rq of
        Inl rs \<Rightarrow> (rs, sv)
      | Inr r \<Rightarrow>
          if limited r then
            (case rateLimited pkg e cfg rq sv of
               (ok, sv') \<Rightarrow>
                 if ok then run_handler dp render e cfg rq r sv'
                 else (writeError 429 ''too many requests'', sv'))
          else run_handler dp render e cfg rq r sv)"

end
