(* ===== verification/Reconcile.thy ===== *)
theory Reconcile
  imports Go_Strings
begin

text \<open>
  \<^verbatim>\<open>agent/internal/reconcile/reconcile.go\<close>: the difference between the peers a gateway has and
  those it should have. A Go map is a HOL map; ranging over it visits its keys in an order
  the runtime picks, so the order is an argument. \<open>sort.Slice\<close> promises a sorted
  permutation and no more; its contract is the locale \<open>go_sort\<close>.
\<close>

section \<open>The code\<close>

record rpeer =
  rp_PublicKey :: string
  rp_AllowedIPs :: "string list"

record plan =
  pl_Add :: "rpeer list"
  pl_Remove :: "string list"

definition Empty :: "plan \<Rightarrow> bool" where
  "Empty p \<longleftrightarrow> length (pl_Add p) = 0 \<and> length (pl_Remove p) = 0"

fun index :: "rpeer list \<Rightarrow> (string \<rightharpoonup> string list) \<Rightarrow> (string \<rightharpoonup> string list)" where
  "index [] m = m"
| "index (p # ps) m = index ps (m(rp_PublicKey p \<mapsto> rp_AllowedIPs p))"

text \<open>The counting loops of \<open>sameSet\<close>; a missing key of the counter map reads 0.\<close>

fun count_seen :: "string list \<Rightarrow> (string \<Rightarrow> nat) \<Rightarrow> (string \<Rightarrow> nat)" where
  "count_seen [] seen = seen"
| "count_seen (x # xs) seen = count_seen xs (seen(x := seen x + 1))"

fun consume_seen :: "string list \<Rightarrow> (string \<Rightarrow> nat) \<Rightarrow> bool" where
  "consume_seen [] seen = True"
| "consume_seen (y # ys) seen = (if seen y = 0 then False else consume_seen ys (seen(y := seen y - 1)))"

definition sameSet :: "string list \<Rightarrow> string list \<Rightarrow> bool" where
  "sameSet a b = (if length a \<noteq> length b then False else consume_seen b (count_seen a (\<lambda>_. 0)))"

definition needs_add :: "(string \<rightharpoonup> string list) \<Rightarrow> string \<Rightarrow> string list \<Rightarrow> bool" where
  "needs_add cur pk dips = (case cur pk of None \<Rightarrow> True | Some cips \<Rightarrow> \<not> sameSet cips dips)"

text \<open>The two loops over the maps, in the orders \<open>desKeys\<close> and \<open>curKeys\<close>, before the sorting.\<close>

definition diff_loops ::
  "string list \<Rightarrow> string list \<Rightarrow> (string \<rightharpoonup> string list) \<Rightarrow> (string \<rightharpoonup> string list) \<Rightarrow> plan" where
  "diff_loops desKeys curKeys cur des =
     \<lparr>pl_Add = [\<lparr>rp_PublicKey = pk, rp_AllowedIPs = the (des pk)\<rparr>. pk \<leftarrow> desKeys, needs_add cur pk (the (des pk))],
      pl_Remove = [pk. pk \<leftarrow> curKeys, des pk = None]\<rparr>"

definition DiffIter :: "string list \<Rightarrow> string list \<Rightarrow> rpeer list \<Rightarrow> rpeer list \<Rightarrow> plan" where
  "DiffIter desKeys curKeys current desired =
     (let cur = index current Map.empty; des = index desired Map.empty;
          p = diff_loops desKeys curKeys cur des
      in \<lparr>pl_Add = sort_key rp_PublicKey (pl_Add p), pl_Remove = sort (pl_Remove p)\<rparr>)"

text \<open>The keys of an index, in the order of their first occurrence.\<close>

definition peer_keys :: "rpeer list \<Rightarrow> string list" where
  "peer_keys ps = remdups (map rp_PublicKey ps)"

definition Diff :: "rpeer list \<Rightarrow> rpeer list \<Rightarrow> plan" where
  "Diff current desired = DiffIter (peer_keys desired) (peer_keys current) current desired"

text \<open>An order in which ranging over \<open>m\<close> may visit its keys.\<close>

definition iteration_order :: "string list \<Rightarrow> (string \<rightharpoonup> string list) \<Rightarrow> bool" where
  "iteration_order ks m \<longleftrightarrow> distinct ks \<and> set ks = dom m"


section \<open>Sorting without stability\<close>

text \<open>
  What \<open>sort.Slice\<close> promises of the slice it leaves behind. When no two elements have the
  same key there is only one such slice.
\<close>

locale go_sort =
  fixes key :: "'a \<Rightarrow> 'k :: linorder"
    and srt :: "'a list \<Rightarrow> 'a list"
  assumes perm: "mset (srt xs) = mset xs"
    and ordered: "sorted (map key (srt xs))"
begin

lemma set_srt: "set (srt xs) = set xs"
  by (metis perm set_mset_mset)

lemma distinct_srt: "distinct (map key xs) \<Longrightarrow> distinct (map key (srt xs))"
  by (metis perm mset_map mset_eq_imp_distinct_iff)

lemma srt_unique:
  assumes "distinct (map key xs)" "mset ys = mset xs" "sorted (map key ys)"
  shows "srt xs = ys"
proof -
  have k: "map key (srt xs) = map key ys"
    using assms ordered[of xs] perm[of xs]
    by (metis mset_map properties_for_sort sort_key_id_if_sorted)
  have "inj_on key (set (srt xs) \<union> set ys)"
    using assms(1,2) set_srt[of xs] by (metis distinct_map set_mset_mset sup_idem)
  with k show ?thesis by (rule map_inj_on)
qed

text \<open>Two slices with the same elements sort to the same slice.\<close>

lemma srt_cong: "distinct (map key xs) \<Longrightarrow> mset xs = mset ys \<Longrightarrow> srt xs = srt ys"
  using srt_unique[of xs "srt ys"] perm[of ys] ordered[of ys] by simp

end

interpretation by_key: go_sort rp_PublicKey "sort_key rp_PublicKey :: rpeer list \<Rightarrow> rpeer list"
  by unfold_locales (simp_all add: sorted_sort_key)

interpretation by_string: go_sort "\<lambda>s :: string. s" "sort :: string list \<Rightarrow> string list"
  by unfold_locales simp_all


section \<open>The index and the comparison\<close>

lemma dom_index: "dom (index ps m) = dom m \<union> rp_PublicKey ` set ps"
  by (induction ps arbitrary: m) auto

lemma iteration_order_peer_keys: "iteration_order (peer_keys ps) (index ps Map.empty)"
  by (simp add: iteration_order_def peer_keys_def dom_index)

lemma find_append: "find P (xs @ ys) = (case find P xs of None \<Rightarrow> find P ys | Some x \<Rightarrow> Some x)"
  by (induction xs) auto

text \<open>The last peer of a key wins.\<close>

lemma index_lookup:
  "index ps m pk =
     (case find (\<lambda>p. rp_PublicKey p = pk) (rev ps) of None \<Rightarrow> m pk | Some p \<Rightarrow> Some (rp_AllowedIPs p))"
  by (induction ps arbitrary: m) (auto simp: find_append split: option.splits)

lemma index_distinct:
  assumes "distinct (map rp_PublicKey ps)" "p \<in> set ps"
  shows "index ps Map.empty (rp_PublicKey p) = Some (rp_AllowedIPs p)"
proof -
  have "find (\<lambda>q. rp_PublicKey q = rp_PublicKey p) (rev ps) = Some p"
    using assms by (intro find_unique) (auto dest: distinct_map_filter_inj)
  then show ?thesis by (simp add: index_lookup)
qed

lemma count_seen: "count_seen xs seen y = seen y + count (mset xs) y"
  by (induction xs arbitrary: seen) auto

lemma consume_seen_iff: "consume_seen ys seen \<longleftrightarrow> (\<forall>y. count (mset ys) y \<le> seen y)"
proof (induction ys arbitrary: seen)
  case (Cons y ys)
  show ?case
  proof (cases "seen y = 0")
    case True
    then have "\<not> count (mset (y # ys)) y \<le> seen y" by simp
    with True show ?thesis by (metis consume_seen.simps(2))
  next
    case False
    then have "(\<forall>z. count (mset ys) z \<le> (seen(y := seen y - 1)) z) \<longleftrightarrow> (\<forall>z. count (mset (y # ys)) z \<le> seen z)"
      by (auto; metis Suc_le_eq Suc_pred le_neq_implies_less not_less_eq_eq)
    with False Cons[of "seen(y := seen y - 1)"] show ?thesis by (simp only: consume_seen.simps if_False)
  qed
qed simp

lemma sameSet_iff: "sameSet a b \<longleftrightarrow> mset a = mset b"
proof
  assume "sameSet a b"
  then have len: "length a = length b" and sub: "mset b \<subseteq># mset a"
    by (auto simp: sameSet_def consume_seen_iff count_seen subseteq_mset_def split: if_splits)
  then show "mset a = mset b" by (metis mset_subset_size size_mset subset_mset.le_neq_trans less_irrefl)
next
  assume "mset a = mset b"
  moreover from this have "length a = length b" by (metis size_mset)
  ultimately show "sameSet a b" by (simp add: sameSet_def consume_seen_iff count_seen)
qed


section \<open>The plan\<close>

lemma set_diff_Add:
  "set (pl_Add (diff_loops ds cs cur des)) =
     {\<lparr>rp_PublicKey = pk, rp_AllowedIPs = the (des pk)\<rparr> | pk. pk \<in> set ds \<and> needs_add cur pk (the (des pk))}"
  by (auto simp: diff_loops_def)

lemma diff_Add_alt:
  "pl_Add (diff_loops ds cs cur des) =
     map (\<lambda>pk. \<lparr>rp_PublicKey = pk, rp_AllowedIPs = the (des pk)\<rparr>)
       (filter (\<lambda>pk. needs_add cur pk (the (des pk))) ds)"
  by (induction ds) (auto simp: diff_loops_def)

lemma diff_Remove_alt: "pl_Remove (diff_loops ds cs cur des) = filter (\<lambda>pk. des pk = None) cs"
  by (induction cs) (auto simp: diff_loops_def)

lemma iteration_order_mset:
  "iteration_order ks m \<Longrightarrow> iteration_order ks' m \<Longrightarrow> mset ks = mset ks'"
  by (auto simp: iteration_order_def intro: set_eq_iff_mset_eq_distinct[THEN iffD1])

text \<open>
  The counting comparison of two lists of addresses, early exit included, decides whether they
  are permutations of each other: order does not matter, repetitions do.
\<close>

theorem sameSet_equiv: "sameSet a b \<longleftrightarrow> mset a = mset b"
  by (rule sameSet_iff)

text \<open>
  The plan does not depend on the order in which the runtime ranges over
  the two maps.
\<close>

theorem Diff_order_independent:
  assumes "iteration_order desKeys (index desired Map.empty)" "iteration_order curKeys (index current Map.empty)"
  shows "DiffIter desKeys curKeys current desired = Diff current desired"
proof -
  let ?cur = "index current Map.empty" and ?des = "index desired Map.empty"
  have ds: "mset desKeys = mset (peer_keys desired)" and cs: "mset curKeys = mset (peer_keys current)"
    using assms iteration_order_peer_keys iteration_order_mset by blast+
  have "sort_key rp_PublicKey (pl_Add (diff_loops desKeys curKeys ?cur ?des)) =
        sort_key rp_PublicKey (pl_Add (diff_loops (peer_keys desired) (peer_keys current) ?cur ?des))"
    using assms(1) ds by (intro by_key.srt_cong) (simp_all add: diff_Add_alt iteration_order_def comp_def)
  moreover have "sort (pl_Remove (diff_loops desKeys curKeys ?cur ?des)) =
        sort (pl_Remove (diff_loops (peer_keys desired) (peer_keys current) ?cur ?des))"
    using assms(2) cs by (intro by_string.srt_cong) (simp_all add: diff_Remove_alt iteration_order_def)
  ultimately show ?thesis by (simp add: Diff_def DiffIter_def Let_def)
qed

theorem Diff_order_independent_witness:
  "DiffIter [''k2'', ''k1''] []
     [] [\<lparr>rp_PublicKey = ''k1'', rp_AllowedIPs = [''a'']\<rparr>, \<lparr>rp_PublicKey = ''k2'', rp_AllowedIPs = []\<rparr>] =
   Diff [] [\<lparr>rp_PublicKey = ''k1'', rp_AllowedIPs = [''a'']\<rparr>, \<lparr>rp_PublicKey = ''k2'', rp_AllowedIPs = []\<rparr>]"
  by (rule Diff_order_independent) (auto simp: iteration_order_def)

lemma Diff_Add_iff:
  "p \<in> set (pl_Add (Diff current desired)) \<longleftrightarrow>
     index desired Map.empty (rp_PublicKey p) = Some (rp_AllowedIPs p) \<and>
     needs_add (index current Map.empty) (rp_PublicKey p) (rp_AllowedIPs p)"
proof -
  have "set (peer_keys desired) = dom (index desired Map.empty)"
    using iteration_order_peer_keys[of desired] by (simp add: iteration_order_def)
  then show ?thesis
    by (cases p) (auto simp: Diff_def DiffIter_def Let_def set_diff_Add)
qed

lemma Diff_Remove_iff:
  "pk \<in> set (pl_Remove (Diff current desired)) \<longleftrightarrow>
     index current Map.empty pk \<noteq> None \<and> index desired Map.empty pk = None"
proof -
  have "set (peer_keys current) = dom (index current Map.empty)"
    using iteration_order_peer_keys[of current] by (simp add: iteration_order_def)
  then show ?thesis by (auto simp: Diff_def DiffIter_def Let_def diff_Remove_alt)
qed

lemma Diff_sorted:
  "sorted (map rp_PublicKey (pl_Add (Diff current desired)))" "distinct (map rp_PublicKey (pl_Add (Diff current desired)))"
  "sorted (pl_Remove (Diff current desired))" "distinct (pl_Remove (Diff current desired))"
proof -
  show "sorted (map rp_PublicKey (pl_Add (Diff current desired)))"
    by (simp add: Diff_def DiffIter_def Let_def by_key.ordered)
  show "distinct (map rp_PublicKey (pl_Add (Diff current desired)))"
    unfolding Diff_def DiffIter_def Let_def plan.simps
    by (rule by_key.distinct_srt) (simp add: diff_Add_alt comp_def peer_keys_def)
  show "sorted (pl_Remove (Diff current desired))" "distinct (pl_Remove (Diff current desired))"
    by (simp_all add: Diff_def DiffIter_def Let_def diff_Remove_alt peer_keys_def)
qed


text \<open>
  The plan is empty exactly when both sides have the same keys with the same allowed IPs
  up to order; in particular reconciling a state with itself does nothing.
\<close>

lemma Empty_Diff_iff:
  "Empty (Diff current desired) \<longleftrightarrow>
     (\<forall>pk. rel_option (\<lambda>a b. mset a = mset b) (index current Map.empty pk) (index desired Map.empty pk))"
proof
  assume e: "Empty (Diff current desired)"
  show "\<forall>pk. rel_option (\<lambda>a b. mset a = mset b) (index current Map.empty pk) (index desired Map.empty pk)"
  proof
    fix pk
    have "\<lparr>rp_PublicKey = pk, rp_AllowedIPs = the (index desired Map.empty pk)\<rparr> \<notin> set (pl_Add (Diff current desired))"
      "pk \<notin> set (pl_Remove (Diff current desired))"
      using e by (simp_all add: Empty_def)
    then show "rel_option (\<lambda>a b. mset a = mset b) (index current Map.empty pk) (index desired Map.empty pk)"
      by (cases "index current Map.empty pk"; cases "index desired Map.empty pk")
         (auto simp: Diff_Add_iff Diff_Remove_iff needs_add_def sameSet_iff)
  qed
next
  assume same: "\<forall>pk. rel_option (\<lambda>a b. mset a = mset b) (index current Map.empty pk) (index desired Map.empty pk)"
  have "set (pl_Add (Diff current desired)) = {}"
  proof -
    have "p \<notin> set (pl_Add (Diff current desired))" for p :: rpeer
      using same[rule_format, of "rp_PublicKey p"]
      by (auto simp: Diff_Add_iff needs_add_def sameSet_iff split: option.splits)
    then show ?thesis by (metis equals0I)
  qed
  moreover have "set (pl_Remove (Diff current desired)) = {}"
  proof -
    have "pk \<notin> set (pl_Remove (Diff current desired))" for pk
      using same[rule_format, of pk] by (auto simp: Diff_Remove_iff)
    then show ?thesis by (metis equals0I)
  qed
  ultimately show "Empty (Diff current desired)" by (simp add: Empty_def)
qed

end
