(* ===== verification/Cp.thy ===== *)
theory Cp
  imports Api Reconcile
begin

text \<open>
  \<^verbatim>\<open>agent/internal/cp/client.go\<close>: the agent's client of the control plane. Sending a request and
  receiving its response is the parameter \<open>http\<close> (\<open>http.NewRequestWithContext\<close> and
  \<open>http.Client.Do\<close>), an action on the world. Bodies are JSON values, as in the handlers.
\<close>

datatype agent_error =
    WgFailed string | HttpFailed string | BadStatus string string response | BadJSON | EmptyNodeToken | TickerPanic

record http_request =
  hr_Method :: string
  hr_URL :: string
  hr_Authorization :: string
  hr_ContentType :: string
  hr_Body :: "json option"

type_synonym 'w http_do = "http_request \<Rightarrow> ('w, agent_error, response) act"

record client =
  cl_base :: string

definition TrimRight :: "char \<Rightarrow> string \<Rightarrow> string" where
  "TrimRight x s = rev (dropWhile (\<lambda>y. y = x) (rev s))"

definition new_client :: "string \<Rightarrow> client" where
  "new_client baseURL = \<lparr>cl_base = TrimRight CHR ''/'' baseURL\<rparr>"


section \<open>The values on the wire\<close>

record Registration =
  cr_Name :: string
  cr_CountryCode :: string
  cr_CountryName :: string
  cr_City :: string
  cr_Region :: string
  cr_EndpointHost :: string
  cr_EndpointPort :: int
  cr_PublicKey :: string
  cr_WGSubnetV4 :: string
  cr_WGSubnetV6 :: string
  cr_Capacity :: int
  cr_BandwidthMbps :: int
  cr_Latitude :: "rat option"
  cr_Longitude :: "rat option"

definition registration_json :: "Registration \<Rightarrow> json" where
  "registration_json r = JObj
     ([(''name'', JStr (cr_Name r)), (''country_code'', JStr (cr_CountryCode r)), (''country_name'', JStr (cr_CountryName r))] @
      omit_str ''city'' (cr_City r) @ omit_str ''region'' (cr_Region r) @
      [(''endpoint_host'', JStr (cr_EndpointHost r))] @ omit_int ''endpoint_port'' (cr_EndpointPort r) @
      [(''public_key'', JStr (cr_PublicKey r)), (''wg_subnet_v4'', JStr (cr_WGSubnetV4 r))] @
      omit_str ''wg_subnet_v6'' (cr_WGSubnetV6 r) @
      [(''capacity'', JInt (cr_Capacity r))] @ omit_int ''bandwidth_mbps'' (cr_BandwidthMbps r) @
      omit_nil ''latitude'' f64_json (cr_Latitude r) @ omit_nil ''longitude'' f64_json (cr_Longitude r))"

record Metrics =
  cm_ActivePeers :: int
  cm_CPUPct :: rat
  cm_RxBps :: int
  cm_TxBps :: int

definition metrics_json :: "Metrics \<Rightarrow> json" where
  "metrics_json m = JObj
     [(''active_peers'', JInt (cm_ActivePeers m)), (''cpu_pct'', f64_json (cm_CPUPct m)),
      (''rx_bps'', JInt (cm_RxBps m)), (''tx_bps'', JInt (cm_TxBps m))]"

text \<open>
  A slice is filled from an array, every element starting from its zero value; \<open>null\<close> gives the
  nil slice. A member that does not fit is reported at the end.
\<close>

fun decode_elems :: "(json \<Rightarrow> 'a \<times> bool) \<Rightarrow> json list \<Rightarrow> 'a list \<times> bool" where
  "decode_elems d [] = ([], True)"
| "decode_elems d (v # vs) =
     (case d v of (x, ok1) \<Rightarrow> (case decode_elems d vs of (xs, ok2) \<Rightarrow> (x # xs, ok1 \<and> ok2)))"

definition slice_field :: "(json \<Rightarrow> 'a \<times> bool) \<Rightarrow> ('a list \<Rightarrow> 'r \<Rightarrow> 'r) \<Rightarrow> json \<Rightarrow> 'r \<Rightarrow> 'r \<times> bool" where
  "slice_field d put v r =
     (case v of
        JArr vs \<Rightarrow> (case decode_elems d vs of (xs, ok) \<Rightarrow> (put xs r, ok))
      | JNull \<Rightarrow> (put [] r, True)
      | _ \<Rightarrow> (r, False))"

definition peer_fields :: "rpeer field list" where
  "peer_fields =
     [(''public_key'', str_field (\<lambda>x p. p\<lparr>rp_PublicKey := x\<rparr>)),
      (''allowed_ips'', slice_field (\<lambda>v. str_field (\<lambda>x _. x) v '''') (\<lambda>xs p. p\<lparr>rp_AllowedIPs := xs\<rparr>))]"

definition peers_fields :: "rpeer list field list" where
  "peers_fields =
     [(''peers'', slice_field (\<lambda>v. decode_into peer_fields v \<lparr>rp_PublicKey = '''', rp_AllowedIPs = []\<rparr>) (\<lambda>xs _. xs))]"


section \<open>The calls\<close>

text \<open>\<open>do\<close>: what it returns is the body, for \<open>decode\<close> where the caller passes an \<open>out\<close>.\<close>

definition cp_do ::
  "'w http_do \<Rightarrow> client \<Rightarrow> string \<Rightarrow> string \<Rightarrow> string \<Rightarrow> json option \<Rightarrow> ('w, agent_error, body) act" where
  "cp_do http c method path bearer body =
     andThen (http \<lparr>hr_Method = method, hr_URL = cl_base c @ path,
                    hr_Authorization = (if bearer \<noteq> '''' then ''Bearer '' @ bearer else ''''),
                    hr_ContentType = (if body \<noteq> None then ''application/json'' else ''''), hr_Body = body\<rparr>)
       (\<lambda>resp. if rs_Status resp < 200 \<or> 300 \<le> rs_Status resp then throw (BadStatus method path resp)
               else ret (rs_Body resp))"

definition decode_out :: "'r field list \<Rightarrow> 'r \<Rightarrow> body \<Rightarrow> ('w, agent_error, 'r) act" where
  "decode_out fs zero b =
     (case b of
        Json v \<Rightarrow> (case decode_into fs v zero of (x, ok) \<Rightarrow> if ok then ret x else throw BadJSON)
      | _ \<Rightarrow> throw BadJSON)"

definition cp_Register :: "'w http_do \<Rightarrow> client \<Rightarrow> string \<Rightarrow> Registration \<Rightarrow> ('w, agent_error, string) act" where
  "cp_Register http c enrollmentSecret reg =
     andThen (cp_do http c ''POST'' ''/v1/gateways/register'' enrollmentSecret (Some (registration_json reg))) (\<lambda>b.
     andThen (decode_out [(''node_token'', str_field (\<lambda>x _. x))] '''' b) (\<lambda>token.
       if token = '''' then throw EmptyNodeToken else ret token))"

definition cp_Heartbeat :: "'w http_do \<Rightarrow> client \<Rightarrow> string \<Rightarrow> Metrics \<Rightarrow> ('w, agent_error, unit) act" where
  "cp_Heartbeat http c nodeToken m =
     andThen (cp_do http c ''POST'' ''/v1/gateways/heartbeat'' nodeToken (Some (metrics_json m))) (\<lambda>_. ret ())"

definition cp_Peers :: "'w http_do \<Rightarrow> client \<Rightarrow> string \<Rightarrow> ('w, agent_error, rpeer list) act" where
  "cp_Peers http c nodeToken =
     andThen (cp_do http c ''GET'' ''/v1/gateways/peers'' nodeToken None) (decode_out peers_fields [])"

definition cp_Deregister :: "'w http_do \<Rightarrow> client \<Rightarrow> string \<Rightarrow> ('w, agent_error, unit) act" where
  "cp_Deregister http c nodeToken =
     andThen (cp_do http c ''POST'' ''/v1/gateways/deregister'' nodeToken None) (\<lambda>_. ret ())"


section \<open>The two sides read each other\<close>

definition finite_f64 :: "rat \<Rightarrow> bool" where
  "finite_f64 x \<longleftrightarrow> f64 x = x \<and> \<bar>x\<bar> < 2 ^ 1024"

lemma f64_of_json_f64_json: "finite_f64 x \<Longrightarrow> f64_of_json (f64_json x) = Some x"
  by (auto simp: finite_f64_def f64_of_json_def f64_json_def Let_def)

lemma f64_json_not_null [simp]: "f64_json x \<noteq> JNull"
  by (simp add: f64_json_def)

lemma f64_fields:
  "finite_f64 x \<Longrightarrow> f64_field put (f64_json x) r = (put x r, True)"
  "finite_f64 x \<Longrightarrow> f64_ptr_field putp (f64_json x) q = (putp (Some x) q, True)"
  by (simp_all add: f64_field_def f64_ptr_field_def f64_of_json_f64_json)

lemma decode_members_append:
  "decode_members fs (ms @ ms') r =
     (case decode_members fs ms r of (r1, ok1) \<Rightarrow> (case decode_members fs ms' r1 of (r2, ok2) \<Rightarrow> (r2, ok1 \<and> ok2)))"
  by (induction ms arbitrary: r) (auto split: prod.splits option.splits)

lemma decode_member:
  "find_field k fs = Some (k, f) \<Longrightarrow> f v r = (r', True) \<Longrightarrow> decode_members fs [(k, v)] r = (r', True)"
  by simp

text \<open>Members that \<open>omitempty\<close> left out are read back as the zero value they had.\<close>

lemma decode_omit:
  "find_field k fs = Some (k, str_field puts) \<Longrightarrow> (x = '''' \<Longrightarrow> puts x r = r) \<Longrightarrow>
     decode_members fs (omit_str k x) r = (puts x r, True)"
  "find_field k' fs = Some (k', int_field puti) \<Longrightarrow> (n = 0 \<Longrightarrow> puti n r = r) \<Longrightarrow> int64_range n \<Longrightarrow>
     decode_members fs (omit_int k' n) r = (puti n r, True)"
  "find_field k'' fs = Some (k'', f64_ptr_field putp) \<Longrightarrow> (y = None \<Longrightarrow> putp y r = r) \<Longrightarrow> pred_option finite_f64 y \<Longrightarrow>
     decode_members fs (omit_nil k'' f64_json y) r = (putp y r, True)"
  by (auto simp: omit_str_def omit_int_def omit_nil_def str_field_def int_field_def f64_fields split: option.split)

definition fields_fit :: "Registration \<Rightarrow> bool" where
  "fields_fit r \<longleftrightarrow> int64_range (cr_EndpointPort r) \<and> int64_range (cr_Capacity r) \<and> int64_range (cr_BandwidthMbps r) \<and>
     pred_option finite_f64 (cr_Latitude r) \<and> pred_option finite_f64 (cr_Longitude r)"

definition registration_of :: "Registration \<Rightarrow> gateway_registration" where
  "registration_of r =
     \<lparr>r_Name = cr_Name r, r_CountryCode = cr_CountryCode r, r_CountryName = cr_CountryName r, r_City = cr_City r,
      r_Region = cr_Region r, r_EndpointHost = cr_EndpointHost r, r_EndpointPort = cr_EndpointPort r,
      r_PublicKey = cr_PublicKey r, r_WGSubnetV4 = cr_WGSubnetV4 r, r_WGSubnetV6 = cr_WGSubnetV6 r,
      r_Capacity = cr_Capacity r, r_BandwidthMbps = cr_BandwidthMbps r, r_Latitude = cr_Latitude r,
      r_Longitude = cr_Longitude r\<rparr>"

lemma registration_find:
  "find_field ''city'' registration_fields = Some (''city'', str_field (\<lambda>x r. r\<lparr>r_City := x\<rparr>))"
  "find_field ''region'' registration_fields = Some (''region'', str_field (\<lambda>x r. r\<lparr>r_Region := x\<rparr>))"
  "find_field ''endpoint_port'' registration_fields = Some (''endpoint_port'', int_field (\<lambda>x r. r\<lparr>r_EndpointPort := x\<rparr>))"
  "find_field ''wg_subnet_v6'' registration_fields = Some (''wg_subnet_v6'', str_field (\<lambda>x r. r\<lparr>r_WGSubnetV6 := x\<rparr>))"
  "find_field ''bandwidth_mbps'' registration_fields = Some (''bandwidth_mbps'', int_field (\<lambda>x r. r\<lparr>r_BandwidthMbps := x\<rparr>))"
  "find_field ''latitude'' registration_fields = Some (''latitude'', f64_ptr_field (\<lambda>x r. r\<lparr>r_Latitude := x\<rparr>))"
  "find_field ''longitude'' registration_fields = Some (''longitude'', f64_ptr_field (\<lambda>x r. r\<lparr>r_Longitude := x\<rparr>))"
  by (simp_all add: find_field_def registration_fields_def)

lemma registration_find_required:
  "find_field ''name'' registration_fields = Some (''name'', str_field (\<lambda>x r. r\<lparr>r_Name := x\<rparr>))"
  "find_field ''country_code'' registration_fields = Some (''country_code'', str_field (\<lambda>x r. r\<lparr>r_CountryCode := x\<rparr>))"
  "find_field ''country_name'' registration_fields = Some (''country_name'', str_field (\<lambda>x r. r\<lparr>r_CountryName := x\<rparr>))"
  "find_field ''endpoint_host'' registration_fields = Some (''endpoint_host'', str_field (\<lambda>x r. r\<lparr>r_EndpointHost := x\<rparr>))"
  "find_field ''public_key'' registration_fields = Some (''public_key'', str_field (\<lambda>x r. r\<lparr>r_PublicKey := x\<rparr>))"
  "find_field ''wg_subnet_v4'' registration_fields = Some (''wg_subnet_v4'', str_field (\<lambda>x r. r\<lparr>r_WGSubnetV4 := x\<rparr>))"
  "find_field ''capacity'' registration_fields = Some (''capacity'', int_field (\<lambda>x r. r\<lparr>r_Capacity := x\<rparr>))"
  by (simp_all add: find_field_def registration_fields_def)

lemma decode_registration:
  assumes "fields_fit r"
  shows "decode_into registration_fields (registration_json r) zero_registration = (registration_of r, True)"
  using assms
  by (simp add: decode_into_def registration_json_def decode_members_append registration_find_required
      decode_omit(1)[OF registration_find(1)] decode_omit(1)[OF registration_find(2)] decode_omit(2)[OF registration_find(3)]
      decode_omit(1)[OF registration_find(4)] decode_omit(2)[OF registration_find(5)] decode_omit(3)[OF registration_find(6)]
      decode_omit(3)[OF registration_find(7)] zero_registration_def registration_of_def fields_fit_def str_field_def int_field_def)

definition metrics_of :: "Metrics \<Rightarrow> gateway_metrics" where
  "metrics_of m = \<lparr>m_ActivePeers = cm_ActivePeers m, m_CPUPct = cm_CPUPct m, m_RxBps = cm_RxBps m, m_TxBps = cm_TxBps m\<rparr>"

lemma decode_metrics:
  assumes "int64_range (cm_ActivePeers m)" "int64_range (cm_RxBps m)" "int64_range (cm_TxBps m)" "finite_f64 (cm_CPUPct m)"
  shows "decode_into metrics_fields (metrics_json m) zero_metrics = (metrics_of m, True)"
  using assms
  by (simp add: decode_into_def metrics_json_def metrics_fields_def find_field_def f64_fields int_field_def zero_metrics_def
      metrics_of_def)

definition rpeer_of :: "peer \<Rightarrow> rpeer" where
  "rpeer_of p = \<lparr>rp_PublicKey = p_PublicKey p, rp_AllowedIPs = p_AllowedIPs p\<rparr>"

lemma decode_elems_map: "(\<And>x. x \<in> set xs \<Longrightarrow> d (f x) = (g x, True)) \<Longrightarrow> decode_elems d (map f xs) = (map g xs, True)"
  by (induction xs) auto

lemma decode_peer:
  "decode_into peer_fields (peer_json p) \<lparr>rp_PublicKey = '''', rp_AllowedIPs = []\<rparr> = (rpeer_of p, True)"
proof -
  have "decode_elems (\<lambda>v. str_field (\<lambda>x _. x) v '''') (map JStr ips) = (map id ips, True)" for ips
    by (rule decode_elems_map) (simp add: str_field_def)
  then show ?thesis
    by (simp add: decode_into_def peer_json_def peer_fields_def find_field_def slice_field_def str_field_def rpeer_of_def)
qed

lemma decode_peers:
  "decode_into peers_fields (JObj [(''peers'', JArr (map peer_json ps))]) [] = (map rpeer_of ps, True)"
proof -
  let ?d = "\<lambda>v. decode_into peer_fields v \<lparr>rp_PublicKey = '''', rp_AllowedIPs = []\<rparr>"
  have "decode_elems ?d (map peer_json ps) = (map rpeer_of ps, True)"
    by (rule decode_elems_map) (rule decode_peer)
  then show ?thesis by (simp add: decode_into_def peers_fields_def find_field_def slice_field_def)
qed

text \<open>
  C32. What one side of the agent's protocol writes, the other reads back unchanged: a registration
  and a heartbeat sent by the agent reach the control plane's handlers as the same values, and the
  list of peers the control plane answers with reaches the agent as the same list.
\<close>

theorem wire_roundtrip:
  assumes "fields_fit r" and "list_all int64_range [cm_ActivePeers m, cm_RxBps m, cm_TxBps m]" "finite_f64 (cm_CPUPct m)"
  shows "decode_into registration_fields (registration_json r) zero_registration = (registration_of r, True) \<and>
     decode_into metrics_fields (metrics_json m) zero_metrics = (metrics_of m, True) \<and>
     decode_into peers_fields (JObj [(''peers'', JArr (map peer_json ps))]) [] = (map rpeer_of ps, True)"
  using assms decode_registration decode_metrics decode_peers by simp

definition sample_reg :: Registration where
  "sample_reg = \<lparr>cr_Name = ''de-fra-1'', cr_CountryCode = ''de'', cr_CountryName = ''Germany'', cr_City = '''',
     cr_Region = '''', cr_EndpointHost = ''192.0.2.1'', cr_EndpointPort = 51820, cr_PublicKey = ''gk'',
     cr_WGSubnetV4 = ''10.7.50.0/29'', cr_WGSubnetV6 = '''', cr_Capacity = 2, cr_BandwidthMbps = 0,
     cr_Latitude = None, cr_Longitude = None\<rparr>"

lemma finite_f64_0: "finite_f64 0"
  by code_simp

theorem wire_roundtrip_witness:
  "decode_into registration_fields (registration_json sample_reg) zero_registration = (registration_of sample_reg, True) \<and>
   fst (decode_into peers_fields (JObj [(''peers'', JArr (map peer_json [\<lparr>p_PublicKey = ''k'', p_AllowedIPs = [''10.7.0.2/32'']\<rparr>]))]) []) =
     [\<lparr>rp_PublicKey = ''k'', rp_AllowedIPs = [''10.7.0.2/32'']\<rparr>]"
proof -
  have "fields_fit sample_reg" by (simp add: fields_fit_def sample_reg_def int64_range_def)
  from wire_roundtrip[OF this, of "\<lparr>cm_ActivePeers = 1, cm_CPUPct = 0, cm_RxBps = 0, cm_TxBps = 0\<rparr>"
      "[\<lparr>p_PublicKey = ''k'', p_AllowedIPs = [''10.7.0.2/32'']\<rparr>]"]
  show ?thesis by (simp add: finite_f64_0 int64_range_def rpeer_of_def)
qed

end
