(* ===== verification/Wg.thy ===== *)
theory Wg
  imports Reconcile
begin

text \<open>
  \<^verbatim>\<open>agent/internal/wg/wg.go\<close>: reading and changing the peers of a WireGuard interface through the
  \<open>wg\<close> tool. The tool is not part of the repository: it is the parameter \<open>run\<close>, a command
  on the world \<open>'w\<close> that returns its output or an error. What the tool's manual says of
  \<open>set\<close> and \<open>remove\<close> is the hypothesis \<open>wg_semantics\<close>.
\<close>

type_synonym ('w, 'e) wg_run = "string list \<Rightarrow> ('w, 'e, string) act"

definition newline :: char where "newline = CHR 0x0A"
definition tab :: char where "tab = CHR 0x09"

section \<open>The code\<close>

definition parse_allowed :: "string \<Rightarrow> string list" where
  "parse_allowed allowed =
     (if allowed \<noteq> '''' \<and> allowed \<noteq> ''(none)'' then
        filter (\<lambda>ip. ip \<noteq> '''') (map TrimSpace (Split (CHR '','') allowed))
      else [])"

definition parse_line :: "string \<Rightarrow> rpeer option" where
  "parse_line line =
     (if TrimSpace line = '''' then None
      else let f = Split tab line
           in if length f < 4 then None
              else Some \<lparr>rp_PublicKey = f ! 0, rp_AllowedIPs = parse_allowed (f ! 3)\<rparr>)"

text \<open>The first line, the interface's own, is skipped.\<close>

definition parseDump :: "string \<Rightarrow> rpeer list" where
  "parseDump out = List.map_filter parse_line (tl (Split newline (TrimSpace out)))"

definition PublicKey :: "('w, 'e) wg_run \<Rightarrow> string \<Rightarrow> ('w, 'e, string) act" where
  "PublicKey run iface = andThen (run [''show'', iface, ''public-key'']) (\<lambda>out. ret (TrimSpace out))"

definition ListPeers :: "('w, 'e) wg_run \<Rightarrow> string \<Rightarrow> ('w, 'e, rpeer list) act" where
  "ListPeers run iface = andThen (run [''show'', iface, ''dump'']) (\<lambda>out. ret (parseDump out))"

definition SetPeer :: "('w, 'e) wg_run \<Rightarrow> string \<Rightarrow> rpeer \<Rightarrow> ('w, 'e, unit) act" where
  "SetPeer run iface p =
     andThen (run [''set'', iface, ''peer'', rp_PublicKey p, ''allowed-ips'', Join (CHR '','') (rp_AllowedIPs p)])
       (\<lambda>_. ret ())"

definition RemovePeer :: "('w, 'e) wg_run \<Rightarrow> string \<Rightarrow> string \<Rightarrow> ('w, 'e, unit) act" where
  "RemovePeer run iface publicKey = andThen (run [''set'', iface, ''peer'', publicKey, ''remove'']) (\<lambda>_. ret ())"

fun each :: "('a \<Rightarrow> ('w, 'e, unit) act) \<Rightarrow> 'a list \<Rightarrow> ('w, 'e, unit) act" where
  "each f [] = ret ()"
| "each f (x # xs) = andThen (f x) (\<lambda>_. each f xs)"

definition Apply :: "('w, 'e) wg_run \<Rightarrow> string \<Rightarrow> plan \<Rightarrow> ('w, 'e, unit) act" where
  "Apply run iface p =
     andThen (each (SetPeer run iface) (pl_Add p)) (\<lambda>_. each (RemovePeer run iface) (pl_Remove p))"


section \<open>The tool\<close>

text \<open>
  The peers of the interface, as the tool sees them: for every key its set of allowed IPs. Giving
  a peer allowed IPs replaces those it has and takes them away from any other peer.
\<close>

type_synonym wg_view = "string \<rightharpoonup> string set"

definition view_set :: "string \<Rightarrow> string set \<Rightarrow> wg_view \<Rightarrow> wg_view" where
  "view_set pk ips v = (\<lambda>k. if k = pk then Some ips else map_option (\<lambda>S. S - ips) (v k))"

definition clean_ips :: "string list \<Rightarrow> bool" where
  "clean_ips ips \<longleftrightarrow> (\<forall>ip\<in>set ips. ip \<noteq> '''' \<and> CHR '','' \<notin> set ip)"

definition wg_semantics :: "('w, 'e) wg_run \<Rightarrow> string \<Rightarrow> ('w \<Rightarrow> wg_view) \<Rightarrow> bool" where
  "wg_semantics run iface view \<longleftrightarrow>
     (\<forall>pk ips w out w'. clean_ips ips \<longrightarrow>
        run [''set'', iface, ''peer'', pk, ''allowed-ips'', Join (CHR '','') ips] w = (Inr out, w') \<longrightarrow>
        view w' = view_set pk (set ips) (view w)) \<and>
     (\<forall>pk w out w'. run [''set'', iface, ''peer'', pk, ''remove''] w = (Inr out, w') \<longrightarrow>
        view w' = (view w)(pk := None))"

text \<open>The view a list of peers describes.\<close>

definition view_of :: "rpeer list \<Rightarrow> wg_view" where
  "view_of ps = (\<lambda>k. map_option set (index ps Map.empty k))"


section \<open>Applying a plan\<close>

definition set_all :: "rpeer list \<Rightarrow> wg_view \<Rightarrow> wg_view" where
  "set_all ps v = fold (\<lambda>p. view_set (rp_PublicKey p) (set (rp_AllowedIPs p))) ps v"

lemma SetPeer_Inr:
  assumes "wg_semantics run iface view" "clean_ips (rp_AllowedIPs p)" "SetPeer run iface p w = (Inr (), u)"
  shows "view u = view_set (rp_PublicKey p) (set (rp_AllowedIPs p)) (view w)"
  using assms unfolding SetPeer_def wg_semantics_def andThen_Inr_iff ret_Inr_iff by metis

lemma RemovePeer_Inr:
  assumes "wg_semantics run iface view" "RemovePeer run iface k w = (Inr (), u)"
  shows "view u = (view w)(k := None)"
  using assms unfolding RemovePeer_def wg_semantics_def andThen_Inr_iff ret_Inr_iff by metis

lemma each_SetPeer:
  assumes "wg_semantics run iface view" "each (SetPeer run iface) ps w = (Inr (), w')"
    and "\<And>p. p \<in> set ps \<Longrightarrow> clean_ips (rp_AllowedIPs p)"
  shows "view w' = set_all ps (view w)"
  using assms(2,3)
proof (induction ps arbitrary: w)
  case (Cons p ps)
  then obtain u where u: "SetPeer run iface p w = (Inr (), u)" "each (SetPeer run iface) ps u = (Inr (), w')"
    by (auto simp: andThen_Inr_iff)
  have "view u = view_set (rp_PublicKey p) (set (rp_AllowedIPs p)) (view w)"
    using SetPeer_Inr[OF assms(1) _ u(1)] Cons.prems(2) by simp
  with Cons.IH[OF u(2)] Cons.prems(2) show ?case by (simp add: set_all_def)
qed (simp add: set_all_def act_simps)

lemma each_RemovePeer:
  assumes "wg_semantics run iface view" "each (RemovePeer run iface) ks w = (Inr (), w')"
  shows "view w' = (\<lambda>k. if k \<in> set ks then None else view w k)"
  using assms(2)
proof (induction ks arbitrary: w)
  case (Cons k ks)
  then obtain u where "RemovePeer run iface k w = (Inr (), u)" "each (RemovePeer run iface) ks u = (Inr (), w')"
    by (auto simp: andThen_Inr_iff)
  with Cons RemovePeer_Inr[OF assms(1)] show ?case by auto
qed (simp add: act_simps)

lemma set_all_other:
  "k \<notin> rp_PublicKey ` set ps \<Longrightarrow>
   set_all ps v k = map_option (\<lambda>S. S - (\<Union>p\<in>set ps. set (rp_AllowedIPs p))) (v k)"
proof (induction ps arbitrary: v)
  case (Cons p ps)
  have "set_all (p # ps) v k = set_all ps (view_set (rp_PublicKey p) (set (rp_AllowedIPs p)) v) k"
    by (simp add: set_all_def)
  also have "\<dots> = map_option (\<lambda>S. S - (\<Union>p\<in>set (p # ps). set (rp_AllowedIPs p))) (v k)"
    using Cons by (cases "v k") (auto simp: view_set_def)
  finally show ?case .
qed (simp add: set_all_def option.map_ident)

text \<open>
  A peer that is set ends up with addresses of its own only, and with every address that is asked
  for by no other peer.
\<close>

definition served :: "string list \<Rightarrow> (string \<Rightarrow> bool) \<Rightarrow> string set option \<Rightarrow> bool" where
  "served ips other got \<longleftrightarrow> (\<exists>S. got = Some S \<and> S \<subseteq> set ips \<and> (\<forall>x\<in>set ips. \<not> other x \<longrightarrow> x \<in> S))"

lemma servedI: "{x \<in> set ips. \<not> other x} \<subseteq> S \<Longrightarrow> S \<subseteq> set ips \<Longrightarrow> served ips other (Some S)"
  by (auto simp: served_def)

lemma served_alone: "(\<And>x. x \<in> set ips \<Longrightarrow> \<not> other x) \<Longrightarrow> served ips other got \<longleftrightarrow> got = Some (set ips)"
  by (auto simp: served_def)

lemma set_all_in:
  assumes "distinct (map rp_PublicKey ps)" "p \<in> set ps"
  shows "served (rp_AllowedIPs p) (\<lambda>x. \<exists>q\<in>set ps. q \<noteq> p \<and> x \<in> set (rp_AllowedIPs q)) (set_all ps v (rp_PublicKey p))"
  using assms
proof (induction ps arbitrary: v)
  case (Cons q ps)
  show ?case
  proof (cases "q = p")
    case True
    then have out: "rp_PublicKey p \<notin> rp_PublicKey ` set ps" using Cons.prems(1) by auto
    have "set_all (q # ps) v (rp_PublicKey p) = Some (set (rp_AllowedIPs p) - (\<Union>q\<in>set ps. set (rp_AllowedIPs q)))"
      using set_all_other[OF out] True by (simp add: set_all_def view_set_def)
    then show ?thesis using True out by (auto intro!: servedI)
  next
    case False
    then have "p \<in> set ps" "distinct (map rp_PublicKey ps)" using Cons.prems by auto
    then have "served (rp_AllowedIPs p) (\<lambda>x. \<exists>q\<in>set ps. q \<noteq> p \<and> x \<in> set (rp_AllowedIPs q)) (set_all (q # ps) v (rp_PublicKey p))"
      using Cons.IH by (simp add: set_all_def)
    then show ?thesis by (auto simp: served_def)
  qed
qed simp

text \<open>The desired peers claim no address twice.\<close>

definition disjoint_ips :: "rpeer list \<Rightarrow> bool" where
  "disjoint_ips ps \<longleftrightarrow>
     (\<forall>p\<in>set ps. \<forall>q\<in>set ps. rp_PublicKey p \<noteq> rp_PublicKey q \<longrightarrow> set (rp_AllowedIPs p) \<inter> set (rp_AllowedIPs q) = {})"

lemma index_Some_peer: "index ps Map.empty k = Some ips \<Longrightarrow> \<exists>p\<in>set ps. rp_PublicKey p = k \<and> rp_AllowedIPs p = ips"
  by (auto simp: index_lookup split: option.splits dest!: find_Some_set)

text \<open>An address asked for by another key.\<close>

definition elsewhere :: "rpeer list \<Rightarrow> string \<Rightarrow> string \<Rightarrow> bool" where
  "elsewhere desired k x \<longleftrightarrow> (\<exists>k' ips. k' \<noteq> k \<and> index desired Map.empty k' = Some ips \<and> x \<in> set ips)"

lemma served_mono: "served ips P got \<Longrightarrow> (\<And>x. P x \<Longrightarrow> Q x) \<Longrightarrow> served ips Q got"
  by (auto simp: served_def)

text \<open>Setting the plan's additions on the described view serves the desired peers.\<close>

lemma set_all_Diff:
  assumes "index desired Map.empty k = Some ips"
  shows "served ips (elsewhere desired k) (set_all (pl_Add (Diff current desired)) (view_of current) k)"
proof -
  let ?add = "pl_Add (Diff current desired)" and ?p = "\<lparr>rp_PublicKey = k, rp_AllowedIPs = ips\<rparr>"
  have other: "elsewhere desired k x" if "q \<in> set ?add" "q \<noteq> ?p" "x \<in> set (rp_AllowedIPs q)" for q x
  proof -
    have q: "index desired Map.empty (rp_PublicKey q) = Some (rp_AllowedIPs q)" using that(1) by (simp add: Diff_Add_iff)
    then have "rp_PublicKey q \<noteq> k" using that(2) assms by (cases q) auto
    with q that(3) show ?thesis by (auto simp: elsewhere_def)
  qed
  show ?thesis
  proof (cases "needs_add (index current Map.empty) k ips")
    case True
    then have "?p \<in> set ?add" using assms by (simp add: Diff_Add_iff)
    from set_all_in[OF Diff_sorted(2) this, of "view_of current"] show ?thesis
      unfolding rpeer.simps by (rule served_mono) (use other in blast)
  next
    case False
    then obtain c where c: "index current Map.empty k = Some c" "mset c = mset ips"
      by (auto simp: needs_add_def sameSet_iff split: option.splits)
    have out: "k \<notin> rp_PublicKey ` set ?add" using False assms by (auto simp: Diff_Add_iff)
    have "set_all ?add (view_of current) k = Some (set ips - (\<Union>q\<in>set ?add. set (rp_AllowedIPs q)))"
      using set_all_other[OF out] c mset_eq_setD[OF c(2)] by (simp add: view_of_def)
    moreover have "q \<noteq> ?p" if "q \<in> set ?add" for q using out that by force
    ultimately show ?thesis using other by (auto intro!: servedI)
  qed
qed

lemma apply_plan:
  assumes sem: "wg_semantics run iface view" and start: "view w = view_of current"
    and clean: "\<And>p. p \<in> set desired \<Longrightarrow> clean_ips (rp_AllowedIPs p)"
    and run: "Apply run iface (Diff current desired) w = (Inr (), w')"
  shows "case index desired Map.empty k of None \<Rightarrow> view w' k = None | Some ips \<Rightarrow> served ips (elsewhere desired k) (view w' k)"
proof -
  obtain u where u: "each (SetPeer run iface) (pl_Add (Diff current desired)) w = (Inr (), u)"
    "each (RemovePeer run iface) (pl_Remove (Diff current desired)) u = (Inr (), w')"
    using run by (auto simp: Apply_def andThen_Inr_iff)
  have "clean_ips (rp_AllowedIPs p)" if "p \<in> set (pl_Add (Diff current desired))" for p
    using that clean index_Some_peer Diff_Add_iff by metis
  then have "view u = set_all (pl_Add (Diff current desired)) (view_of current)"
    using each_SetPeer[OF sem u(1)] start by simp
  then have w': "view w' k = (if k \<in> set (pl_Remove (Diff current desired)) then None
      else set_all (pl_Add (Diff current desired)) (view_of current) k)"
    using each_RemovePeer[OF sem u(2)] by simp
  show ?thesis
  proof (cases "index desired Map.empty k")
    case (Some ips)
    then show ?thesis using set_all_Diff[OF Some] by (simp add: w' Diff_Remove_iff)
  next
    case None
    then have "k \<notin> rp_PublicKey ` set (pl_Add (Diff current desired))" by (auto simp: Diff_Add_iff)
    then show ?thesis using None by (auto simp: w' Diff_Remove_iff view_of_def set_all_other)
  qed
qed

lemma disjoint_elsewhere:
  assumes "disjoint_ips desired" "index desired Map.empty k = Some ips" "x \<in> set ips" shows "\<not> elsewhere desired k x"
proof
  assume "elsewhere desired k x"
  then obtain k' ips' where o: "k' \<noteq> k" "index desired Map.empty k' = Some ips'" "x \<in> set ips'" by (auto simp: elsewhere_def)
  from index_Some_peer[OF assms(2)] index_Some_peer[OF o(2)] show False
    using assms(1,3) o(1,3) by (auto simp: disjoint_ips_def)
qed


text \<open>A simulated tool for one interface, on which the hypothesis holds.\<close>

definition sim_run :: "(wg_view, string) wg_run" where
  "sim_run args v =
     (case args of
        [cmd, iface, kind, pk, a, csv] \<Rightarrow>
          if a = ''allowed-ips'' then (Inr '''', view_set pk (if csv = '''' then {} else set (Split (CHR '','') csv)) v)
          else (Inl ''usage'', v)
      | [cmd, iface, kind, pk, a] \<Rightarrow> if a = ''remove'' then (Inr '''', v(pk := None)) else (Inl ''usage'', v)
      | _ \<Rightarrow> (Inl ''usage'', v))"

lemma clean_Split_Join:
  "clean_ips ips \<Longrightarrow> (if Join (CHR '','') ips = '''' then {} else set (Split (CHR '','') (Join (CHR '','') ips))) = set ips"
proof (cases ips)
  case (Cons ip rest)
  assume c: "clean_ips ips"
  then have "Join (CHR '','') ips \<noteq> ''''" using Cons by (cases rest) (auto simp: clean_ips_def)
  moreover have "Split (CHR '','') (Join (CHR '','') ips) = ips"
    using c Cons by (intro Split_Join) (auto simp: clean_ips_def)
  ultimately show ?thesis by simp
qed simp

lemma sim_semantics: "wg_semantics sim_run iface id"
  by (auto simp: wg_semantics_def sim_run_def clean_Split_Join)



section \<open>Reading the dump back\<close>

text \<open>
  The format of \<^verbatim>\<open>wg show <iface> dump\<close>: one line for the interface, one line per peer with
  eight tab-separated fields; no allowed IPs are written \<open>(none)\<close>.
\<close>

definition dump_line :: "rpeer \<Rightarrow> string list \<times> string list \<Rightarrow> string" where
  "dump_line p fs =
     Join tab (rp_PublicKey p # fst fs @
       (if rp_AllowedIPs p = [] then ''(none)'' else Join (CHR '','') (rp_AllowedIPs p)) # snd fs)"

definition dump :: "string \<Rightarrow> (rpeer \<times> string list \<times> string list) list \<Rightarrow> string" where
  "dump ifline ps = Join newline (ifline # map (\<lambda>(p, fs). dump_line p fs) ps) @ [newline]"

definition word_ok :: "string \<Rightarrow> bool" where
  "word_ok s \<longleftrightarrow> s \<noteq> '''' \<and> list_all (\<lambda>x. \<not> isSpace x) s"

text \<open>The line of the interface: its keys, port and mark, separated by tabs.\<close>

definition line_ok :: "string \<Rightarrow> bool" where
  "line_ok s \<longleftrightarrow> s \<noteq> '''' \<and> newline \<notin> set s \<and> \<not> isSpace (hd s) \<and> \<not> isSpace (last s)"

definition dump_ok :: "rpeer \<times> string list \<times> string list \<Rightarrow> bool" where
  "dump_ok = (\<lambda>(p, before, after).
     word_ok (rp_PublicKey p) \<and> length before = 2 \<and> list_all word_ok before \<and>
     after \<noteq> [] \<and> list_all word_ok after \<and>
     list_all (\<lambda>ip. word_ok ip \<and> CHR '','' \<notin> set ip) (rp_AllowedIPs p) \<and> rp_AllowedIPs p \<noteq> [''(none)''])"

lemma isSpace_sep [simp]: "isSpace newline" "isSpace tab" "newline \<noteq> tab" "CHR '','' \<noteq> newline" "CHR '','' \<noteq> tab"
  by (simp_all add: isSpace_def newline_def tab_def)

lemma word_ok_sep: "word_ok s \<Longrightarrow> newline \<notin> set s \<and> tab \<notin> set s"
  by (auto simp: word_ok_def list_all_iff)

lemma dropWhile_isSpace: "s = '''' \<or> \<not> isSpace (hd s) \<Longrightarrow> dropWhile isSpace s = s"
  by (cases s) auto

lemma TrimSpace_id: "s \<noteq> '''' \<Longrightarrow> \<not> isSpace (hd s) \<Longrightarrow> \<not> isSpace (last s) \<Longrightarrow> TrimSpace s = s"
  by (simp add: TrimSpace_def dropWhile_isSpace hd_rev)

lemma TrimSpace_newline:
  "s \<noteq> '''' \<Longrightarrow> \<not> isSpace (hd s) \<Longrightarrow> \<not> isSpace (last s) \<Longrightarrow> TrimSpace (s @ [newline]) = s"
  by (simp add: TrimSpace_def dropWhile_isSpace hd_rev)

lemma TrimSpace_word: "word_ok s \<Longrightarrow> TrimSpace s = s"
  by (rule TrimSpace_id) (auto simp: word_ok_def list_all_iff)

lemma TrimSpace_eq_Nil: "TrimSpace s = '''' \<longleftrightarrow> list_all isSpace s"
  by (auto simp: TrimSpace_def list_all_iff dropWhile_eq_Nil_conv dest: set_dropWhileD)
     (metis dropWhile_eq_Nil_conv dropWhile_idem hd_dropWhile hd_in_set)

lemma hd_Join: "ws \<noteq> [] \<Longrightarrow> hd ws \<noteq> [] \<Longrightarrow> Join c ws \<noteq> [] \<and> hd (Join c ws) = hd (hd ws)"
  by (cases "(c, ws)" rule: Join.cases) auto

lemma Join_Nil_iff: "Join c ws = [] \<longleftrightarrow> ws = [] \<or> ws = [[]]"
  by (cases "(c, ws)" rule: Join.cases) auto

lemma last_Join: "ws \<noteq> [] \<Longrightarrow> last ws \<noteq> [] \<Longrightarrow> last (Join c ws) = last (last ws)"
  by (induction c ws rule: Join.induct) (auto simp: last_append Join_Nil_iff)

lemma set_Join_sub: "set (Join c ws) \<subseteq> insert c (\<Union>w\<in>set ws. set w)"
  by (induction c ws rule: Join.induct) auto

lemma Join_has_sep: "2 \<le> length ws \<Longrightarrow> c \<in> set (Join c ws)"
  by (induction c ws rule: Join.induct) auto

lemma parse_allowed_Join:
  assumes "list_all (\<lambda>ip. word_ok ip \<and> CHR '','' \<notin> set ip) ips" "ips \<noteq> []" "ips \<noteq> [''(none)'']"
  shows "parse_allowed (Join (CHR '','') ips) = ips"
proof -
  have "Join (CHR '','') ips \<noteq> ''''"
    using assms hd_Join[of ips "CHR '',''"] by (cases ips) (auto simp: word_ok_def)
  moreover have "Join (CHR '','') ips \<noteq> ''(none)''"
  proof (cases "length ips = 1")
    case True
    then show ?thesis using assms(3) by (cases ips) auto
  next
    case False
    then have "CHR '','' \<in> set (Join (CHR '','') ips)" using assms(2) by (intro Join_has_sep) (cases ips; auto simp: Suc_le_eq)
    then show ?thesis by (intro notI) simp
  qed
  moreover have "Split (CHR '','') (Join (CHR '','') ips) = ips"
    using assms by (intro Split_Join) (auto simp: list_all_iff)
  moreover have "map TrimSpace ips = ips" "filter (\<lambda>ip. ip \<noteq> '''') ips = ips"
    using assms(1) by (auto simp: list_all_iff TrimSpace_word word_ok_def intro!: map_idI)
  ultimately show ?thesis by (simp add: parse_allowed_def)
qed

lemma dump_fields_clean:
  assumes "dump_ok (p, before, after)"
  shows "w \<in> set (rp_PublicKey p # before @
      (if rp_AllowedIPs p = [] then ''(none)'' else Join (CHR '','') (rp_AllowedIPs p)) # after) \<Longrightarrow> word_ok w"
proof -
  have "word_ok (Join (CHR '','') (rp_AllowedIPs p))" if "rp_AllowedIPs p \<noteq> []"
  proof -
    have "list_all word_ok (rp_AllowedIPs p)" using assms by (auto simp: dump_ok_def list_all_iff)
    then have "Join (CHR '','') (rp_AllowedIPs p) \<noteq> []"
      using that hd_Join[of "rp_AllowedIPs p" "CHR '',''"] by (cases "rp_AllowedIPs p") (auto simp: word_ok_def)
    moreover have "\<not> isSpace x" if "x \<in> set (Join (CHR '','') (rp_AllowedIPs p))" for x
      using that set_Join_sub[of "CHR '',''" "rp_AllowedIPs p"] \<open>list_all word_ok (rp_AllowedIPs p)\<close>
      by (auto simp: list_all_iff word_ok_def isSpace_def)
    ultimately show ?thesis by (simp add: word_ok_def list_all_iff)
  qed
  moreover have "word_ok ''(none)''" by (simp add: word_ok_def isSpace_def)
  ultimately show "w \<in> set (rp_PublicKey p # before @
      (if rp_AllowedIPs p = [] then ''(none)'' else Join (CHR '','') (rp_AllowedIPs p)) # after) \<Longrightarrow> word_ok w"
    using assms by (auto simp: dump_ok_def list_all_iff split: if_splits)
qed

lemma dump_line_word:
  assumes "dump_ok (p, before, after)"
  shows "dump_line p (before, after) \<noteq> ''''" "\<not> isSpace (hd (dump_line p (before, after)))"
    "\<not> isSpace (last (dump_line p (before, after)))" "newline \<notin> set (dump_line p (before, after))"
proof -
  let ?fs = "rp_PublicKey p # before @
      (if rp_AllowedIPs p = [] then ''(none)'' else Join (CHR '','') (rp_AllowedIPs p)) # after"
  have line: "dump_line p (before, after) = Join tab ?fs" by (simp add: dump_line_def)
  have ok: "word_ok w" if "w \<in> set ?fs" for w using dump_fields_clean[OF assms that] .
  have hd: "word_ok (hd ?fs)" and lst: "word_ok (last ?fs)" using ok[of "hd ?fs"] ok[OF last_in_set] by simp_all
  show "dump_line p (before, after) \<noteq> ''''" "\<not> isSpace (hd (dump_line p (before, after)))"
    using hd hd_Join[of ?fs tab] unfolding line by (simp_all add: word_ok_def list_all_iff)
  show "\<not> isSpace (last (dump_line p (before, after)))"
    using lst last_Join[of ?fs tab] last_in_set[of "last ?fs"] unfolding line word_ok_def list_all_iff
    by (metis list.distinct(1))
  show "newline \<notin> set (dump_line p (before, after))"
  proof
    assume "newline \<in> set (dump_line p (before, after))"
    then obtain w where "w \<in> set ?fs" "newline \<in> set w"
      using set_Join_sub[of tab ?fs] isSpace_sep(3) unfolding line by blast
    with ok word_ok_sep show False by blast
  qed
qed

lemma parse_line_dump_line:
  assumes "dump_ok (p, before, after)"
  shows "parse_line (dump_line p (before, after)) = Some p"
proof -
  let ?al = "if rp_AllowedIPs p = [] then ''(none)'' else Join (CHR '','') (rp_AllowedIPs p)"
  have split: "Split tab (dump_line p (before, after)) = rp_PublicKey p # before @ ?al # after"
    unfolding dump_line_def fst_conv snd_conv
    by (rule Split_Join) (use dump_fields_clean[OF assms] word_ok_sep in auto)
  obtain b1 b2 where b: "before = [b1, b2]" using assms by (auto simp: dump_ok_def length_Suc_conv numeral_2_eq_2)
  have "parse_allowed ?al = rp_AllowedIPs p"
    using assms parse_allowed_Join[of "rp_AllowedIPs p"] by (auto simp: dump_ok_def parse_allowed_def)
  moreover have "TrimSpace (dump_line p (before, after)) \<noteq> ''''"
    using dump_line_word[OF assms] TrimSpace_id by metis
  ultimately show ?thesis unfolding parse_line_def split by (simp add: b)
qed

lemma parse_dump:
  assumes "line_ok ifline" "list_all dump_ok ps"
  shows "parseDump (dump ifline ps) = map fst ps"
proof -
  let ?lines = "map (\<lambda>(p, fs). dump_line p fs) ps"
  have ok: "dump_ok x" if "x \<in> set ps" for x using assms(2) that by (simp add: list_all_iff)
  have nl: "newline \<notin> set l" if "l \<in> set (ifline # ?lines)" for l
    using that dump_line_word(4) assms(1) ok by (force simp: line_ok_def)
  have "\<not> isSpace (last (last (ifline # ?lines))) \<and> last (ifline # ?lines) \<noteq> []"
  proof (cases ps rule: rev_cases)
    case Nil
    then show ?thesis using assms(1) by (simp add: line_ok_def)
  next
    case (snoc xs x)
    then show ?thesis using dump_line_word ok[of x] by (cases x) auto
  qed
  moreover have "\<not> isSpace (hd ifline)" "ifline \<noteq> []" using assms(1) by (simp_all add: line_ok_def)
  ultimately have "TrimSpace (dump ifline ps) = Join newline (ifline # ?lines)"
    using hd_Join[of "ifline # ?lines" newline] last_Join[of "ifline # ?lines" newline]
    unfolding dump_def by (intro TrimSpace_newline) (simp_all del: last.simps)
  moreover have "Split newline (Join newline (ifline # ?lines)) = ifline # ?lines"
    by (rule Split_Join) (use nl in auto)
  moreover have "List.map_filter parse_line (map (\<lambda>(p, fs). dump_line p fs) xs) = map fst xs" if "list_all dump_ok xs" for xs
    using that by (induction xs) (auto simp: List.map_filter_simps parse_line_dump_line)
  ultimately show ?thesis using assms(2) by (simp add: parseDump_def)
qed

text \<open>
  Reading back a dump gives the peers it was written from, in order, with
  their allowed IPs: none for \<open>(none)\<close>.
\<close>

theorem parseDump_dump:
  "line_ok ifline \<Longrightarrow> list_all dump_ok ps \<Longrightarrow> parseDump (dump ifline ps) = map fst ps"
  by (rule parse_dump)

theorem parseDump_dump_witness:
  "parseDump (dump (Join tab [''priv'', ''pub'', ''51820'', ''off''])
     [(\<lparr>rp_PublicKey = ''k1'', rp_AllowedIPs = [''10.7.0.2/32'', ''fd07::2/128'']\<rparr>, [''(none)'', ''ep''], [''0'', ''0'']),
      (\<lparr>rp_PublicKey = ''k2'', rp_AllowedIPs = []\<rparr>, [''(none)'', ''(none)''], [''0''])]) =
   [\<lparr>rp_PublicKey = ''k1'', rp_AllowedIPs = [''10.7.0.2/32'', ''fd07::2/128'']\<rparr>,
    \<lparr>rp_PublicKey = ''k2'', rp_AllowedIPs = []\<rparr>]"
  by (subst parseDump_dump) (simp_all add: line_ok_def word_ok_def dump_ok_def isSpace_def newline_def tab_def)

end
