(* ===== verification/Sysload.thy ===== *)
theory Sysload
  imports Model Go_Strings
begin

text \<open>
  \<^verbatim>\<open>agent/internal/sysload/sysload.go\<close>: CPU and network load as differences of counters. Counters
  are 64-bit unsigned (naturals below \<open>2 ^ 64\<close>, sums taken modulo it); the readings of
  \<open>/proc\<close> and \<open>/sys\<close> are arguments, \<open>None\<close> when a read fails.
\<close>

section \<open>The code\<close>

record sample =
  s_CPUPct :: rat
  s_RxBps :: int
  s_TxBps :: int

record cpuSample =
  cpu_total :: nat
  cpu_idle :: nat

record netSample =
  net_rx :: nat
  net_tx :: nat
  net_at :: instant

record meter =
  prevCPU :: cpuSample
  prevNet :: netSample
  hasCPU :: bool
  hasNet :: bool

definition new_meter :: meter where
  "new_meter = \<lparr>prevCPU = \<lparr>cpu_total = 0, cpu_idle = 0\<rparr>, prevNet = \<lparr>net_rx = 0, net_tx = 0, net_at = 0\<rparr>,
                hasCPU = False, hasNet = False\<rparr>"

text \<open>The loop over the fields after \<open>cpu\<close>: \<open>i\<close> is the field's index.\<close>

fun stat_fields :: "nat \<Rightarrow> string list \<Rightarrow> nat \<Rightarrow> nat \<Rightarrow> nat \<times> nat" where
  "stat_fields i [] tot idle = (tot, idle)"
| "stat_fields i (v # vs) tot idle =
     (case ParseUint v of
        None \<Rightarrow> stat_fields (Suc i) vs tot idle
      | Some n \<Rightarrow>
          stat_fields (Suc i) vs ((tot + n) mod 2 ^ 64)
            (if i = 3 \<or> i = 4 then (idle + n) mod 2 ^ 64 else idle))"

fun stat_lines :: "string list \<Rightarrow> nat \<times> nat" where
  "stat_lines [] = (0, 0)"
| "stat_lines (line # rest) =
     (let f = Fields line
      in if length f < 5 \<or> f ! 0 \<noteq> ''cpu'' then stat_lines rest else stat_fields 0 (tl f) 0 0)"

definition parseProcStat :: "string \<Rightarrow> nat \<times> nat" where
  "parseProcStat content = stat_lines (Split (CHR 0x0A) content)"

text \<open>
  The conversion \<open>int64(x)\<close> of a float: truncation towards zero; outside the range of the type the
  language leaves the result open, and the compiler for amd64 gives the least value.
\<close>

definition to_int64 :: "rat \<Rightarrow> int" where
  "to_int64 x = (if int64_range (f64_trunc x) then f64_trunc x else - (2 ^ 63))"

definition cpu_pct :: "meter \<Rightarrow> nat \<Rightarrow> nat \<Rightarrow> rat" where
  "cpu_pct m tot idle =
     (if hasCPU m then
        let dt = wrap64 (wrap64 (int tot) - wrap64 (int (cpu_total (prevCPU m))));
            di = wrap64 (wrap64 (int idle) - wrap64 (int (cpu_idle (prevCPU m))))
        in if 0 < dt then f64_mul (f64_div (f64_of_int (wrap64 (dt - di))) (f64_of_int dt)) 100 else 0
      else 0)"

definition rate_bps :: "nat \<Rightarrow> nat \<Rightarrow> rat \<Rightarrow> int" where
  "rate_bps now_bytes prev_bytes dt =
     (if prev_bytes \<le> now_bytes then to_int64 (f64_div (f64_mul (f64_of_int (int (now_bytes - prev_bytes))) 8) dt)
      else 0)"

definition Sample :: "instant \<Rightarrow> string option \<Rightarrow> (nat \<times> nat) option \<Rightarrow> meter \<Rightarrow> sample \<times> meter" where
  "Sample now procStat netBytes m =
     (let (cpu, m1) =
            (case procStat of
               None \<Rightarrow> (0, m)
             | Some content \<Rightarrow>
                 (case parseProcStat content of (tot, idle) \<Rightarrow>
                    if 0 < tot then
                      (cpu_pct m tot idle, m\<lparr>prevCPU := \<lparr>cpu_total = tot, cpu_idle = idle\<rparr>, hasCPU := True\<rparr>)
                    else (0, m)));
          (rxBps, txBps, m2) =
            (case netBytes of
               None \<Rightarrow> (0, 0, m1)
             | Some (rx, tx) \<Rightarrow>
                 (let dt = Seconds (time_Sub now (net_at (prevNet m1)));
                      (r, t) = (if hasNet m1 \<and> 0 < dt
                                then (rate_bps rx (net_rx (prevNet m1)) dt, rate_bps tx (net_tx (prevNet m1)) dt)
                                else (0, 0))
                  in (r, t, m1\<lparr>prevNet := \<lparr>net_rx = rx, net_tx = tx, net_at = now\<rparr>, hasNet := True\<rparr>)))
      in (\<lparr>s_CPUPct = cpu, s_RxBps = rxBps, s_TxBps = txBps\<rparr>, m2))"

text \<open>\<open>readUint\<close> and \<open>defaultReadNetBytes\<close> on the contents of the two counter files.\<close>

definition readUint :: "string option \<Rightarrow> nat option" where
  "readUint file = Option.bind file (\<lambda>b. ParseUint (TrimSpace b))"

definition read_net_bytes :: "string option \<Rightarrow> string option \<Rightarrow> (nat \<times> nat) option" where
  "read_net_bytes rx_file tx_file =
     (case readUint rx_file of
        None \<Rightarrow> None
      | Some rx \<Rightarrow> (case readUint tx_file of None \<Rightarrow> None | Some tx \<Rightarrow> Some (rx, tx)))"


section \<open>Reading the statistics\<close>

lemma ParseUint_utoa: "n < 2 ^ 64 \<Longrightarrow> ParseUint (utoa n) = Some n"
  using utoa_digits by (simp add: ParseUint_def)

lemma stat_fields_utoa:
  "\<forall>n\<in>set ns. n < 2 ^ 64 \<Longrightarrow>
   stat_fields i (map utoa ns) tot idle =
     (if ns = [] then (tot, idle)
      else stat_fields (Suc i) (map utoa (tl ns)) ((tot + hd ns) mod 2 ^ 64)
             (if i = 3 \<or> i = 4 then (idle + hd ns) mod 2 ^ 64 else idle))"
  by (cases ns) (simp_all add: ParseUint_utoa)

lemma stat_fields_total:
  "\<forall>n\<in>set ns. n < 2 ^ 64 \<Longrightarrow> tot < 2 ^ 64 \<Longrightarrow>
   fst (stat_fields i (map utoa ns) tot idle) = (tot + sum_list ns) mod 2 ^ 64"
proof (induction ns arbitrary: i tot idle)
  case (Cons n ns)
  let ?t = "(tot + n) mod 2 ^ 64" and ?i = "if i = 3 \<or> i = 4 then (idle + n) mod 2 ^ 64 else idle"
  have "fst (stat_fields i (map utoa (n # ns)) tot idle) = fst (stat_fields (Suc i) (map utoa ns) ?t ?i)"
    using stat_fields_utoa[of "n # ns" i tot idle] Cons.prems by simp
  also have "\<dots> = (?t + sum_list ns) mod 2 ^ 64" using Cons.prems by (intro Cons.IH) simp_all
  finally show ?case by (simp add: mod_simps add.assoc)
qed simp

lemma stat_fields_idle: "5 \<le> i \<Longrightarrow> snd (stat_fields i vs tot idle) = idle"
  by (induction i vs tot idle rule: stat_fields.induct) (auto split: option.splits)

lemma Fields_word:
  "w \<noteq> [] \<Longrightarrow> list_all (\<lambda>x. \<not> isSpace x) w \<Longrightarrow> rest = [] \<or> isSpace (hd rest) \<Longrightarrow> Fields (w @ rest) = w # Fields rest"
proof -
  assume w: "w \<noteq> []" "list_all (\<lambda>x. \<not> isSpace x) w" and r: "rest = [] \<or> isSpace (hd rest)"
  then obtain x xs where x: "w = x # xs" "\<not> isSpace x" "\<forall>y\<in>set xs. \<not> isSpace y"
    by (cases w) (auto simp: list_all_iff)
  have "takeWhile (\<lambda>y. \<not> isSpace y) (xs @ rest) = xs" "dropWhile (\<lambda>y. \<not> isSpace y) (xs @ rest) = rest"
    using x(3) r by (cases rest; simp add: takeWhile_append2 dropWhile_append2 takeWhile_eq_all_conv dropWhile_eq_Nil_conv)+
  then show ?thesis using x(1,2) by simp
qed

lemma Fields_Join:
  "\<forall>w\<in>set ws. w \<noteq> [] \<and> list_all (\<lambda>x. \<not> isSpace x) w \<Longrightarrow> Fields (Join (CHR '' '') ws) = ws"
proof (induction "CHR '' ''" ws rule: Join.induct)
  case (2 w)
  then show ?case using Fields_word[of w "[]"] by simp
next
  case (3 w v vs)
  have "Fields (w @ CHR '' '' # Join (CHR '' '') (v # vs)) = w # Fields (CHR '' '' # Join (CHR '' '') (v # vs))"
    using 3(2) by (intro Fields_word) (auto simp: isSpace_def)
  also have "\<dots> = w # v # vs" using 3 by (simp add: isSpace_def)
  finally show ?case by simp
qed simp

lemma utoa_word: "utoa n \<noteq> [] \<and> list_all (\<lambda>x. \<not> isSpace x) (utoa n)"
  using utoa_digits[of n] by (auto simp: list_all_iff isDigit_def isSpace_def)

lemma newline_not_in_cpu_line: "CHR 0x0A \<notin> set (''cpu  '' @ Join (CHR '' '') (map utoa ns))"
proof -
  have "set (Join c ws) \<subseteq> insert c (\<Union>w\<in>set ws. set w)" for c ws
    by (induction c ws rule: Join.induct) auto
  moreover have "CHR 0x0A \<notin> set (utoa n)" for n
    using utoa_digits[of n] by (auto simp: list_all_iff isDigit_def)
  ultimately show ?thesis by fastforce
qed

lemma parse_cpu_line:
  assumes "\<forall>n\<in>set (user # nice # system # idle # others). n < 2 ^ 64"
  shows "parseProcStat (''cpu  '' @ Join (CHR '' '') (map utoa (user # nice # system # idle # others)) @ CHR 0x0A # rest) =
     ((user + nice + system + idle + sum_list others) mod 2 ^ 64,
      (idle + (case others of [] \<Rightarrow> 0 | iowait # _ \<Rightarrow> iowait)) mod 2 ^ 64)"
proof -
  let ?ns = "user # nice # system # idle # others"
  let ?line = "''cpu  '' @ Join (CHR '' '') (map utoa ?ns)"
  have "Split (CHR 0x0A) (?line @ CHR 0x0A # rest) = ?line # Split (CHR 0x0A) rest"
    by (rule Split_append_sep[OF newline_not_in_cpu_line])
  moreover have "Fields ?line = ''cpu'' # map utoa ?ns"
  proof -
    have "Fields (''cpu'' @ ''  '' @ Join (CHR '' '') (map utoa ?ns)) = ''cpu'' # Fields (''  '' @ Join (CHR '' '') (map utoa ?ns))"
      by (rule Fields_word) (auto simp: isSpace_def)
    also have "Fields (''  '' @ Join (CHR '' '') (map utoa ?ns)) = map utoa ?ns"
      using Fields_Join[of "map utoa ?ns"] utoa_word by (simp add: isSpace_def del: Join.simps)
    finally show ?thesis by simp
  qed
  ultimately have parse: "parseProcStat (?line @ CHR 0x0A # rest) = stat_fields 0 (map utoa ?ns) 0 0"
    by (simp add: parseProcStat_def Let_def del: Join.simps)
  have "fst (stat_fields 0 (map utoa ?ns) 0 0) = sum_list ?ns mod 2 ^ 64"
    using stat_fields_total[OF assms, of 0 0 0] by simp
  moreover have "snd (stat_fields 0 (map utoa ?ns) 0 0) =
      (idle + (case others of [] \<Rightarrow> 0 | iowait # _ \<Rightarrow> iowait)) mod 2 ^ 64"
    using assms by (cases others) (simp_all add: ParseUint_utoa stat_fields_idle mod_simps)
  ultimately show ?thesis using parse by (simp add: prod_eq_iff add.assoc del: stat_fields.simps)
qed

text \<open>
  On the kernel's aggregate line (\<open>cpu\<close>, two spaces, then the counters) the
  parser returns the sum of all counters and the sum of idle and iowait, modulo \<open>2 ^ 64\<close>,
  whatever follows the line.
\<close>

theorem parseProcStat_roundtrip:
  assumes "\<forall>n\<in>set (user # nice # system # idle # others). n < 2 ^ 64"
  shows "parseProcStat (''cpu  '' @ Join (CHR '' '') (map utoa (user # nice # system # idle # others)) @ CHR 0x0A # rest) =
     ((user + nice + system + idle + sum_list others) mod 2 ^ 64,
      (idle + (case others of [] \<Rightarrow> 0 | iowait # _ \<Rightarrow> iowait)) mod 2 ^ 64)"
  using assms by (rule parse_cpu_line)

theorem parseProcStat_roundtrip_witness:
  "parseProcStat (''cpu  '' @ Join (CHR '' '') (map utoa [4, 1, 2, 3, 5, 7]) @ CHR 0x0A # ''cpu0 1 2 3 4'') = (22, 8)"
  by (subst parseProcStat_roundtrip) simp_all


section \<open>The sample\<close>

lemma wrap64_int: "n < 2 ^ 63 \<Longrightarrow> wrap64 (int n) = int n"
  by (rule wrap64_id) (simp add: int64_range_def)

lemma cpu_pct_range:
  assumes "tot < 2 ^ 63" "idle < 2 ^ 63" "cpu_total (prevCPU m) \<le> tot" "cpu_idle (prevCPU m) \<le> idle"
    and "idle - cpu_idle (prevCPU m) \<le> tot - cpu_total (prevCPU m)"
  shows "0 \<le> cpu_pct m tot idle \<and> cpu_pct m tot idle \<le> 100"
proof -
  define dt di where "dt = int tot - int (cpu_total (prevCPU m))" and "di = int idle - int (cpu_idle (prevCPU m))"
  have bounds: "0 \<le> di" "di \<le> dt" "dt < 2 ^ 63" using assms by (auto simp: dt_def di_def)
  have w: "wrap64 (wrap64 (int tot) - wrap64 (int (cpu_total (prevCPU m)))) = dt"
    "wrap64 (wrap64 (int idle) - wrap64 (int (cpu_idle (prevCPU m)))) = di"
    "wrap64 (dt - di) = dt - di"
    using assms bounds by (simp_all add: wrap64_int dt_def di_def int64_range_def)
  have "0 \<le> f64 (f64 (f64 (of_int (dt - di)) / f64 (of_int dt)) * 100) \<and>
        f64 (f64 (f64 (of_int (dt - di)) / f64 (of_int dt)) * 100) \<le> 100" if "0 < dt"
  proof -
    have pos: "0 < f64 (of_int dt)" using f64r.rnd_pos_int[OF that] .
    have "0 \<le> f64 (of_int (dt - di))" "f64 (of_int (dt - di)) \<le> f64 (of_int dt)"
      using bounds by (auto intro!: f64r.rnd_nonneg f64_mono)
    then have q: "0 \<le> f64 (f64 (of_int (dt - di)) / f64 (of_int dt))" "f64 (f64 (of_int (dt - di)) / f64 (of_int dt)) \<le> 1"
      using pos by (auto intro!: f64r.rnd_nonneg f64r.rnd_le_1)
    then have "f64 (f64 (f64 (of_int (dt - di)) / f64 (of_int dt)) * 100) \<le> f64 (of_int 100)"
      by (intro f64_mono) simp
    with q show ?thesis using f64_small_int[of 100] by (auto intro!: f64r.rnd_nonneg)
  qed
  then show ?thesis
    by (simp add: cpu_pct_def w f64_mul_def f64_div_def f64_of_int_def)
qed

lemma rate_bps_range:
  assumes "1 \<le> dt" "int now_bytes - int prev_bytes \<le> 2 ^ 53"
  shows "0 \<le> rate_bps now_bytes prev_bytes dt \<and> rate_bps now_bytes prev_bytes dt \<le> 2 ^ 56"
proof (cases "prev_bytes \<le> now_bytes")
  case True
  define d where "d = int (now_bytes - prev_bytes)"
  have d: "0 \<le> d" "d \<le> 2 ^ 53" using assms True by (auto simp: d_def)
  define x where "x = f64 (f64 (f64 (of_int d) * 8) / dt)"
  have f: "f64 (of_int d) = of_int d" using d by (intro f64_small_int) simp
  have num: "0 \<le> f64 (of_int d * 8)" "f64 (of_int d * 8) \<le> 2 ^ 56"
  proof -
    have "of_int d * 8 \<le> (of_int (2 ^ 56) :: rat)" using d by (simp add: of_int_power[symmetric] del: of_int_power) 
    then have "f64 (of_int d * 8) \<le> f64 (of_int (2 ^ 56))" by (rule f64_mono)
    also have "f64 (of_int (2 ^ 56)) = 2 ^ 56" by code_simp
    finally show "f64 (of_int d * 8) \<le> 2 ^ 56" .
    show "0 \<le> f64 (of_int d * 8)" using d by (intro f64r.rnd_nonneg) simp
  qed
  have "f64 (of_int d * 8) / dt \<le> f64 (of_int d * 8)" using num(1) assms(1)
    by (simp add: divide_le_eq mult_left_le_one_le order.trans[OF _ mult_left_mono[of 1 dt]])
  then have "f64 (of_int d * 8) / dt \<le> 2 ^ 56" using num(2) by linarith
  then have "x \<le> f64 (2 ^ 56)" unfolding x_def f by (rule f64_mono)
  moreover have "f64 (2 ^ 56) = 2 ^ 56" by code_simp
  moreover have "0 \<le> x" unfolding x_def f using num(1) assms(1) by (intro f64r.rnd_nonneg) simp
  ultimately have "0 \<le> f64_trunc x" "f64_trunc x \<le> 2 ^ 56"
    by (auto simp: f64_trunc_def floor_le_iff)
  then show ?thesis using True
    by (simp add: rate_bps_def to_int64_def int64_range_def f64_mul_def f64_div_def f64_of_int_def d_def[symmetric] x_def[symmetric])
qed (simp add: rate_bps_def)


text \<open>
  The first sample is a baseline: it reports zero load, and remembers the counters it saw.
\<close>

lemma Sample_baseline:
  "fst (Sample now procStat netBytes new_meter) = \<lparr>s_CPUPct = 0, s_RxBps = 0, s_TxBps = 0\<rparr> \<and>
   (netBytes = Some (rx, tx) \<longrightarrow>
      prevNet (snd (Sample now procStat netBytes new_meter)) = \<lparr>net_rx = rx, net_tx = tx, net_at = now\<rparr> \<and>
      hasNet (snd (Sample now procStat netBytes new_meter)))"
  by (auto simp: Sample_def new_meter_def cpu_pct_def Let_def split: option.splits prod.splits)

definition sample_meter :: meter where
  "sample_meter = \<lparr>prevCPU = \<lparr>cpu_total = 10, cpu_idle = 4\<rparr>, prevNet = \<lparr>net_rx = 100, net_tx = 900, net_at = 0\<rparr>,
                  hasCPU = True, hasNet = True\<rparr>"

definition cpu_line :: "nat list \<Rightarrow> string" where
  "cpu_line ns = ''cpu  '' @ Join (CHR '' '') (map utoa ns) @ CHR 0x0A # []"

lemma parse_sample_lines:
  "parseProcStat (cpu_line [4, 2, 2, 3, 5, 6]) = (22, 8)" "parseProcStat (cpu_line [6, 2, 2, 3, 0, 9]) = (22, 3)"
  unfolding cpu_line_def by (subst parse_cpu_line; simp)+


lemma Sample_baseline_witness:
  "hasNet (snd (Sample 5 None (Some (1, 2)) new_meter))"
  using Sample_baseline[of 5 None "Some (1, 2)" 1 2] by simp

text \<open>
  The percentage is not clamped: the kernel documents that iowait may decrease, and a
  decrease of the idle counter between two samples is reported as a load above 100.
\<close>

theorem Sample_cpu_over_100:
  "\<exists>content. parseProcStat content = (22, 3) \<and>
     100 < s_CPUPct (fst (Sample 2000000000 (Some content) None sample_meter))"
proof -
  have "100 < cpu_pct sample_meter 22 3" by code_simp
  then have "100 < s_CPUPct (fst (Sample 2000000000 (Some (cpu_line [6, 2, 2, 3, 0, 9])) None sample_meter))"
    by (simp add: Sample_def parse_sample_lines)
  then show ?thesis using parse_sample_lines(2) by blast
qed

end
