(* ===== verification/Agent.thy ===== *)
theory Agent
  imports Cp Wg Sysload Config
begin

text \<open>
  The gateway agent: \<^verbatim>\<open>agent/cmd/aevora-agent/main.go\<close> and the address computation of
  \<^verbatim>\<open>agent/internal/probe/probe.go\<close>. What the agent calls outside the repository is the record
  \<open>agent_os\<close> of actions on the world: the token file, the \<open>wg\<close> tool, the network, the
  readings of the load meter.
\<close>

section \<open>The probe address (\<^verbatim>\<open>probe.go\<close>)\<close>

datatype probe_error = BadSubnet | NotIPv4

definition InsideIP :: "string \<Rightarrow> probe_error + string" where
  "InsideIP cidr =
     (case ParseCIDR cidr of
        None \<Rightarrow> Inl BadSubnet
      | Some n \<Rightarrow>
          (case To4 (n_IP n) of
             None \<Rightarrow> Inl NotIPv4
           | Some ip \<Rightarrow> Inr (IP_String [ip ! 0, ip ! 1, ip ! 2, 1])))"


section \<open>Configuration (\<^verbatim>\<open>main.go\<close>)\<close>

record agent_config =
  ac_controlURL :: string
  ac_iface :: string
  ac_wanIface :: string
  ac_tokenFile :: string
  ac_enrollmentSecret :: string
  ac_syncInterval :: duration
  ac_probePort :: int
  ac_reg :: Registration

text \<open>\<open>os.Getenv\<close>: a variable that is not set is empty.\<close>

definition Getenv :: "environ \<Rightarrow> string \<Rightarrow> string" where
  "Getenv os k = (case os k of None \<Rightarrow> '''' | Some v \<Rightarrow> v)"

definition agent_getenv :: "environ \<Rightarrow> string \<Rightarrow> string \<Rightarrow> string" where
  "agent_getenv os k d = (let v = Getenv os k in if v \<noteq> '''' then v else d)"

definition agent_getint :: "environ \<Rightarrow> string \<Rightarrow> int \<Rightarrow> int" where
  "agent_getint os k d =
     (let v = Getenv os k in if v \<noteq> '''' then (case Atoi v of Some n \<Rightarrow> n | None \<Rightarrow> d) else d)"

definition agent_getdur :: "environ \<Rightarrow> string \<Rightarrow> duration \<Rightarrow> duration" where
  "agent_getdur os k d =
     (let v = Getenv os k in if v \<noteq> '''' then (case ParseDuration v of Some x \<Rightarrow> x | None \<Rightarrow> d) else d)"

definition loadConfig :: "environ \<Rightarrow> agent_config" where
  "loadConfig os = \<lparr>
     ac_controlURL = agent_getenv os ''AEVORA_CONTROL_URL'' ''http://127.0.0.1:8080'',
     ac_iface = agent_getenv os ''AEVORA_WG_INTERFACE'' ''wg0'',
     ac_wanIface = agent_getenv os ''AEVORA_WAN_INTERFACE'' ''eth0'',
     ac_tokenFile = agent_getenv os ''AEVORA_NODE_TOKEN_FILE'' ''/etc/aevora/node.token'',
     ac_enrollmentSecret = Getenv os ''AEVORA_ENROLLMENT_SECRET'',
     ac_syncInterval = agent_getdur os ''AEVORA_SYNC_INTERVAL'' (3 * second),
     ac_probePort = agent_getint os ''AEVORA_PROBE_PORT'' 51821,
     ac_reg = \<lparr>
       cr_Name = Getenv os ''AEVORA_GATEWAY_NAME'',
       cr_CountryCode = Getenv os ''AEVORA_COUNTRY_CODE'',
       cr_CountryName = Getenv os ''AEVORA_COUNTRY_NAME'',
       cr_City = Getenv os ''AEVORA_CITY'',
       cr_Region = Getenv os ''AEVORA_REGION'',
       cr_EndpointHost = Getenv os ''AEVORA_ENDPOINT_HOST'',
       cr_EndpointPort = agent_getint os ''AEVORA_ENDPOINT_PORT'' 51820,
       cr_PublicKey = '''',
       cr_WGSubnetV4 = Getenv os ''AEVORA_WG_SUBNET_V4'',
       cr_WGSubnetV6 = Getenv os ''AEVORA_WG_SUBNET_V6'',
       cr_Capacity = agent_getint os ''AEVORA_CAPACITY'' 250,
       cr_BandwidthMbps = agent_getint os ''AEVORA_BANDWIDTH_MBPS'' 0,
       cr_Latitude = None, cr_Longitude = None\<rparr>\<rparr>"


section \<open>The agent's operations\<close>

text \<open>
  The readings are the clock, the text of \<^verbatim>\<open>/proc/stat\<close> and the byte counters of the WAN
  interface, as far as they could be read.
\<close>

record 'w agent_os =
  ao_ReadFile :: "string \<Rightarrow> 'w \<Rightarrow> string option"
  ao_WriteFile :: "string \<Rightarrow> string \<Rightarrow> 'w \<Rightarrow> bool \<times> 'w"
  ao_wg :: "('w, agent_error) wg_run"
  ao_http :: "'w http_do"
  ao_readings :: "string \<Rightarrow> 'w \<Rightarrow> instant \<times> string option \<times> (nat \<times> nat) option"

text \<open>A saved token that is not blank is used as it is; a token that cannot be saved is still used.\<close>

definition saved_token :: "'w agent_os \<Rightarrow> agent_config \<Rightarrow> 'w \<Rightarrow> string option" where
  "saved_token os cfg w =
     (case ao_ReadFile os (ac_tokenFile cfg) w of
        None \<Rightarrow> None
      | Some b \<Rightarrow> let tok = TrimSpace b in if tok \<noteq> '''' then Some tok else None)"

definition ensureRegistered :: "'w agent_os \<Rightarrow> agent_config \<Rightarrow> client \<Rightarrow> ('w, agent_error, string) act" where
  "ensureRegistered os cfg c w =
     (case saved_token os cfg w of
        Some tok \<Rightarrow> (Inr tok, w)
      | None \<Rightarrow>
          andThen (PublicKey (ao_wg os) (ac_iface cfg)) (\<lambda>pub.
          andThen (cp_Register (ao_http os) c (ac_enrollmentSecret cfg) ((ac_reg cfg)\<lparr>cr_PublicKey := pub\<rparr>)) (\<lambda>token w1.
            (Inr token, snd (ao_WriteFile os (ac_tokenFile cfg) token w1)))) w)"

text \<open>The state of the running agent: the world and the load meter.\<close>

definition on_world :: "('w, 'e, 'a) act \<Rightarrow> ('w \<times> meter, 'e, 'a) act" where
  "on_world m = (\<lambda>(w, mt). case m w of (r, w') \<Rightarrow> (r, (w', mt)))"

definition sample_load :: "'w agent_os \<Rightarrow> string \<Rightarrow> ('w \<times> meter, 'e, sample) act" where
  "sample_load os wan = (\<lambda>(w, mt).
     case ao_readings os wan w of (now, stat, net) \<Rightarrow>
       (case Sample now stat net mt of (load, mt') \<Rightarrow> (Inr load, (w, mt'))))"

definition syncOnce :: "'w agent_os \<Rightarrow> agent_config \<Rightarrow> client \<Rightarrow> string \<Rightarrow> ('w \<times> meter, agent_error, unit) act" where
  "syncOnce os cfg c token =
     andThen (on_world (ListPeers (ao_wg os) (ac_iface cfg))) (\<lambda>current.
     andThen (sample_load os (ac_wanIface cfg)) (\<lambda>load.
     andThen (on_world (cp_Heartbeat (ao_http os) c token
       \<lparr>cm_ActivePeers = int (length current), cm_CPUPct = s_CPUPct load, cm_RxBps = s_RxBps load, cm_TxBps = s_TxBps load\<rparr>)) (\<lambda>_.
     andThen (on_world (cp_Peers (ao_http os) c token)) (\<lambda>desired.
       let plan = Diff current desired
       in if Empty plan then ret () else on_world (Apply (ao_wg os) (ac_iface cfg) plan)))))"

text \<open>
  The loop, over the events the two channels deliver: a tick synchronises (an error is only
  logged), a signal deregisters and ends.
\<close>

datatype agent_event = Tick | Stop

fun agent_loop :: "'w agent_os \<Rightarrow> agent_config \<Rightarrow> client \<Rightarrow> string \<Rightarrow> agent_event list \<Rightarrow> 'w \<times> meter \<Rightarrow> 'w \<times> meter" where
  "agent_loop os cfg c token [] s = s"
| "agent_loop os cfg c token (Tick # es) s = agent_loop os cfg c token es (snd (syncOnce os cfg c token s))"
| "agent_loop os cfg c token (Stop # es) s = snd (on_world (cp_Deregister (ao_http os) c token) s)"

text \<open>\<open>run\<close>: \<open>time.NewTicker\<close> panics on an interval that is not positive.\<close>

definition agent_run :: "'w agent_os \<Rightarrow> agent_config \<Rightarrow> agent_event list \<Rightarrow> 'w \<Rightarrow> agent_error option \<times> 'w" where
  "agent_run os cfg es w =
     (let c = new_client (ac_controlURL cfg)
      in case ensureRegistered os cfg c w of
           (Inl err, w1) \<Rightarrow> (Some err, w1)
         | (Inr token, w1) \<Rightarrow>
             if ac_syncInterval cfg \<le> 0 then (Some TickerPanic, w1)
             else (None, fst (agent_loop os cfg c token es (w1, new_meter))))"

definition probe_addr :: "agent_config \<Rightarrow> string option" where
  "probe_addr cfg =
     (case InsideIP (cr_WGSubnetV4 (ac_reg cfg)) of
        Inr inside \<Rightarrow> Some (JoinHostPort inside (Itoa (ac_probePort cfg)))
      | Inl _ \<Rightarrow> None)"


section \<open>Where to measure the latency\<close>

lemma Uint32_PutUint32_eq:
  assumes "length b = 4" "Uint32 b = Some w" shows "b = PutUint32 w"
proof -
  obtain x y z v where b: "b = [x, y, z, v]"
    using assms(1) by (auto simp: numeral_eq_Suc length_Suc_conv)
  note bw = bit_Uint32[OF assms(2)[unfolded b]]
  show ?thesis unfolding b PutUint32_def
    by (auto intro!: bit_word_eqI simp: bw bit_simps)
qed

lemma length_To4: "To4 ip = Some b \<Longrightarrow> length b = 4"
  by (auto simp: To4_def split: if_splits)

lemma PutUint32_prefix:
  assumes "drop_bit k (v :: u32) = drop_bit k w" "k \<le> 8"
  shows "PutUint32 v ! 0 = PutUint32 w ! 0" "PutUint32 v ! 1 = PutUint32 w ! 1" "PutUint32 v ! 2 = PutUint32 w ! 2"
proof -
  have "drop_bit n v = drop_bit n w" if "8 \<le> n" for n
  proof -
    have "drop_bit (n - k) (drop_bit k v) = drop_bit (n - k) (drop_bit k w)" using assms(1) by simp
    then show ?thesis using that assms(2) by (simp add: drop_bit_drop_bit)
  qed
  then show "PutUint32 v ! 0 = PutUint32 w ! 0" "PutUint32 v ! 1 = PutUint32 w ! 1" "PutUint32 v ! 2 = PutUint32 w ! 2"
    by (simp_all add: PutUint32_def)
qed

lemma print4_special: "x \<in> set (IP_String (PutUint32 w)) \<Longrightarrow> x \<notin> {CHR ''/'', CHR '',''}"
  by (auto simp: IP_String_4 print4_def PutUint32_def dest: utoa_special)



definition sample_agent_cfg :: agent_config where
  "sample_agent_cfg = \<lparr>ac_controlURL = ''http://cp/'', ac_iface = ''wg0'', ac_wanIface = ''eth0'', ac_tokenFile = ''token'',
     ac_enrollmentSecret = ''es'', ac_syncInterval = 3 * second, ac_probePort = 51821, ac_reg = sample_reg\<rparr>"


text \<open>In a larger subnet they differ: the third byte of the client's address is not the gateway's.\<close>

lemma probe_addresses_differ:
  "InsideIP ''10.7.0.0/16'' = Inr ''10.7.0.1'' \<and> gatewayProbeAddr ''10.7.1.2'' port = JoinHostPort ''10.7.1.1'' (Itoa port)"
proof -
  have "IP_String (PutUint32 0x0A070102) = ''10.7.1.2''" "PutUint32 0x0A070102 = [10, 7, 1, 2]" by code_simp+
  then have "Option.bind (ParseIP ''10.7.1.2'') To4 = Some [10, 7, 1, 2]" using ParseIP_IP_String_v4[of "0x0A070102"] by simp
  moreover have "IP_String [10, 7, 1, 1] = ''10.7.1.1''" by code_simp
  ultimately have "gatewayProbeAddr ''10.7.1.2'' port = JoinHostPort ''10.7.1.1'' (Itoa port)" by (simp add: gatewayProbeAddr_def)
  moreover have "InsideIP ''10.7.0.0/16'' = Inr ''10.7.0.1''" by code_simp
  ultimately show ?thesis by simp
qed


section \<open>Starting again\<close>

text \<open>
  A start that finds a saved token sends no registration, whatever has become of the token; in
  particular after a clean shutdown, which disables the gateway and leaves the file in place.
\<close>

lemma ensureRegistered_reuses_token:
  assumes "ao_ReadFile os (ac_tokenFile cfg) w = Some text" "TrimSpace text \<noteq> ''''"
  shows "ensureRegistered os cfg c w = (Inr (TrimSpace text), w)"
  using assms by (simp add: ensureRegistered_def saved_token_def Let_def)

text \<open>An interval that is not positive stops the agent after it has registered.\<close>

lemma agent_run_bad_interval:
  assumes "ac_syncInterval cfg \<le> 0" "ensureRegistered os cfg (new_client (ac_controlURL cfg)) w = (Inr token, w1)"
  shows "agent_run os cfg es w = (Some TickerPanic, w1)"
  using assms by (simp add: agent_run_def)

end
