(* ===== verification/System.thy ===== *)
theory System
  imports Api Config
begin

text \<open>
  The control plane as a whole: requests and reaper ticks in any order, each with its own
  behaviour of the database server. What the store's operations keep, every handler keeps, and so
  does every run of the program.
\<close>

section \<open>Handlers keep what the store keeps\<close>

named_theorems handler_intros "introduction rules for properties of the database kept by handlers"

definition handler_keeps :: "(db \<Rightarrow> bool) \<Rightarrow> (db \<Rightarrow> result) \<Rightarrow> bool" where
  "handler_keeps I h \<longleftrightarrow> (\<forall>s. I s \<longrightarrow> I (snd (snd (h s))))"

lemma handler_keeps_reply [handler_intros]: "handler_keeps I (reply r)"
  by (simp add: handler_keeps_def reply_def)

lemma handler_keeps_metric [handler_intros]:
  "handler_keeps I h \<Longrightarrow> handler_keeps I (count_metric x h)"
  by (auto simp: handler_keeps_def count_metric_def split: prod.splits)

lemma handler_keeps_call [handler_intros]:
  assumes "keeps I m" "\<And>r. handler_keeps I (k r)"
  shows "handler_keeps I (call m k)"
  unfolding handler_keeps_def call_def
proof (intro allI impI)
  fix s assume s: "I s"
  obtain r t where m: "m s = (r, t)" by fastforce
  have "I t" using keepsD[OF assms(1) s] m by simp
  then have "I (snd (snd (k r t)))" "I (snd (snd (reply recovered t)))"
    using assms(2) by (auto simp: handler_keeps_def reply_def)
  then show "I (snd (snd (case m s of (Inl Panic, t) \<Rightarrow> reply recovered t | (r, t) \<Rightarrow> k r t)))"
    by (auto simp: m split: sum.split store_error.split)
qed

lemma handler_keeps_user [handler_intros]:
  assumes "\<And>u. handler_keeps I (k u)" shows "handler_keeps I (with_user e cfg rq k)"
  using assms by (auto simp: handler_keeps_def with_user_def reply_def split: sum.split)

lemma keeps_GatewayPeers: "keeps I (GatewayPeers e h)"
  unfolding GatewayPeers_def by (auto intro!: keeps_intros split: list.split)

text \<open>The two operations that do more than the statements promise: the connect and the registration.\<close>

locale store_contract = statements +
  assumes connect_kept: "keeps I (CreateConnection e userID dev country lt hb)"
    and register_kept: "keeps I (RegisterGateway e r)"

context store_contract
begin

lemmas operations_kept =
  Enroll_kept CreateDevice_kept RevokeDevice_kept RefreshAccess_kept CreateInvite_kept SetPassword_kept
  keeps_GetCredentialsByEmail keeps_ListDevices keeps_fleet_queries(1) keeps_gateway_queries(1)
  connect_kept register_kept Heartbeat_kept DeregisterGateway_kept ReleaseConnection_kept
  RenewConnection_kept keeps_GatewayPeers

lemma identity_handlers_kept:
  "handler_keeps I (handleEnroll e cfg rq)" "handler_keeps I (handleRefresh e cfg rq)"
  "handler_keeps I (handleDeviceList e cfg rq)" "handler_keeps I (handleDeviceCreate e cfg rq)"
  "handler_keeps I (handleDeviceRevoke e cfg rq i)" "handler_keeps I (handleInviteCreate e cfg rq)"
  unfolding handleEnroll_def handleRefresh_def handleDeviceList_def handleDeviceCreate_def
    handleDeviceRevoke_def handleInviteCreate_def Let_def
  by (auto intro!: handler_intros operations_kept split: prod.split option.split sum.split)

lemma password_handlers_kept:
  "handler_keeps I (handleLogin dp e cfg rq)" "handler_keeps I (handleSetPassword dp e cfg rq)"
  unfolding handleLogin_def handleSetPassword_def Let_def
  by (auto intro!: handler_intros operations_kept split: prod.split option.split sum.split pw_error.split)

lemma connection_handlers_kept:
  "handler_keeps I (handleConnectionCreate e cfg rq)" "handler_keeps I (handleConnectionDelete e cfg rq i)"
  "handler_keeps I (handleConnectionStats e cfg rq i)" "handler_keeps I (handleGatewayPeers e rq)"
  unfolding handleConnectionCreate_def handleConnectionDelete_def handleConnectionStats_def
    handleGatewayPeers_def Let_def
  by (auto intro!: handler_intros operations_kept split: prod.split sum.split)

lemma gateway_handlers_kept:
  "handler_keeps I (handleGatewayRegister e cfg rq)" "handler_keeps I (handleGatewayHeartbeat e rq)"
  "handler_keeps I (handleGatewayDeregister e rq)" "handler_keeps I (handleGatewayList e cfg rq)"
  "handler_keeps I handleHealth" "handler_keeps I (handleLocations e)"
  unfolding handleGatewayRegister_def handleGatewayHeartbeat_def handleGatewayDeregister_def
    handleGatewayList_def handleHealth_def[abs_def] handleLocations_def Let_def
  by (auto intro!: handler_intros operations_kept split: prod.split option.split sum.split)

lemma dispatch_kept: "handler_keeps I (dispatch dp page e cfg rq r)"
  by (cases r) (simp_all add: dispatch_def identity_handlers_kept password_handlers_kept
      connection_handlers_kept gateway_handlers_kept handler_keeps_reply)

lemma serve_kept:
  assumes "I (sv_db sv)" shows "I (sv_db (snd (serve pkg dp render e cfg rq sv)))"
proof -
  have "I (sv_db (snd (run_handler dp render e cfg rq r sv')))" if "sv_db sv' = sv_db sv" for r sv'
  proof -
    have "I (snd (snd (dispatch dp (render (sv_metrics sv')) e cfg rq r (sv_db sv'))))"
      using dispatch_kept[of dp _ e cfg rq r] assms that by (simp add: handler_keeps_def)
    then show ?thesis by (simp add: run_handler_def split_beta)
  qed
  then show ?thesis using assms
    by (auto simp: serve_def rateLimited_def split: sum.split prod.split)
qed

end


section \<open>Runs of the program\<close>

text \<open>
  A step is a request, a tick of the reaper (with the metrics it refreshes), or a clean-up of the
  rate limiter. The environment of every call is arbitrary.
\<close>

definition reap :: "env \<Rightarrow> env \<Rightarrow> env \<Rightarrow> env \<Rightarrow> duration \<Rightarrow> ('q, 'l) server \<Rightarrow> ('q, 'l) server" where
  "reap e1 e2 e3 e4 ttl sv =
     (case reaper_tick e1 e2 e3 e4 ttl (sv_db sv) of
        (s, snapshot) \<Rightarrow>
          sv\<lparr>sv_db := s,
             sv_metrics := sv_metrics sv @ (case snapshot of None \<Rightarrow> [] | Some (byStatus, n) \<Rightarrow> [UpdateFleet byStatus n])\<rparr>)"

inductive step ::
  "('q, 'l) rate_pkg \<Rightarrow> deps \<Rightarrow> (metric list \<Rightarrow> string) \<Rightarrow> server_config \<Rightarrow> ('q, 'l) server \<Rightarrow> ('q, 'l) server \<Rightarrow> bool"
  for pkg dp render cfg where
  request: "step pkg dp render cfg sv (snd (serve pkg dp render e cfg rq sv))"
| tick: "step pkg dp render cfg sv (reap e1 e2 e3 e4 (sc_HeartbeatTTL cfg) sv)"
| sweep: "step pkg dp render cfg sv (sv\<lparr>sv_authLimiter := Cleanup now (sv_authLimiter sv)\<rparr>)"

abbreviation steps ::
  "('q, 'l) rate_pkg \<Rightarrow> deps \<Rightarrow> (metric list \<Rightarrow> string) \<Rightarrow> server_config \<Rightarrow> ('q, 'l) server \<Rightarrow> ('q, 'l) server \<Rightarrow> bool" where
  "steps pkg dp render cfg \<equiv> (step pkg dp render cfg)\<^sup>*\<^sup>*"

context store_contract
begin

lemma step_kept: "step pkg dp render cfg sv sv' \<Longrightarrow> I (sv_db sv) \<Longrightarrow> I (sv_db sv')"
proof (induction rule: step.induct)
  case (tick sv e1 e2 e3 e4)
  then show ?case using reaper_tick_kept[of "sv_db sv" e1 e2 e3 e4] by (simp add: reap_def split_beta)
qed (simp_all add: serve_kept)

lemma steps_kept: "steps pkg dp render cfg sv sv' \<Longrightarrow> I (sv_db sv) \<Longrightarrow> I (sv_db sv')"
  by (induction rule: rtranclp_induct) (auto intro: step_kept)

end

interpretation sys_inv: store_contract store_inv
  by unfold_locales (rule keeps_CreateConnection keeps_RegisterGateway)+
section \<open>What never comes back\<close>

definition grows :: "('r \<Rightarrow> 'r \<Rightarrow> bool) \<Rightarrow> 'r list \<Rightarrow> 'r list \<Rightarrow> bool" where
  "grows R xs ys \<longleftrightarrow> (\<forall>x\<in>set xs. \<exists>y\<in>set ys. R x y)"

lemma grows_update:
  assumes "\<And>x y. R x y \<Longrightarrow> R x (f y)" "grows R xs ys" shows "grows R xs (update_where p f ys)"
proof -
  have "\<exists>y\<in>set (update_where p f ys). R x y" if x: "x \<in> set xs" for x
  proof -
    obtain y where "y \<in> set ys" "R x y" using assms(2) x by (auto simp: grows_def)
    then show ?thesis using assms(1)[of x y]
      by (intro bexI[of _ "if p y then f y else y"]) (auto simp: set_update_where)
  qed
  then show ?thesis by (simp add: grows_def)
qed

lemma grows_append: "grows R xs ys \<Longrightarrow> grows R xs (ys @ zs)"
  by (auto simp: grows_def)

definition invite_kept :: "invite_row \<Rightarrow> invite_row \<Rightarrow> bool" where
  "invite_kept i j \<longleftrightarrow> inv_code j = inv_code i \<and> (inv_used_at i \<noteq> None \<longrightarrow> inv_used_at j \<noteq> None)"

definition device_kept :: "device_row \<Rightarrow> device_row \<Rightarrow> bool" where
  "device_kept d x \<longleftrightarrow> dev_id x = dev_id d \<and> dev_user_id x = dev_user_id d \<and> dev_public_key x = dev_public_key d \<and>
     (dev_revoked_at d \<noteq> None \<longrightarrow> dev_revoked_at x \<noteq> None)"

definition lease_kept :: "lease_row \<Rightarrow> lease_row \<Rightarrow> bool" where
  "lease_kept l k \<longleftrightarrow> le_id k = le_id l \<and> le_gateway_id k = le_gateway_id l \<and> le_device_id k = le_device_id l \<and>
     le_client_public_key k = le_client_public_key l \<and> le_assigned_ip_v4 k = le_assigned_ip_v4 l \<and>
     (\<not> active l \<longrightarrow> \<not> active k)"

definition token_kept :: "refresh_row \<Rightarrow> refresh_row \<Rightarrow> bool" where
  "token_kept t u \<longleftrightarrow> rt_token_hash u = rt_token_hash t \<and> rt_device_id u = rt_device_id t \<and>
     (rt_revoked_at t \<noteq> None \<longrightarrow> rt_revoked_at u \<noteq> None)"

definition persists :: "db \<Rightarrow> db \<Rightarrow> bool" where
  "persists s0 s \<longleftrightarrow> grows invite_kept (invites s0) (invites s) \<and> grows device_kept (devices s0) (devices s) \<and>
     grows lease_kept (leases s0) (leases s) \<and> grows token_kept (refresh_tokens s0) (refresh_tokens s)"

lemmas kept_defs = invite_kept_def device_kept_def lease_kept_def token_kept_def

lemma persists_refl: "persists s s"
  by (auto simp: persists_def grows_def kept_defs)

lemma keeps_persists_insert:
  "keeps (persists s0) (insert_user u)" "keeps (persists s0) (insert_invite i)"
  "keeps (persists s0) (insert_device d)" "keeps (persists s0) (insert_refresh t)"
  "keeps (persists s0) (insert_location l)" "keeps (persists s0) (insert_gateway g)"
  by (rule keepsI; auto simp: persists_def insert_defs intro: grows_append)+

lemma kept_step:
  "inv_code (fi j) = inv_code j \<Longrightarrow> (inv_used_at (fi j) = None \<Longrightarrow> inv_used_at j = None) \<Longrightarrow>
     invite_kept i j \<Longrightarrow> invite_kept i (fi j)"
  "dev_id (fd x) = dev_id x \<Longrightarrow> dev_user_id (fd x) = dev_user_id x \<Longrightarrow> dev_public_key (fd x) = dev_public_key x \<Longrightarrow>
     (dev_revoked_at (fd x) = None \<Longrightarrow> dev_revoked_at x = None) \<Longrightarrow> device_kept d x \<Longrightarrow> device_kept d (fd x)"
  "le_id (fl k) = le_id k \<Longrightarrow> le_gateway_id (fl k) = le_gateway_id k \<Longrightarrow> le_device_id (fl k) = le_device_id k \<Longrightarrow>
     le_client_public_key (fl k) = le_client_public_key k \<Longrightarrow> le_assigned_ip_v4 (fl k) = le_assigned_ip_v4 k \<Longrightarrow>
     (active (fl k) \<Longrightarrow> active k) \<Longrightarrow> lease_kept l k \<Longrightarrow> lease_kept l (fl k)"
  "rt_token_hash (ft u) = rt_token_hash u \<Longrightarrow> rt_device_id (ft u) = rt_device_id u \<Longrightarrow>
     (rt_revoked_at (ft u) = None \<Longrightarrow> rt_revoked_at u = None) \<Longrightarrow> token_kept t u \<Longrightarrow> token_kept t (ft u)"
  unfolding kept_defs by metis+

interpretation history: statements "persists s0" for s0
proof (unfold_locales, goal_cases)
  case (6 f p)
  then show ?case
    by (intro keepsI) (auto simp: persists_def exec_update_def intro!: grows_update intro: kept_step(1))
next
  case (7 f p)
  then show ?case
    by (intro keepsI) (auto simp: persists_def exec_update_def intro!: grows_update intro: kept_step(2))
next
  case (9 f p)
  then show ?case
    by (intro keepsI) (auto simp: persists_def exec_update_def intro!: grows_update intro: kept_step(3))
next
  case (10 f p)
  then show ?case
    by (intro keepsI) (auto simp: persists_def exec_update_def intro!: grows_update intro: kept_step(4))
qed (rule keeps_persists_insert | simp add: keeps_def persists_def exec_update_def)+

lemma persists_connect: "keeps (persists s0) (CreateConnection e userID dev country lt hb)"
  unfolding CreateConnection_def
proof (rule keeps_txI)
  fix s conn t
  assume s: "persists s0 s" and run: "connect_tx e userID dev country lt hb s = (Inr conn, t)"
  from run obtain l where "insert_lease l (released_db e dev s) = (Inr (), t)" by (rule connect_tx_Inr)
  then have t: "t = (released_db e dev s)\<lparr>leases := leases (released_db e dev s) @ [l]\<rparr>" by (simp add: insert_lease_Inr)
  have "persists s0 (released_db e dev s)"
    using keepsD[OF history.leases_kept s, of "release (e_now e)" "of_device dev"]
    by (simp add: released_db_def exec_update_def)
  then show "persists s0 t" by (simp add: t persists_def grows_append)
qed

lemma persists_register: "keeps (persists s0) (RegisterGateway e r)"
proof -
  have "keeps (persists s0) (upsert_location e c n)" for c n
    by (rule keepsI) (auto simp: upsert_location_def andThen_def insert_location_def ret_def persists_def split: option.split)
  moreover have "keeps (persists s0) (upsert_gateway x)" for x
    by (rule keepsI) (auto simp: upsert_gateway_def andThen_def insert_gateway_def ret_def persists_def split: option.split)
  ultimately show ?thesis unfolding RegisterGateway_def Let_def
    by (auto split: option.split prod.split intro!: keeps_throw keeps_tx keeps_andThen keeps_stmt keeps_ret)
qed

interpretation history: store_contract "persists s0" for s0
  by unfold_locales (rule persists_connect persists_register)+


text \<open>
  C1. Whatever requests arrive in whatever order, whatever the database server answers and whenever
  the reaper runs: from an empty database the constraints of the schema and of the leases hold in
  every state between requests, one handled after the other; in particular no device has two active
  leases and no two active leases of a gateway share an address.
\<close>

theorem program_invariant:
  assumes "steps pkg dp render cfg (NewServer pkg cfg empty_db) sv"
  shows "schema_ok (sv_db sv) \<and> lease_inv (sv_db sv) \<and>
     distinct (map le_device_id (filter active (leases (sv_db sv)))) \<and>
     distinct (map (\<lambda>l. (le_gateway_id l, le_assigned_ip_v4 l)) (filter active (leases (sv_db sv))))"
proof -
  have "store_inv (sv_db (NewServer pkg cfg empty_db))" by (simp add: NewServer_def Let_def store_inv_empty)
  from sys_inv.steps_kept[OF assms this] show ?thesis by (simp add: store_inv_def schema_ok_def lease_inv_def)
qed

text \<open>
  C8. A device revoked at some moment of a run is shut out from then on: no refresh token is ever
  exchanged for it and no connect that starts then succeeds for it, whoever asks.
\<close>

theorem revocation_is_final:
  assumes inv: "store_inv (sv_db sv)" and run: "steps pkg dp render cfg sv sv'"
    and d: "d \<in> set (devices (sv_db sv))" "dev_revoked_at d \<noteq> None"
  shows "(\<forall>e plain u. row_order_ok (e_order e) \<longrightarrow> fst (RefreshAccess e plain (sv_db sv')) \<noteq> Inr (u, dev_id d)) \<and>
     (\<forall>e u country lt hb c. fst (CreateConnection e u (dev_id d) country lt hb (sv_db sv')) \<noteq> Inr c)"
proof -
  let ?s = "sv_db sv'"
  have s: "schema_ok ?s" using sys_inv.steps_kept[OF run inv] by (simp add: store_inv_def)
  obtain y where y: "y \<in> set (devices ?s)" "dev_id y = dev_id d" "dev_revoked_at y \<noteq> None"
    using history.steps_kept[OF run persists_refl] d by (auto simp: persists_def grows_def device_kept_def)
  have rev: "dev_revoked_at x \<noteq> None" if "x \<in> set (devices ?s)" "dev_id x = dev_id d" for x
    using device_unique[OF s that(1) y(1)] y that by simp
  show ?thesis using RefreshAccess_revoked[OF s _ rev] CreateConnection_needs_device[of ?s "dev_id d", OF rev] by blast
qed
section \<open>The properties on a small run\<close>

definition sample_pkg :: "(unit, nat) rate_pkg" where
  "sample_pkg = \<lparr>rp_Every = (\<lambda>_. ()), rp_NewLimiter = (\<lambda>_ b. nat b),
     rp_Allow = (\<lambda>n _. if n = 0 then (False, 0) else (True, n - 1))\<rparr>"

definition sample_deps :: deps where
  "sample_deps = \<lparr>dp_IDKey = sample_IDKey, dp_Version = 19\<rparr>"

definition sample_cfg :: server_config where
  "sample_cfg = \<lparr>sc_EnrollmentSecret = ''es'', sc_AdminToken = ''at'', sc_HeartbeatTTL = 30000000000,
     sc_JWTSecret = ''js'', sc_AccessTTL = 900000000000, sc_RefreshTTL = 3600000000000, sc_LeaseTTL = 300000000000,
     sc_ClientDNS = [''9.9.9.9''], sc_ProbePort = 51821, sc_AuthRatePerMin = 10, sc_AuthBurst = 5, sc_TrustProxy = False\<rparr>"

definition sample_request :: "string \<Rightarrow> string \<Rightarrow> string \<Rightarrow> json option \<Rightarrow> request" where
  "sample_request m path auth b = \<lparr>rq_Method = m, rq_Path = path, rq_Authorization = auth, rq_XForwardedFor = '''',
     rq_RemoteAddr = ''192.0.2.7:999'', rq_Body = b\<rparr>"

abbreviation sample_serve :: "request \<Rightarrow> (unit, nat) server \<Rightarrow> response \<times> (unit, nat) server" where
  "sample_serve rq \<equiv> serve sample_pkg sample_deps (\<lambda>_. '''') sample_env sample_cfg rq"

abbreviation sample_steps :: "(unit, nat) server \<Rightarrow> (unit, nat) server \<Rightarrow> bool" where
  "sample_steps \<equiv> steps sample_pkg sample_deps (\<lambda>_. '''') sample_cfg"

theorem program_invariant_witness:
  "\<exists>sv. sample_steps (NewServer sample_pkg sample_cfg empty_db) sv \<and> invites (sv_db sv) \<noteq> [] \<and>
     schema_ok (sv_db sv) \<and> lease_inv (sv_db sv)"
proof -
  let ?sv = "snd (sample_serve (sample_request ''POST'' ''/v1/invites'' ''Bearer at'' None) (NewServer sample_pkg sample_cfg empty_db))"
  have run: "sample_steps (NewServer sample_pkg sample_cfg empty_db) ?sv" by (intro r_into_rtranclp step.request)
  moreover have "invites (sv_db ?sv) \<noteq> []" by code_simp
  ultimately show ?thesis using program_invariant[OF run] by blast
qed

definition sample_revoked :: "(unit, nat) server" where
  "sample_revoked = NewServer sample_pkg sample_cfg
     (sample_net\<lparr>devices := [sample_device\<lparr>dev_revoked_at := Some 5\<rparr>]\<rparr>)"

lemma sample_revoked_simps:
  "devices (sv_db sample_revoked) = [sample_device\<lparr>dev_revoked_at := Some 5\<rparr>]" "store_inv (sv_db sample_revoked)"
  using store_inv_sample_net
  by (simp_all add: sample_revoked_def NewServer_def Let_def store_inv_def schema_ok_def lease_inv_def sample_net_def
      sample_device_def)

abbreviation sample_ticked :: "(unit, nat) server" where
  "sample_ticked \<equiv> reap sample_env sample_env sample_env sample_env (sc_HeartbeatTTL sample_cfg) sample_revoked"

lemma sample_tick: "sample_steps sample_revoked sample_ticked"
  by (intro r_into_rtranclp step.tick)


theorem revocation_is_final_witness:
  "\<exists>err. fst (CreateConnection sample_env ''usr'' ''dev'' ''de'' 300000000000 30000000000 (sv_db sample_ticked)) = Inl err"
  using revocation_is_final[OF sample_revoked_simps(2) sample_tick, of "sample_device\<lparr>dev_revoked_at := Some 5\<rparr>"]
  by (cases "fst (CreateConnection sample_env ''usr'' ''dev'' ''de'' 300000000000 30000000000 (sv_db sample_ticked))")
     (auto simp: sample_revoked_simps sample_device_def)

end
