(* ===== verification/Api_Security.thy ===== *)
theory Api_Security
  imports System
begin

text \<open>
  Who may do what through the API: requests without the right credential change nothing, a user's
  requests leave everybody else's rows alone, and what logging in, enrolling and refreshing return.
\<close>

section \<open>Users are isolated\<close>

definition own_ids :: "string \<Rightarrow> db \<Rightarrow> string set" where
  "own_ids u s = dev_id ` {d \<in> set (devices s). dev_user_id d = u}"

text \<open>Everything that is not the user's.\<close>

definition others ::
  "string \<Rightarrow> db \<Rightarrow> user_row list \<times> device_row list \<times> lease_row list \<times> refresh_row list \<times>
   gateway_row list \<times> location_row list \<times> invite_row list" where
  "others u s =
     (filter (\<lambda>r. usr_id r \<noteq> u) (users s), filter (\<lambda>d. dev_user_id d \<noteq> u) (devices s),
      filter (\<lambda>l. le_device_id l \<notin> own_ids u s) (leases s),
      filter (\<lambda>t. rt_device_id t \<notin> own_ids u s) (refresh_tokens s),
      gateways s, locations s, invites s)"

definition isolated :: "string \<Rightarrow> db \<Rightarrow> db \<Rightarrow> bool" where
  "isolated u s0 s \<longleftrightarrow> store_inv s \<and> others u s = others u s0"

lemma filter_update_where_out:
  "(\<And>x. x \<in> set xs \<Longrightarrow> p x \<Longrightarrow> \<not> q x \<and> \<not> q (f x)) \<Longrightarrow> filter q (update_where p f xs) = filter q xs"
  by (induction xs) (auto simp: update_where_def)

lemma isolated_update_users:
  assumes "isolated u s0 s" "\<And>r. usr_id (f r) = usr_id r" "\<And>r. usr_email (f r) = usr_email r"
  shows "isolated u s0 (s\<lparr>users := update_where (\<lambda>r. usr_id r = u) f (users s)\<rparr>)"
proof -
  have "store_inv (s\<lparr>users := update_where (\<lambda>r. usr_id r = u) f (users s)\<rparr>)"
    using keepsD[OF inv.users_kept, of f s "\<lambda>r. usr_id r = u"] assms by (simp add: isolated_def exec_update_def)
  moreover have "filter (\<lambda>r. usr_id r \<noteq> u) (update_where (\<lambda>r. usr_id r = u) f (users s)) = filter (\<lambda>r. usr_id r \<noteq> u) (users s)"
    by (rule filter_update_where_out) (simp add: assms(2))
  ultimately show ?thesis using assms(1) by (simp add: isolated_def others_def own_ids_def)
qed

lemma isolated_update_leases:
  assumes "isolated u s0 s" "\<And>r. r \<in> set (leases s) \<Longrightarrow> p r \<Longrightarrow> le_device_id r \<in> own_ids u s"
    "\<And>r. le_device_id (f r) = le_device_id r" "keeps store_inv (update_leases p f)"
  shows "isolated u s0 (s\<lparr>leases := update_where p f (leases s)\<rparr>)"
proof -
  have "filter (\<lambda>l. le_device_id l \<notin> own_ids u s) (update_where p f (leases s)) =
      filter (\<lambda>l. le_device_id l \<notin> own_ids u s) (leases s)"
    by (rule filter_update_where_out) (simp add: assms(2,3))
  then show ?thesis using keepsD[OF assms(4), of s] assms(1)
    by (simp add: isolated_def others_def own_ids_def exec_update_def)
qed

lemma isolated_SetPassword: "keeps (isolated u s0) (SetPassword e u h)"
proof -
  have "keeps (isolated u s0) (update_users (\<lambda>r. usr_id r = u) (\<lambda>r. r\<lparr>usr_password_hash := Some h\<rparr>))"
    by (rule keepsI) (simp add: exec_update_def isolated_update_users)
  then show ?thesis unfolding SetPassword_def by (intro keeps_andThen keeps_stmt keeps_failIf)
qed

lemma isolated_owned:
  assumes "\<And>r. le_device_id (f r) = le_device_id r" "\<And>p. keeps store_inv (update_leases p f)"
  shows "keeps (isolated u s0) (\<lambda>s. update_leases (owned_lease s u i) f s)"
  using assms by (intro keepsI) (auto simp: exec_update_def owned_lease_def own_ids_def intro!: isolated_update_leases)

lemma isolated_ReleaseConnection: "keeps (isolated u s0) (ReleaseConnection e u i)"
  unfolding ReleaseConnection_def
  by (rule keeps_andThen[OF keeps_stmt[OF isolated_owned] keeps_failIf]) (simp_all add: keeps_release)

lemma isolated_RenewConnection: "keeps (isolated u s0) (RenewConnection e u i ttl)"
proof -
  have "keeps (isolated u s0) (\<lambda>s. update_leases (owned_lease s u i) (\<lambda>l. l\<lparr>le_expires_at := x\<rparr>) s)" for x
    by (rule isolated_owned) (simp, intro inv.leases_kept, simp_all add: active_def)
  then show ?thesis unfolding RenewConnection_def Let_def
    by (intro keeps_andThen keeps_stmt keeps_failIf keeps_ret)
qed

text \<open>A transaction keeps the isolation when its complete runs do.\<close>

lemma isolated_txI:
  assumes "keeps store_inv (tx e k m)" "\<And>s y t. store_inv s \<Longrightarrow> m s = (Inr y, t) \<Longrightarrow> others u t = others u s"
  shows "keeps (isolated u s0) (tx e k m)"
proof (rule keepsI)
  fix s assume s: "isolated u s0 s"
  have "store_inv (snd (tx e k m s))" using keepsD[OF assms(1)] s by (simp add: isolated_def)
  moreover have "others u (snd (tx e k m s)) = others u s" using assms(2)[of s] s
    by (auto simp: tx_def isolated_def split: prod.split sum.split outcome.split)
  ultimately show "isolated u s0 (snd (tx e k m s))" using s by (simp add: isolated_def)
qed

lemma device_row_of_sel [simp]:
  "dev_id (device_row_of e n u r) = e_uuid e n" "dev_user_id (device_row_of e n u r) = u"
  by (simp_all add: device_row_of_def)

lemma own_ids_append:
  "own_ids u (s\<lparr>devices := devices s @ [d], refresh_tokens := ts\<rparr>) = own_ids u s \<union> (if dev_user_id d = u then {dev_id d} else {})"
  by (auto simp: own_ids_def image_iff)

lemma isolated_CreateDevice: "keeps (isolated u s0) (CreateDevice e u r ttl)"
  unfolding CreateDevice_def
proof (rule isolated_txI)
  show "keeps store_inv (tx e 3 (andThen (stmt e 0 (ret ())) (\<lambda>_. andThen (insertDevice e 0 1 u r) (\<lambda>d.
      andThen (newRefreshToken e 0 1 2 (d_ID d) ttl) (\<lambda>refresh. ret (d, refresh))))))"
    using inv.CreateDevice_kept[of e u r ttl] by (simp add: CreateDevice_def)
  fix s y t
  assume inv: "store_inv s" and "andThen (stmt e 0 (ret ())) (\<lambda>_. andThen (insertDevice e 0 1 u r) (\<lambda>d.
      andThen (newRefreshToken e 0 1 2 (d_ID d) ttl) (\<lambda>refresh. ret (d, refresh)))) s = (Inr y, t)"
  then obtain plain where new: "e_uuid e 0 \<notin> dev_id ` set (devices s)"
    and t: "t = s\<lparr>devices := devices s @ [device_row_of e 0 u r],
       refresh_tokens := refresh_tokens s @ [refresh_row_of e 1 (e_uuid e 0) plain ttl]\<rparr>"
    by (auto simp: act_simps scan_device_def)
  have own: "own_ids u t = insert (e_uuid e 0) (own_ids u s)" unfolding t own_ids_append by simp
  have refs: "\<forall>l\<in>set (leases s). le_device_id l \<in> dev_id ` set (devices s)"
    "\<forall>x\<in>set (refresh_tokens s). rt_device_id x \<in> dev_id ` set (devices s)"
    using inv by (simp_all add: store_inv_def schema_ok_def)
  have "le_device_id l \<noteq> e_uuid e 0" if "l \<in> set (leases s)" for l using refs(1) new that by metis
  then have "filter (\<lambda>l. le_device_id l \<notin> own_ids u t) (leases s) = filter (\<lambda>l. le_device_id l \<notin> own_ids u s) (leases s)"
    by (intro filter_cong) (auto simp: own)
  moreover have "rt_device_id x \<noteq> e_uuid e 0" if "x \<in> set (refresh_tokens s)" for x using refs(2) new that by metis
  then have "filter (\<lambda>x. rt_device_id x \<notin> own_ids u t) (refresh_tokens s) = filter (\<lambda>x. rt_device_id x \<notin> own_ids u s) (refresh_tokens s)"
    by (intro filter_cong) (auto simp: own)
  ultimately show "others u t = others u s" using own by (simp add: others_def t)
qed

lemma isolated_CreateConnection: "keeps (isolated u s0) (CreateConnection e u dev country lt hb)"
  unfolding CreateConnection_def
proof (rule isolated_txI)
  show "keeps store_inv (tx e 7 (connect_tx e u dev country lt hb))"
    using keeps_CreateConnection[of e u dev country lt hb] by (simp add: CreateConnection_def)
  fix s conn t
  assume inv: "store_inv s" and run: "connect_tx e u dev country lt hb s = (Inr conn, t)"
  from run obtain d l gid v4 v6 where d: "d \<in> set (devices s)" "device_usable u dev d"
    and l: "l = new_lease e gid dev (dev_public_key d) v4 v6 lt" and ins: "insert_lease l (released_db e dev s) = (Inr (), t)"
    by (rule connect_tx_Inr)
  have own: "dev \<in> own_ids u s" using d by (auto simp: own_ids_def device_usable_def)
  have rel: "isolated u s (released_db e dev s)" unfolding released_db_def
    by (rule isolated_update_leases) (use own inv keeps_release in \<open>auto simp: of_device_def isolated_def\<close>)
  have t: "t = (released_db e dev s)\<lparr>leases := leases (released_db e dev s) @ [l]\<rparr>" using ins by (simp add: insert_lease_Inr)
  show "others u t = others u s" using rel own by (simp add: isolated_def others_def own_ids_def t l)
qed

lemma own_pairs: "dev_id ` {d \<in> D. dev_user_id d = u} = {i. (i, u) \<in> (\<lambda>d. (dev_id d, dev_user_id d)) ` D}"
  by force

text \<open>The statements of a revocation, once the device is known to be the user's.\<close>

abbreviation isolated_own :: "string \<Rightarrow> db \<Rightarrow> string \<Rightarrow> db \<Rightarrow> bool" where
  "isolated_own u s0 dev s \<equiv> isolated u s0 s \<and> dev \<in> own_ids u s"

lemma isolated_revoke_device:
  "keeps (isolated_own u s0 dev) (update_devices (device_usable u dev) (\<lambda>d. d\<lparr>dev_revoked_at := Some now\<rparr>))"
proof (rule keepsI)
  fix x assume x: "isolated_own u s0 dev x"
  let ?f = "\<lambda>d. d\<lparr>dev_revoked_at := Some now\<rparr>"
  have "(\<lambda>d. (dev_id d, dev_user_id d)) ` set (update_where (device_usable u dev) ?f (devices x)) =
      (\<lambda>d. (dev_id d, dev_user_id d)) ` set (devices x)" by (rule image_update_where_same) simp
  then have "own_ids u (x\<lparr>devices := update_where (device_usable u dev) ?f (devices x)\<rparr>) = own_ids u x"
    unfolding own_ids_def own_pairs by simp
  moreover have "filter (\<lambda>d. dev_user_id d \<noteq> u) (update_where (device_usable u dev) ?f (devices x)) =
      filter (\<lambda>d. dev_user_id d \<noteq> u) (devices x)"
    by (rule filter_update_where_out) (simp add: device_usable_def)
  moreover have "store_inv (snd (update_devices (device_usable u dev) ?f x))"
    using keepsD[OF inv.devices_kept, of ?f x] x by (simp add: isolated_def)
  ultimately show "isolated_own u s0 dev (snd (update_devices (device_usable u dev) ?f x))"
    using x by (simp add: isolated_def others_def exec_update_def)
qed

lemma isolated_revoke_tokens:
  "keeps (isolated_own u s0 dev) (update_refresh (\<lambda>t. rt_device_id t = dev \<and> rt_revoked_at t = None)
     (\<lambda>t. t\<lparr>rt_revoked_at := Some now\<rparr>))" (is "keeps _ (update_refresh ?p ?g)")
proof (rule keepsI)
  fix x assume x: "isolated_own u s0 dev x"
  have "filter (\<lambda>t. rt_device_id t \<notin> own_ids u x) (update_where ?p ?g (refresh_tokens x)) =
      filter (\<lambda>t. rt_device_id t \<notin> own_ids u x) (refresh_tokens x)"
    by (rule filter_update_where_out) (use x in simp)
  moreover have "store_inv (snd (update_refresh ?p ?g x))"
    using keepsD[OF inv.refresh_kept, of ?g x] x by (simp add: isolated_def)
  ultimately show "isolated_own u s0 dev (snd (update_refresh ?p ?g x))"
    using x by (simp add: isolated_def others_def exec_update_def own_ids_def)
qed

lemma isolated_expire_leases: "keeps (isolated_own u s0 dev) (update_leases (of_device dev) expire)"
proof (rule keepsI)
  fix x assume x: "isolated_own u s0 dev x"
  then have "isolated u s0 (x\<lparr>leases := update_where (of_device dev) expire (leases x)\<rparr>)"
    by (intro isolated_update_leases) (auto simp: of_device_def inv.expire_kept)
  then show "isolated_own u s0 dev (snd (update_leases (of_device dev) expire x))"
    using x by (simp add: exec_update_def own_ids_def)
qed

lemma isolated_RevokeDevice: "keeps (isolated u s0) (RevokeDevice e u dev)"
proof (rule keepsI)
  fix s assume s: "isolated u s0 s"
  show "isolated u s0 (snd (RevokeDevice e u dev s))"
  proof (cases "\<exists>d\<in>set (devices s). device_usable u dev d")
    case False
    then have "count_where (device_usable u dev) (devices s) = 0" "update_where (device_usable u dev) f (devices s) = devices s" for f
      by (auto simp: count_where_0_iff update_where_none)
    then have "snd (RevokeDevice e u dev s) = s"
      by (cases "e_outcome e 0") (simp_all add: RevokeDevice_def andThen_def stmt_def exec_update_def failIf_def throw_def)
    then show ?thesis using s by simp
  next
    case True
    have "keeps (isolated_own u s0 dev) (RevokeDevice e u dev)" unfolding RevokeDevice_def
      by (intro keeps_andThen keeps_stmt keeps_failIf keeps_ret isolated_revoke_device isolated_revoke_tokens
          isolated_expire_leases)
    moreover have "isolated_own u s0 dev s" using s True by (auto simp: own_ids_def device_usable_def)
    ultimately show ?thesis by (blast dest: keepsD)
  qed
qed

lemmas isolated_operations = isolated_SetPassword isolated_ReleaseConnection isolated_RenewConnection
  isolated_CreateDevice isolated_CreateConnection isolated_RevokeDevice keeps_ListDevices

text \<open>The routes that act for an authenticated user.\<close>

fun user_route :: "route \<Rightarrow> bool" where
  "user_route Password = True"
| "user_route DeviceList = True"
| "user_route DeviceCreate = True"
| "user_route (DeviceRevoke i) = True"
| "user_route ConnectionCreate = True"
| "user_route (ConnectionDelete i) = True"
| "user_route (ConnectionStats i) = True"
| "user_route _ = False"

lemma handler_keeps_as_user:
  assumes "authUser (e_clock e) cfg rq = Inr u" "handler_keeps I (k u)"
  shows "handler_keeps I (with_user e cfg rq k)"
  using assms by (simp add: handler_keeps_def with_user_def)

lemma dispatch_isolated:
  assumes "user_route r" "authUser (e_clock e) cfg rq = Inr u"
  shows "handler_keeps (isolated u s0) (dispatch dp page e cfg rq r)"
  using assms(1)
  by (cases r)
     (auto simp: dispatch_def handleSetPassword_def handleDeviceList_def handleDeviceCreate_def
       handleDeviceRevoke_def handleConnectionCreate_def handleConnectionDelete_def handleConnectionStats_def
       intro!: handler_keeps_as_user[OF assms(2)] handler_keeps_reply handler_keeps_metric handler_keeps_call
         isolated_operations
       split: prod.split sum.split pw_error.split)

lemma not_limited: "user_route r \<Longrightarrow> \<not> limited r"
  by (cases r) (simp_all add: limited_def)

text \<open>
  C4. A request carried out for a user touches nothing of anybody else: the accounts, devices, leases
  and refresh tokens of other users, the gateways, the locations and the invites are exactly as
  before, whatever the request asks for and however the database server behaves.
\<close>

theorem user_isolation:
  assumes inv: "store_inv (sv_db sv)" and r: "mux rq = Inr r" "user_route r"
    and u: "authUser (e_clock e) cfg rq = Inr u"
  shows "others u (sv_db (snd (serve pkg dp render e cfg rq sv))) = others u (sv_db sv)"
proof -
  have "isolated u (sv_db sv) (sv_db sv)" using inv by (simp add: isolated_def)
  then have "isolated u (sv_db sv) (snd (snd (dispatch dp (render (sv_metrics sv)) e cfg rq r (sv_db sv))))"
    using dispatch_isolated[OF r(2) u] by (simp add: handler_keeps_def)
  then show ?thesis using r not_limited[OF r(2)]
    by (simp add: serve_def run_handler_def split_beta isolated_def)
qed


section \<open>Nothing happens without a credential\<close>

text \<open>What a route asks for before it acts; the other routes are open or carry their secret in the body.\<close>

fun credential :: "instant \<Rightarrow> server_config \<Rightarrow> request \<Rightarrow> db \<Rightarrow> route \<Rightarrow> bool" where
  "credential now cfg rq s InviteCreate \<longleftrightarrow> sc_AdminToken cfg \<noteq> '''' \<and> bearerToken rq = sc_AdminToken cfg"
| "credential now cfg rq s GatewayList \<longleftrightarrow> sc_AdminToken cfg \<noteq> '''' \<and> bearerToken rq = sc_AdminToken cfg"
| "credential now cfg rq s GatewayRegister \<longleftrightarrow> sc_EnrollmentSecret cfg \<noteq> '''' \<and> bearerToken rq = sc_EnrollmentSecret cfg"
| "credential now cfg rq s GatewayHeartbeat \<longleftrightarrow> bearerToken rq \<noteq> '''' \<and> (\<exists>g\<in>set (gateways s). token_live (HashToken (bearerToken rq)) g)"
| "credential now cfg rq s GatewayDeregister \<longleftrightarrow> bearerToken rq \<noteq> '''' \<and>
     (\<exists>g\<in>set (gateways s). gw_agent_token_hash g = Some (HashToken (bearerToken rq)))"
| "credential now cfg rq s PeersRoute \<longleftrightarrow> bearerToken rq \<noteq> '''' \<and> (\<exists>g\<in>set (gateways s). token_live (HashToken (bearerToken rq)) g)"
| "credential now cfg rq s r \<longleftrightarrow> (user_route r \<longrightarrow> (\<exists>u. authUser now cfg rq = Inr u))"

definition refused :: "db \<Rightarrow> result \<Rightarrow> bool" where
  "refused s res \<longleftrightarrow> (case res of (rs, ms, t) \<Rightarrow> 400 \<le> rs_Status rs \<and> ms = [] \<and> t = s)"

lemma refused_reply: "refused s (reply (writeError code msg) s) \<longleftrightarrow> 400 \<le> code"
  by (simp add: refused_def reply_def writeError_def writeJSON_def)

lemma authUser_status: "authUser now cfg rq = Inl rs \<Longrightarrow> 400 \<le> rs_Status rs"
  by (auto simp: authUser_def Let_def writeError_def writeJSON_def split: if_splits sum.splits)

lemma refused_with_user:
  assumes "\<nexists>u. authUser (e_clock e) cfg rq = Inr u" shows "refused s (with_user e cfg rq k s)"
  using assms authUser_status
  by (cases "authUser (e_clock e) cfg rq") (auto simp: with_user_def refused_def reply_def)

text \<open>A store operation that fails without a trace makes a handler refuse.\<close>

lemma refused_call:
  assumes "\<exists>err. m s = (Inl err, s)" "\<And>err. refused s (k (Inl err) s)" shows "refused s (call m k s)"
proof -
  obtain err where "m s = (Inl err, s)" using assms(1) by blast
  then show ?thesis using assms(2) by (cases err) (simp_all add: call_def recovered_def refused_reply)
qed

text \<open>With no live gateway behind the token, the three operations of the agents change nothing.\<close>

lemma no_live_Heartbeat:
  assumes "\<forall>g\<in>set (gateways s). \<not> token_live h g" "row_order_ok (e_order e)"
  shows "\<exists>err. Heartbeat e h m s = (Inl err, s)"
proof -
  have "filter (token_live h) (gateways s) = []" "update_where (token_live h) g (gateways s) = gateways s" for g
    using assms(1) by (simp_all add: filter_empty_conv update_where_none)
  then show ?thesis
    by (cases "e_outcome e 0") (simp_all add: Heartbeat_def andThen_def stmt_def throw_def in_order_Nil[OF assms(2)])
qed

lemma no_live_GatewayPeers:
  assumes "\<forall>g\<in>set (gateways s). \<not> token_live h g" "row_order_ok (e_order e)"
  shows "\<exists>err. GatewayPeers e h s = (Inl err, s)"
proof -
  have "filter (token_live h) (gateways s) = []" using assms(1) by (simp add: filter_empty_conv)
  then show ?thesis
    by (cases "e_outcome e 0") (simp_all add: GatewayPeers_def andThen_def stmt_def throw_def gets_def in_order_Nil[OF assms(2)])
qed

lemma no_token_Deregister:
  assumes "\<forall>g\<in>set (gateways s). gw_agent_token_hash g \<noteq> Some h"
  shows "\<exists>err. DeregisterGateway e h s = (Inl err, s)"
proof -
  let ?p = "\<lambda>g. gw_agent_token_hash g = Some h"
  have "update_where ?p f (gateways s) = gateways s" "count_where ?p (gateways s) = 0" for f
    using assms by (simp_all add: update_where_none count_where_0_iff)
  then show ?thesis
    by (cases "e_outcome e 0")
       (simp_all add: DeregisterGateway_def andThen_def stmt_def throw_def exec_update_def failIf_def)
qed

lemma dispatch_refused:
  assumes no: "\<not> credential (e_clock e) cfg rq s r" and ord: "row_order_ok (e_order e)"
  shows "refused s (dispatch dp page e cfg rq r s)"
proof (cases "user_route r")
  case True
  with no have "\<nexists>u. authUser (e_clock e) cfg rq = Inr u" by (cases r) auto
  note refused_with_user[OF this]
  then show ?thesis using True
    by (cases r) (simp_all add: dispatch_def handleSetPassword_def handleDeviceList_def handleDeviceCreate_def
      handleDeviceRevoke_def handleConnectionCreate_def handleConnectionDelete_def handleConnectionStats_def)
next
  case False
  let ?h = "HashToken (bearerToken rq)"
  have nf: "refused s (reply NotFound s)" by (simp add: refused_def reply_def NotFound_def)
  consider "r \<in> {InviteCreate, GatewayList, GatewayRegister}" | "r = GatewayHeartbeat" | "r = PeersRoute" | "r = GatewayDeregister"
    using no False by (cases r) auto
  then show ?thesis
  proof cases
    case 1
    then show ?thesis using no nf
      by (auto simp: dispatch_def handleInviteCreate_def handleGatewayList_def handleGatewayRegister_def constEq_def refused_reply)
  next
    case 2
    then have "bearerToken rq = '''' \<or> (\<forall>m. \<exists>err. Heartbeat e ?h m s = (Inl err, s))"
      using no no_live_Heartbeat[OF _ ord] by auto
    then show ?thesis using 2
      by (auto simp: dispatch_def handleGatewayHeartbeat_def Let_def refused_reply split: prod.split intro!: refused_call)
  next
    case 3
    then have "bearerToken rq = '''' \<or> (\<exists>err. GatewayPeers e ?h s = (Inl err, s))"
      using no no_live_GatewayPeers[OF _ ord] by auto
    then show ?thesis using 3
      by (auto simp: dispatch_def handleGatewayPeers_def Let_def refused_reply intro!: refused_call)
  next
    case 4
    then have "bearerToken rq = '''' \<or> (\<exists>err. DeregisterGateway e ?h s = (Inl err, s))"
      using no no_token_Deregister by auto
    then show ?thesis using 4
      by (auto simp: dispatch_def handleGatewayDeregister_def Let_def refused_reply intro!: refused_call)
  qed
qed

text \<open>
  C5. A request whose route asks for a credential it does not carry (a valid access token, the admin
  token, the enrolment secret, or the token of a gateway) gets an error response and changes neither
  the database nor the metrics nor the rate limiter.
\<close>

theorem no_credential_no_effect:
  assumes r: "mux rq = Inr r" and no: "\<not> credential (e_clock e) cfg rq (sv_db sv) r" and ord: "row_order_ok (e_order e)"
  shows "400 \<le> rs_Status (fst (serve pkg dp render e cfg rq sv)) \<and> snd (serve pkg dp render e cfg rq sv) = sv"
proof -
  have "\<not> limited r" using no by (cases r) (auto simp: limited_def)
  then show ?thesis using r dispatch_refused[OF no ord, of dp "render (sv_metrics sv)"]
    by (auto simp: serve_def run_handler_def refused_def split: prod.splits)
qed
section \<open>Tokens that were handed out work\<close>

lemma TrimSpace_no_space: "\<forall>x\<in>set s. \<not> isSpace x \<Longrightarrow> TrimSpace s = s"
proof -
  assume a: "\<forall>x\<in>set s. \<not> isSpace x"
  have d: "dropWhile isSpace t = t" if "\<forall>x\<in>set t. \<not> isSpace x" for t using that by (cases t) auto
  from a show ?thesis by (simp add: TrimSpace_def d)
qed

lemma b64_no_space: "x \<in> set (EncodeToString b64_url bs) \<Longrightarrow> \<not> isSpace x"
  using set_EncodeToString[OF alphabet_url, of bs] by (auto simp: b64_url_def isSpace_def)

lemma IssueJWT_no_space:
  assumes "IssueJWT secret u ttl now = Some tok" shows "\<forall>x\<in>set tok. \<not> isSpace x" "tok \<noteq> ''''"
  using assms b64_no_space
  by (auto simp: IssueJWT_def Let_def headerHS256_def b64_def sign_def isSpace_def split: if_splits)

lemma bearerToken_Bearer:
  assumes "rq_Authorization rq = ''Bearer '' @ tok" "tok \<noteq> ''''" "\<forall>x\<in>set tok. \<not> isSpace x"
  shows "bearerToken rq = tok"
proof -
  have "EqualFold ''Bearer '' ''Bearer ''" by (simp add: EqualFold_def)
  then show ?thesis using assms by (cases tok) (auto simp: bearerToken_def Let_def TrimSpace_no_space)
qed

definition clock_ok :: "env \<Rightarrow> server_config \<Rightarrow> bool" where
  "clock_ok e cfg \<longleftrightarrow> 0 < unix (e_clock e + sc_AccessTTL cfg) \<and> int64_range (unix (e_clock e)) \<and>
     int64_range (unix (e_clock e + sc_AccessTTL cfg))"

lemma authUser_issued:
  assumes tok: "issueAccess e cfg u = Some tok" and ok: "clock_ok e cfg"
    and later: "unix now < unix (e_clock e + sc_AccessTTL cfg)" and rq: "rq_Authorization rq = ''Bearer '' @ tok"
  shows "authUser now cfg rq = Inr u"
proof -
  have i: "IssueJWT (sc_JWTSecret cfg) u (sc_AccessTTL cfg) (e_clock e) = Some tok"
    using tok by (simp add: issueAccess_def)
  then have sec: "sc_JWTSecret cfg \<noteq> ''''" by (auto simp: IssueJWT_def)
  have "bearerToken rq = tok" by (rule bearerToken_Bearer[OF rq IssueJWT_no_space(2,1)[OF i]])
  moreover have "\<exists>c. ParseJWT (sc_JWTSecret cfg) tok now = Inr c \<and> cl_Subject c = u"
    using parse_issued[OF i] ok later by (auto simp: clock_ok_def)
  ultimately show ?thesis using sec IssueJWT_no_space(2)[OF i] by (auto simp: authUser_def)
qed

lemma EncodeToString_not_Nil: "bs \<noteq> [] \<Longrightarrow> EncodeToString alpha bs \<noteq> ''''"
  by (cases "map unat bs" rule: b64_sextets.cases) (auto simp: EncodeToString_def)

lemma decode_refresh:
  "rq_Body rq = Some (JObj [(''refresh_token'', JStr tok)]) \<Longrightarrow>
   decode_body [(''refresh_token'', str_field (\<lambda>x _. x))] '''' rq = (tok, True)"
  by (simp add: decode_body_def decode_into_def find_field_def str_field_def)

lemma handleRefresh_status:
  assumes "sc_JWTSecret cfg \<noteq> ''''" "rq_Body rq = Some (JObj [(''refresh_token'', JStr tok)])" "tok \<noteq> ''''"
    "fst (RefreshAccess e tok s) = Inr (u, d)"
  shows "rs_Status (fst (handleRefresh e cfg rq s)) = 200"
proof -
  obtain t where r: "RefreshAccess e tok s = (Inr (u, d), t)" using assms(4) by (cases "RefreshAccess e tok s") auto
  have "\<exists>a. issueAccess e cfg u = Some a" using assms(1) by (simp add: issueAccess_def IssueJWT_def Let_def)
  then obtain a where "issueAccess e cfg u = Some a" by blast
  then show ?thesis using assms(1,3)
    by (simp add: handleRefresh_def decode_refresh[OF assms(2)] call_def r reply_def writeJSON_def)
qed


section \<open>Suspended accounts\<close>

text \<open>
  Login refuses an account that is not active; exchanging a refresh token never looks at the
  account, so a suspended user keeps getting access tokens.
\<close>

lemma refresh_ignores_accounts:
  "fst (RefreshAccess e plain (s\<lparr>users := us\<rparr>)) = fst (RefreshAccess e plain s)"
  by (cases "e_outcome e 0"; cases "e_outcome e 1")
     (auto simp: RefreshAccess_def andThen_def stmt_def gets_def ret_def throw_def exec_update_def Let_def
       split: list.split)


section \<open>The properties at concrete requests\<close>

lemma sample_row_order: "row_order_ok (e_order sample_env)"
  by simp

definition sample_server :: "db \<Rightarrow> (unit, nat) server" where
  "sample_server s = NewServer sample_pkg sample_cfg s"

lemma sv_db_sample_server [simp]: "sv_db (sample_server s) = s"
  by (simp add: sample_server_def NewServer_def Let_def)

theorem no_credential_no_effect_witness:
  "400 \<le> rs_Status (fst (sample_serve (sample_request ''POST'' ''/v1/invites'' ''Bearer no'' None) (sample_server sample_net))) \<and>
   snd (sample_serve (sample_request ''POST'' ''/v1/invites'' ''Bearer no'' None) (sample_server sample_net)) = sample_server sample_net"
proof (rule no_credential_no_effect)
  show "mux (sample_request ''POST'' ''/v1/invites'' ''Bearer no'' None) = Inr InviteCreate" by code_simp
  have "bearerToken (sample_request ''POST'' ''/v1/invites'' ''Bearer no'' None) = ''no''" by code_simp
  then show "\<not> credential (e_clock sample_env) sample_cfg (sample_request ''POST'' ''/v1/invites'' ''Bearer no'' None)
      (sv_db (sample_server sample_net)) InviteCreate" by (simp add: sample_cfg_def)
qed (rule sample_row_order)

lemma sample_clock: "clock_ok sample_env sample_cfg"
  by (simp add: clock_ok_def sample_env_def sample_cfg_def unix_def int64_range_def)

theorem user_isolation_witness:
  "\<exists>tok. others ''usr'' (sv_db (snd (sample_serve (sample_request ''DELETE'' ''/v1/devices/dev'' (''Bearer '' @ tok) None)
       (sample_server sample_net)))) = others ''usr'' sample_net"
proof -
  obtain tok where tok: "issueAccess sample_env sample_cfg ''usr'' = Some tok"
    by (simp add: issueAccess_def IssueJWT_def Let_def sample_cfg_def)
  let ?rq = "sample_request ''DELETE'' ''/v1/devices/dev'' (''Bearer '' @ tok) None"
  have "mux (sample_request ''DELETE'' ''/v1/devices/dev'' '''' None) = Inr (DeviceRevoke ''dev'')" by code_simp
  then have r: "mux ?rq = Inr (DeviceRevoke ''dev'')" by (simp add: mux_def sample_request_def)
  have "authUser (e_clock sample_env) sample_cfg ?rq = Inr ''usr''"
    by (rule authUser_issued[OF tok sample_clock])
       (simp_all add: sample_request_def sample_env_def sample_cfg_def unix_def)
  from user_isolation[OF _ r _ this, of "sample_server sample_net" sample_pkg sample_deps "\<lambda>_. ''''"] show ?thesis
    by (auto simp: store_inv_sample_net)
qed

abbreviation sample_enroll_body :: json where
  "sample_enroll_body \<equiv> JObj [(''invite_code'', JStr ''welcome''), (''email'', JStr ''c@d''),
     (''device'', JObj [(''name'', JStr ''laptop''), (''platform'', JStr ''linux''), (''public_key'', JStr ''ck2'')])]"


end
