(* ===== verification/Fleet_Sync.thy ===== *)
theory Fleet_Sync
  imports Agent Api_Security
begin

text \<open>
  Both programs together: an agent that synchronises over the network with the control plane
  leaves on its WireGuard interface the peers of the leases in the database.
\<close>

section \<open>The world of a gateway\<close>

text \<open>
  In a world that holds the state of the control plane (\<open>srv\<close>) and the peers of the interface
  (\<open>view\<close>): the \<open>wg\<close> tool does what its manual says and lists what is there, and a request
  that is answered was handled by the control plane at some moment between its being sent and its
  answer; other requests and reaper ticks may come at any time.
\<close>

definition tool_ok ::
  "('w, agent_error) wg_run \<Rightarrow> string \<Rightarrow> (('q, 'l) server \<Rightarrow> ('q, 'l) server \<Rightarrow> bool) \<Rightarrow> ('w \<Rightarrow> ('q, 'l) server) \<Rightarrow>
   ('w \<Rightarrow> wg_view) \<Rightarrow> bool" where
  "tool_ok run iface reach srv view \<longleftrightarrow>
     wg_semantics run iface view \<and>
     (\<forall>args w. reach (srv w) (srv (snd (run args w)))) \<and>
     (\<forall>w out w'. run [''show'', iface, ''dump''] w = (Inr out, w') \<longrightarrow>
        view w' = view w \<and>
        (\<exists>ifline rows. line_ok ifline \<and> list_all dump_ok rows \<and> out = dump ifline rows \<and> view w = view_of (map fst rows)))"

definition answers ::
  "(env \<Rightarrow> request \<Rightarrow> ('q, 'l) server \<Rightarrow> response \<times> ('q, 'l) server) \<Rightarrow> (('q, 'l) server \<Rightarrow> ('q, 'l) server \<Rightarrow> bool) \<Rightarrow>
   client \<Rightarrow> http_request \<Rightarrow> ('q, 'l) server \<Rightarrow> response \<Rightarrow> ('q, 'l) server \<Rightarrow> bool" where
  "answers handle reach c hr before resp after \<longleftrightarrow>
     (\<exists>rq e sv1 sv2. hr_URL hr = cl_base c @ rq_Path rq \<and> rq_Method rq = hr_Method hr \<and>
        rq_Authorization rq = hr_Authorization hr \<and> rq_Body rq = hr_Body hr \<and> row_order_ok (e_order e) \<and>
        reach before sv1 \<and> handle e rq sv1 = (resp, sv2) \<and> reach sv2 after)"

definition network_ok ::
  "(env \<Rightarrow> request \<Rightarrow> ('q, 'l) server \<Rightarrow> response \<times> ('q, 'l) server) \<Rightarrow> 'w http_do \<Rightarrow> client \<Rightarrow>
   (('q, 'l) server \<Rightarrow> ('q, 'l) server \<Rightarrow> bool) \<Rightarrow> ('w \<Rightarrow> ('q, 'l) server) \<Rightarrow> ('w \<Rightarrow> wg_view) \<Rightarrow> bool" where
  "network_ok handle http c reach srv view \<longleftrightarrow>
     (\<forall>hr w r w'. http hr w = (r, w') \<longrightarrow> view w' = view w \<and> reach (srv w) (srv w') \<and>
        (\<forall>resp. r = Inr resp \<longrightarrow> answers handle reach c hr (srv w) resp (srv w')))"


section \<open>What the agent is told\<close>

lemma mux_PeersRoute:
  assumes "rq_Method rq = ''GET''" "rq_Path rq = ''/v1/gateways/peers''" shows "mux rq = Inr PeersRoute"
proof -
  have "Split CHR ''/'' ''/v1/gateways/peers'' = ['''', ''v1'', ''gateways'', ''peers'']" by code_simp
  then show ?thesis using assms by (simp add: mux_def routes_def method_matches_def)
qed

lemma serve_peers:
  assumes r: "mux rq = Inr PeersRoute" and ok: "200 \<le> rs_Status resp" "rs_Status resp < 300"
    and run: "serve pkg dp render e cfg rq sv1 = (resp, sv2)"
  obtains ps t where "GatewayPeers e (HashToken (bearerToken rq)) (sv_db sv1) = (Inr ps, t)"
    "rs_Body resp = Json (JObj [(''peers'', JArr (map peer_json ps))])"
  using assms that
  by (auto simp: serve_def limited_def run_handler_def dispatch_def handleGatewayPeers_def Let_def call_def reply_def
      writeError_def writeJSON_def recovered_def split: if_splits prod.splits sum.splits store_error.splits)

lemma decode_out_Inr:
  "decode_out fs zero b w = (Inr x, w') \<longleftrightarrow> w' = w \<and> (\<exists>v. b = Json v \<and> decode_into fs v zero = (x, True))"
  by (auto simp: decode_out_def act_simps split: body.split prod.split)

lemma cp_Peers_Inr:
  assumes net: "network_ok (\<lambda>e rq. serve pkg dp render e cfg rq) http c reach srv view" and tok: "word_ok token"
    and run: "cp_Peers http c token w = (Inr desired, w')"
  obtains e sv1 ps t where "reach (srv w) sv1" "row_order_ok (e_order e)"
    "GatewayPeers e (HashToken token) (sv_db sv1) = (Inr ps, t)" "desired = map rpeer_of ps" "view w' = view w"
proof -
  let ?hr = "\<lparr>hr_Method = ''GET'', hr_URL = cl_base c @ ''/v1/gateways/peers'', hr_Authorization = ''Bearer '' @ token,
     hr_ContentType = '''', hr_Body = None\<rparr>"
  have ne: "token \<noteq> ''''" "\<forall>x\<in>set token. \<not> isSpace x" using tok by (simp_all add: word_ok_def list_all_iff)
  from run ne obtain resp where http: "http ?hr w = (Inr resp, w')" and st: "200 \<le> rs_Status resp" "rs_Status resp < 300"
    and body: "\<exists>v. Json v = rs_Body resp \<and> decode_into peers_fields v [] = (desired, True)"
    by (fastforce simp: cp_Peers_def cp_do_def decode_out_Inr act_simps split: if_splits)
  from net http have v: "view w' = view w" and "answers (\<lambda>e rq. serve pkg dp render e cfg rq) reach c ?hr (srv w) resp (srv w')"
    unfolding network_ok_def by blast+
  then obtain rq e sv1 sv2 where rq: "rq_Path rq = ''/v1/gateways/peers''" "rq_Method rq = ''GET''"
      "rq_Authorization rq = ''Bearer '' @ token" and e: "row_order_ok (e_order e)" "reach (srv w) sv1"
      "serve pkg dp render e cfg rq sv1 = (resp, sv2)"
    by (auto simp: answers_def)
  obtain ps t where ps: "GatewayPeers e (HashToken token) (sv_db sv1) = (Inr ps, t)"
      "rs_Body resp = Json (JObj [(''peers'', JArr (map peer_json ps))])"
    using serve_peers[OF mux_PeersRoute[OF rq(2,1)] st e(3)] bearerToken_Bearer[OF rq(3) ne] by metis
  have "desired = map rpeer_of ps" using body by (simp add: ps(2) decode_peers)
  with that e ps(1) v show thesis by blast
qed


section \<open>Peers of leases\<close>

text \<open>The addresses of a lease are written without commas, the IPv6 one too; this is kept by every run.\<close>

lemma IP_String_no_comma: "CHR '','' \<notin> set (IP_String bs)"
proof -
  have "CHR '','' \<notin> set (print4 b)" for b
    using set_Join_sub[of "CHR ''.''" "map (\<lambda>b. utoa (unat b)) b"] utoa_special by (fastforce simp: print4_def)
  moreover have "CHR '','' \<noteq> hex_char d" if "d < 16" for d
  proof
    assume "CHR '','' = hex_char d"
    then have "(of_char (CHR '','') :: nat) = of_char (hex_char d)" by simp
    then show False using that by (simp add: hex_char_def split: if_splits)
  qed
  then have "CHR '','' \<notin> set (utox n)" for n
    by (induction n rule: utox.induct) (subst utox.simps, auto)
  then have "CHR '','' \<notin> set (Join CHR '':'' (map utox gs))" for gs
    using set_Join_sub[of "CHR '':''" "map utox gs"] by auto
  then have "CHR '','' \<notin> set (print6 b)" for b by (auto simp: print6_def Let_def split: prod.split)
  ultimately show ?thesis by (auto simp: IP_String_def split: option.split)
qed

definition v6_text :: "db \<Rightarrow> bool" where
  "v6_text s \<longleftrightarrow> (\<forall>l\<in>set (leases s). \<forall>v. le_assigned_ip_v6 l = Some v \<longrightarrow> CHR '','' \<notin> set v)"

interpretation v6: statements v6_text
proof (unfold_locales, goal_cases)
  case (9 f p)
  then show ?case by (intro keepsI) (auto simp: v6_text_def exec_update_def set_update_where)
qed (rule keepsI; auto simp: v6_text_def insert_defs exec_update_def)+

lemma v6_text_connect: "keeps v6_text (CreateConnection e userID dev country lt hb)"
  unfolding CreateConnection_def
proof (rule keeps_txI)
  fix s conn t
  assume s: "v6_text s" and run: "connect_tx e userID dev country lt hb s = (Inr conn, t)"
  from run obtain d best v4 v6 chosen l where "d \<in> set (devices s)" "conn = connection_of chosen l" and a: "allocateHost (cand_subnetV4 chosen) (cand_subnetV6 chosen)
       (used_addrs (released_db e dev s) (g_ID (cand_g chosen))) = Inr (v4, v6)"
    and l: "l = new_lease e (g_ID (cand_g chosen)) dev (dev_public_key d) v4 v6 lt" "insert_lease l (released_db e dev s) = (Inr (), t)"
    by (rule connect_tx_Inr) blast
  have "CHR '','' \<notin> set v" if "v6 = Some v" for v
    using a
  proof (rule allocateHost_InrE)
    fix h assume "v6 = map_option (\<lambda>n6. IP_String (v6_host n6 h))
        (case cand_subnetV6 chosen of None \<Rightarrow> None | Some x \<Rightarrow> if x = '''' then None else ParseCIDR x)"
    then have "Some v = map_option (\<lambda>n6. IP_String (v6_host n6 h))
        (case cand_subnetV6 chosen of None \<Rightarrow> None | Some x \<Rightarrow> if x = '''' then None else ParseCIDR x)" using that by simp
    from this[symmetric] obtain n6 where "v = IP_String (v6_host n6 h)" by (auto simp only: map_option_eq_Some)
    then show ?thesis by (simp add: IP_String_no_comma)
  qed
  moreover have "v6_text (released_db e dev s)"
    using keepsD[OF v6.leases_kept s, of "release (e_now e)" "of_device dev"] by (simp add: released_db_def exec_update_def)
  ultimately show "v6_text t" using l by (auto simp: insert_lease_Inr v6_text_def new_lease_def)
qed

lemma v6_text_register: "keeps v6_text (RegisterGateway e r)"
proof -
  have "keeps v6_text (upsert_location e c n)" for c n
    by (rule keepsI) (auto simp: upsert_location_def andThen_def insert_location_def ret_def v6_text_def split: option.split)
  moreover have "keeps v6_text (upsert_gateway x)" for x
    by (rule keepsI) (auto simp: upsert_gateway_def andThen_def insert_gateway_def ret_def v6_text_def split: option.split)
  ultimately show ?thesis unfolding RegisterGateway_def Let_def
    by (auto split: option.split prod.split intro!: keeps_throw keeps_tx keeps_andThen keeps_stmt keeps_ret)
qed

interpretation v6: store_contract v6_text
  by unfold_locales (rule v6_text_connect v6_text_register)+

abbreviation lease_peer :: "lease_row \<Rightarrow> rpeer" where
  "lease_peer l \<equiv> rpeer_of (peer_of l)"

abbreviation lease_ips :: "lease_row \<Rightarrow> string list" where
  "lease_ips l \<equiv> p_AllowedIPs (peer_of l)"

lemma set_lease_ips:
  "set (lease_ips l) = insert (le_assigned_ip_v4 l @ ''/32'') {v @ ''/128'' | v. le_assigned_ip_v6 l = Some v \<and> v \<noteq> ''''}"
  by (auto simp: peer_of_def split: option.split)

lemma suffixes_differ: "x @ ''/32'' \<noteq> y @ ''/128''"
proof
  assume "x @ ''/32'' = y @ ''/128''"
  then have "last (x @ ''/32'') = last (y @ ''/128'')" by simp
  then show False by simp
qed

lemma lease_ips_clean:
  assumes "store_inv s" "v6_text s" "l \<in> set (leases s)" shows "clean_ips (lease_ips l)"
proof -
  obtain a where "le_assigned_ip_v4 l = IP_String (PutUint32 a)" using assms by (auto simp: store_inv_def lease_inv_def)
  then show ?thesis using assms(2,3) IP_String_no_comma unfolding clean_ips_def set_lease_ips v6_text_def by auto
qed

text \<open>No two current leases of a gateway share their IPv4 address.\<close>

lemma lease_v4_own:
  assumes "store_inv s" "l \<in> set (filter (current e gid) (leases s))" "k \<in> set (filter (current e gid) (leases s))" "k \<noteq> l"
  shows "le_assigned_ip_v4 l @ ''/32'' \<notin> set (lease_ips k)"
  using assms active_address_unique[of s l k] suffixes_differ
  by (auto simp: set_lease_ips current_def on_gateway_def store_inv_def)

text \<open>The index of peers with different keys, whatever their order.\<close>

lemma index_lease_peers:
  assumes "distinct (map rp_PublicKey desired)" "set desired = lease_peer ` set ls"
  shows "index desired Map.empty k = Some ips \<longleftrightarrow> (\<exists>l\<in>set ls. le_client_public_key l = k \<and> lease_ips l = ips)"
proof -
  have sel: "rp_PublicKey (lease_peer l) = le_client_public_key l" "rp_AllowedIPs (lease_peer l) = lease_ips l" for l
    by (simp_all add: rpeer_of_def peer_of_def)
  show ?thesis
  proof
    assume "index desired Map.empty k = Some ips"
    from index_Some_peer[OF this] obtain p where "p \<in> set desired" "rp_PublicKey p = k" "rp_AllowedIPs p = ips" by blast
    then show "\<exists>l\<in>set ls. le_client_public_key l = k \<and> lease_ips l = ips" unfolding assms(2) using sel by auto
  next
    assume "\<exists>l\<in>set ls. le_client_public_key l = k \<and> lease_ips l = ips"
    then obtain l where "l \<in> set ls" "le_client_public_key l = k" "lease_ips l = ips" by blast
    then show "index desired Map.empty k = Some ips"
      using index_distinct[OF assms(1), of "lease_peer l"] sel assms(2) by auto
  qed
qed


section \<open>A synchronisation\<close>

lemma ListPeers_Inr:
  assumes "tool_ok run iface reach srv view" "ListPeers run iface w = (Inr cur, w')"
  shows "view w = view_of cur" "view w' = view w" "reach (srv w) (srv w')"
proof -
  from assms(2) obtain out where out: "run [''show'', iface, ''dump''] w = (Inr out, w')" "cur = parseDump out"
    by (auto simp: ListPeers_def act_simps)
  from assms(1) out(1) obtain ifline rows where rows: "view w' = view w" "line_ok ifline" "list_all dump_ok rows"
      "out = dump ifline rows" "view w = view_of (map fst rows)"
    unfolding tool_ok_def by blast
  then show "view w = view_of cur" "view w' = view w" using parse_dump out(2) by auto
  have "reach (srv w) (srv (snd (run [''show'', iface, ''dump''] w)))" using assms(1) unfolding tool_ok_def by blast
  then show "reach (srv w) (srv w')" by (simp add: out(1))
qed

lemma cp_Heartbeat_world:
  assumes "network_ok handle http c reach srv view" "cp_Heartbeat http c token m w = (Inr (), w')"
  shows "view w' = view w" "reach (srv w) (srv w')"
proof -
  from assms(2) obtain hr resp where "http hr w = (Inr resp, w')"
    by (auto simp: cp_Heartbeat_def cp_do_def act_simps split: if_splits)
  then show "view w' = view w" "reach (srv w) (srv w')" using assms(1) unfolding network_ok_def by blast+
qed

lemma on_world_Inr: "on_world m (w, mt) = (Inr x, s) \<longleftrightarrow> (\<exists>w'. m w = (Inr x, w') \<and> s = (w', mt))"
  by (auto simp: on_world_def split: prod.splits)

lemma sample_load_Inr: "sample_load os wan (w, mt) = (Inr load, s) \<Longrightarrow> \<exists>mt1. s = (w, mt1)"
  by (auto simp: sample_load_def split: prod.splits)

text \<open>An empty plan means there is nothing to do.\<close>

lemma Empty_view: "Empty (Diff cur desired) \<Longrightarrow> view_of cur = view_of desired"
proof
  fix k assume "Empty (Diff cur desired)"
  then have "rel_option (\<lambda>a b. mset a = mset b) (index cur Map.empty k) (index desired Map.empty k)"
    by (simp add: Empty_Diff_iff)
  then show "view_of cur k = view_of desired k"
    by (cases "index cur Map.empty k"; cases "index desired Map.empty k") (auto simp: view_of_def dest: mset_eq_setD)
qed

lemma reconcile_serves:
  assumes "wg_semantics run iface view" "view w = view_of cur" "\<And>p. p \<in> set desired \<Longrightarrow> clean_ips (rp_AllowedIPs p)"
    and "Empty (Diff cur desired) \<and> w' = w \<or> Apply run iface (Diff cur desired) w = (Inr (), w')"
  shows "case index desired Map.empty k of None \<Rightarrow> view w' k = None | Some ips \<Rightarrow> served ips (elsewhere desired k) (view w' k)"
  using assms(4)
proof
  assume "Empty (Diff cur desired) \<and> w' = w"
  then have "view w' k = map_option set (index desired Map.empty k)"
    using assms(2) Empty_view[of cur desired] by (simp add: view_of_def)
  then show ?thesis by (auto simp: served_def split: option.split)
qed (rule apply_plan[OF assms(1-3)])

lemma syncOnce_Inr:
  assumes "syncOnce os cfg c token (w, mt) = (Inr (), (w', mt'))"
  obtains cur w1 m w2 desired w3 where
    "ListPeers (ao_wg os) (ac_iface cfg) w = (Inr cur, w1)" "cp_Heartbeat (ao_http os) c token m w1 = (Inr (), w2)"
    "cp_Peers (ao_http os) c token w2 = (Inr desired, w3)"
    "Empty (Diff cur desired) \<and> w' = w3 \<or> Apply (ao_wg os) (ac_iface cfg) (Diff cur desired) w3 = (Inr (), w')"
proof -
  from assms obtain cur s1 load s2 u s3 desired s4 where
    1: "on_world (ListPeers (ao_wg os) (ac_iface cfg)) (w, mt) = (Inr cur, s1)" and 2: "sample_load os (ac_wanIface cfg) s1 = (Inr load :: agent_error + sample, s2)"
    and 3: "on_world (cp_Heartbeat (ao_http os) c token \<lparr>cm_ActivePeers = int (length cur), cm_CPUPct = s_CPUPct load,
        cm_RxBps = s_RxBps load, cm_TxBps = s_TxBps load\<rparr>) s2 = (Inr u, s3)"
    and 4: "on_world (cp_Peers (ao_http os) c token) s3 = (Inr desired, s4)"
    and 5: "(if Empty (Diff cur desired) then ret () else on_world (Apply (ao_wg os) (ac_iface cfg) (Diff cur desired))) s4 =
        (Inr (), (w', mt'))"
    unfolding syncOnce_def Let_def andThen_Inr_iff by blast
  obtain w1 where w1: "ListPeers (ao_wg os) (ac_iface cfg) w = (Inr cur, w1)" "s1 = (w1, mt)" using 1 by (auto simp: on_world_Inr)
  obtain mt1 where s2: "s2 = (w1, mt1)" using sample_load_Inr[OF 2[unfolded w1(2)]] by blast
  obtain w2 where w2: "cp_Heartbeat (ao_http os) c token \<lparr>cm_ActivePeers = int (length cur), cm_CPUPct = s_CPUPct load,
      cm_RxBps = s_RxBps load, cm_TxBps = s_TxBps load\<rparr> w1 = (Inr (), w2)" "s3 = (w2, mt1)"
    using 3 s2 by (auto simp: on_world_Inr)
  obtain w3 where w3: "cp_Peers (ao_http os) c token w2 = (Inr desired, w3)" "s4 = (w3, mt1)"
    using 4 w2(2) by (auto simp: on_world_Inr)
  from 5 w3(2) have "Empty (Diff cur desired) \<and> w' = w3 \<or> Apply (ao_wg os) (ac_iface cfg) (Diff cur desired) w3 = (Inr (), w')"
    by (auto simp: on_world_Inr ret_Inr_iff split: if_splits)
  with w1(1) w2(1) w3(1) show thesis by (rule that)
qed

text \<open>An interface that serves the desired peers has the peers of the leases they were made from.\<close>

lemma served_leases:
  fixes v :: wg_view and s :: db and e gid
  defines "ls \<equiv> filter (current e gid) (leases s)"
  assumes s: "store_inv s" and d: "distinct (map rp_PublicKey desired)" and sd: "set desired = lease_peer ` set ls"
    and srv: "\<And>k. case index desired Map.empty k of None \<Rightarrow> v k = None | Some ips \<Rightarrow> served ips (elsewhere desired k) (v k)"
  shows "dom v = le_client_public_key ` set ls"
    and "\<And>l. l \<in> set ls \<Longrightarrow> \<exists>ips. v (le_client_public_key l) = Some ips \<and> ips \<subseteq> set (lease_ips l) \<and>
      le_assigned_ip_v4 l @ ''/32'' \<in> ips \<and>
      (\<forall>ip\<in>set (lease_ips l). (\<forall>k\<in>set ls. k \<noteq> l \<longrightarrow> ip \<notin> set (lease_ips k)) \<longrightarrow> ip \<in> ips)"
proof -
  note ix = index_lease_peers[OF d sd]
  have "v k \<noteq> None \<longleftrightarrow> (\<exists>l\<in>set ls. le_client_public_key l = k)" for k
    using srv[of k] ix[of k] by (cases "index desired Map.empty k") (auto simp: served_def)
  then show "dom v = le_client_public_key ` set ls" by (auto simp: dom_def image_iff)
  fix l assume l: "l \<in> set ls"
  let ?k = "le_client_public_key l"
  have "index desired Map.empty ?k = Some (lease_ips l)" using ix[of ?k "lease_ips l"] l by blast
  then have "served (lease_ips l) (elsewhere desired ?k) (v ?k)" using srv[of ?k] by simp
  moreover have "\<exists>k\<in>set ls. k \<noteq> l \<and> x \<in> set (lease_ips k)" if "elsewhere desired ?k x" for x
    using that ix unfolding elsewhere_def by metis
  ultimately have "served (lease_ips l) (\<lambda>x. \<exists>k\<in>set ls. k \<noteq> l \<and> x \<in> set (lease_ips k)) (v ?k)" by (rule served_mono)
  moreover have "le_assigned_ip_v4 l @ ''/32'' \<in> set (lease_ips l)" by (simp add: set_lease_ips)
  ultimately show "\<exists>ips. v ?k = Some ips \<and> ips \<subseteq> set (lease_ips l) \<and> le_assigned_ip_v4 l @ ''/32'' \<in> ips \<and>
      (\<forall>ip\<in>set (lease_ips l). (\<forall>k\<in>set ls. k \<noteq> l \<longrightarrow> ip \<notin> set (lease_ips k)) \<longrightarrow> ip \<in> ips)"
    using lease_v4_own[OF s l[unfolded ls_def]] unfolding served_def ls_def by blast
qed



section \<open>A synchronisation of one gateway\<close>

text \<open>
  A world with the control plane and one interface: the network reaches the server, the tool lists
  the interface as long as it has no peers.
\<close>

definition sim_ifline :: string where
  "sim_ifline = Join tab [''priv'', ''gk'', ''51820'', ''off'']"

definition sim_tool :: "((unit, nat) server \<times> wg_view, agent_error) wg_run" where
  "sim_tool args = (\<lambda>(sv, v).
     if args = [''show'', ''wg0'', ''dump''] then
       (if v = Map.empty then Inr (dump sim_ifline []) else Inl (WgFailed ''busy''), (sv, v))
     else case sim_run args v of
       (Inl err, v') \<Rightarrow> (Inl (WgFailed err), (sv, v'))
     | (Inr out, v') \<Rightarrow> (Inr out, (sv, v')))"

abbreviation sim_request :: "http_request \<Rightarrow> request" where
  "sim_request hr \<equiv> \<lparr>rq_Method = hr_Method hr, rq_Path = drop 9 (hr_URL hr), rq_Authorization = hr_Authorization hr,
     rq_XForwardedFor = '''', rq_RemoteAddr = ''192.0.2.1:9'', rq_Body = hr_Body hr\<rparr>"

definition sim_http :: "((unit, nat) server \<times> wg_view) http_do" where
  "sim_http hr = (\<lambda>(sv, v).
     if take 9 (hr_URL hr) = ''http://cp''
     then (case sample_serve (sim_request hr) sv of (resp, sv') \<Rightarrow> (Inr resp, (sv', v)))
     else (Inl (HttpFailed ''no such host''), (sv, v)))"

definition sim_os :: "((unit, nat) server \<times> wg_view) agent_os" where
  "sim_os = \<lparr>ao_ReadFile = (\<lambda>_ _. None), ao_WriteFile = (\<lambda>_ _ w. (True, w)), ao_wg = sim_tool, ao_http = sim_http,
     ao_readings = (\<lambda>_ _. (10 ^ 18, None, None))\<rparr>"

lemma sim_tool_ok: "tool_ok sim_tool ''wg0'' sample_steps fst snd"
proof -
  have "sim_run args v = (r, v') \<Longrightarrow> fst (snd (sim_tool args (sv, v))) = sv" for args v r v' sv
    by (auto simp: sim_tool_def split: sum.splits prod.splits)
  then have "fst (snd (sim_tool args w)) = fst w" for args w by (cases w) (metis fst_conv prod.collapse)
  moreover have "line_ok sim_ifline" by (simp add: line_ok_def sim_ifline_def newline_def tab_def isSpace_def)
  moreover have "wg_semantics sim_tool ''wg0'' snd"
    unfolding wg_semantics_def by (auto simp: sim_tool_def sim_run_def clean_Split_Join split: if_splits)
  moreover have "snd w' = snd w \<and> (\<exists>ifline rows. line_ok ifline \<and> list_all dump_ok rows \<and> out = dump ifline rows \<and> snd w = view_of (map fst rows))"
    if "sim_tool [''show'', ''wg0'', ''dump''] w = (Inr out, w')" for w out w'
    using that \<open>line_ok sim_ifline\<close>
    by (intro conjI exI[of _ sim_ifline] exI[of _ "[]"]) (auto simp: sim_tool_def view_of_def split: if_splits prod.splits)
  ultimately show ?thesis unfolding tool_ok_def by auto
qed

lemma sim_base: "cl_base (new_client ''http://cp/'') = ''http://cp''"
  by code_simp

lemma sim_http_sends:
  "take 9 (hr_URL hr) = ''http://cp'' \<Longrightarrow> sim_http hr (sv, v) = (case sample_serve (sim_request hr) sv of (resp, sv') \<Rightarrow> (Inr resp, (sv', v)))"
  by (simp add: sim_http_def)

lemma sim_network_ok:
  "network_ok (\<lambda>e rq. serve sample_pkg sample_deps (\<lambda>_. '''') e sample_cfg rq) sim_http (new_client ''http://cp/'') sample_steps fst snd"
  (is "network_ok ?handle _ ?c _ _ _")
  unfolding network_ok_def
proof (intro allI impI)
  fix hr w r w' assume h: "sim_http hr w = (r, w')"
  obtain sv v where w: "w = (sv, v)" by fastforce
  show "snd w' = snd w \<and> sample_steps (fst w) (fst w') \<and>
      (\<forall>resp. r = Inr resp \<longrightarrow> answers ?handle sample_steps ?c hr (fst w) resp (fst w'))"
  proof (cases "take 9 (hr_URL hr) = ''http://cp''")
    case True
    obtain resp sv' where s: "sample_serve (sim_request hr) sv = (resp, sv')" by fastforce
    have r: "r = Inr resp" "w' = (sv', v)" using h True by (simp_all add: w sim_http_sends s)
    have "hr_URL hr = cl_base ?c @ drop 9 (hr_URL hr)" using append_take_drop_id[of 9 "hr_URL hr"] True by (simp add: sim_base)
    then have "answers ?handle sample_steps ?c hr sv resp sv'" using s unfolding answers_def
      by (intro exI[of _ sample_env] exI[of _ sv] exI[of _ sv'] exI[of _ "sim_request hr"]) (simp add: sample_row_order)
    moreover have "sample_steps sv sv'" using step.request[of sample_pkg sample_deps "\<lambda>_. ''''" sample_cfg sv sample_env] s
      by (metis r_into_rtranclp snd_conv)
    ultimately show ?thesis by (simp add: w r)
  next
    case False
    then have "r = Inl (HttpFailed ''no such host'')" "w' = w" using h by (simp_all add: w sim_http_def)
    then show ?thesis by simp
  qed
qed

definition sim_db :: db where
  "sim_db = sample_leased\<lparr>gateways := [sample_gw_row\<lparr>gw_agent_token_hash := Some (HashToken ''tok'')\<rparr>]\<rparr>"

lemma sim_db_simps: "leases sim_db = [sample_lease]"
    "gateways sim_db = [sample_gw_row\<lparr>gw_agent_token_hash := Some (HashToken ''tok'')\<rparr>]" "store_inv sim_db"
proof -
  show "leases sim_db = [sample_lease]" "gateways sim_db = [sample_gw_row\<lparr>gw_agent_token_hash := Some (HashToken ''tok'')\<rparr>]"
    by (simp_all add: sim_db_def sample_leased_simps)
  show "store_inv sim_db" using store_inv_sample_leased
    by (simp add: sim_db_def store_inv_def schema_ok_def lease_inv_def sample_leased_simps)
qed

lemma sim_current: "current sample_env ''gw'' sample_lease"
  by (simp add: current_def on_gateway_def sample_lease_def active_def)

lemma sim_gateway_peers:
  "GatewayPeers sample_env (HashToken ''tok'') (sim_db\<lparr>gateways := [g]\<rparr>) = (Inr [peer_of sample_lease], sim_db\<lparr>gateways := [g]\<rparr>)"
  if "token_live (HashToken ''tok'') g" "gw_id g = ''gw''"
proof -
  have "in_order (e_order sample_env) [sample_lease] = [sample_lease]" by (simp add: sample_env_def in_order_def)
  then show ?thesis using GatewayPeers_run[of sample_env g "sim_db\<lparr>gateways := [g]\<rparr>" "HashToken ''tok''"] that
    by (simp add: sim_db_simps sim_current)
qed

lemma sim_heartbeat:
  assumes "cm_CPUPct m = 0" "list_all int64_range [cm_ActivePeers m, cm_RxBps m, cm_TxBps m]" "sv_db sv = sim_db"
  shows "\<exists>sv' g. cp_Heartbeat sim_http (new_client ''http://cp/'') ''tok'' m (sv, v) = (Inr (), (sv', v)) \<and>
     token_live (HashToken ''tok'') g \<and> gw_id g = ''gw'' \<and> sv_db sv' = sim_db\<lparr>gateways := [g]\<rparr>"
proof -
  let ?hr = "\<lparr>hr_Method = ''POST'', hr_URL = ''http://cp'' @ ''/v1/gateways/heartbeat'', hr_Authorization = ''Bearer '' @ ''tok'',
     hr_ContentType = ''application/json'', hr_Body = Some (metrics_json m)\<rparr>"
  let ?g = "sample_gw_row\<lparr>gw_agent_token_hash := Some (HashToken ''tok'')\<rparr>"
  have tok: "bearerToken (sim_request ?hr) = ''tok''" by (rule bearerToken_Bearer) (simp_all add: isSpace_def)
  have "mux (sample_request ''POST'' ''/v1/gateways/heartbeat'' '''' None) = Inr GatewayHeartbeat" by code_simp
  then have r: "mux (sim_request ?hr) = Inr GatewayHeartbeat" by (simp add: mux_def sample_request_def)
  have dec: "decode_body metrics_fields zero_metrics (sim_request ?hr) = (metrics_of m, True)"
    using decode_metrics[of m] assms(1,2) finite_f64_0 by (simp add: decode_body_def)
  have live: "token_live (HashToken ''tok'') ?g" "gw_id ?g = ''gw''" by (simp_all add: token_live_def sample_gw_row_def)
  then have "Heartbeat sample_env (HashToken ''tok'') (metrics_of m) sim_db =
      (Inr (zero_gateway\<lparr>g_ID := gw_id ?g, g_Name := gw_name ?g, g_Status := GatewayHealthy\<rparr>),
       sim_db\<lparr>gateways := [beat sample_env (metrics_of m) ?g]\<rparr>)"
    by (simp add: Heartbeat_def andThen_def stmt_def ret_def in_order_def sim_db_simps update_where_def)
  then obtain resp sv' where s: "sample_serve (sim_request ?hr) sv = (resp, sv')" "rs_Status resp = 200"
      "sv_db sv' = sim_db\<lparr>gateways := [beat sample_env (metrics_of m) ?g]\<rparr>"
    by (simp add: serve_def r[simplified] limited_def run_handler_def dispatch_def handleGatewayHeartbeat_def tok[simplified]
        dec[simplified] call_def assms(3) reply_def writeJSON_def)
  have "cp_Heartbeat sim_http (new_client ''http://cp/'') ''tok'' m (sv, v) = (Inr (), (sv', v))"
    by (simp add: cp_Heartbeat_def cp_do_def sim_base andThen_def ret_def sim_http_def s[simplified])
  moreover have "token_live (HashToken ''tok'') (beat sample_env (metrics_of m) ?g)" "gw_id (beat sample_env (metrics_of m) ?g) = ''gw''"
    using live by (simp_all add: token_live_def beat_def)
  ultimately show ?thesis using s(3) by blast
qed

lemma sim_peers:
  assumes "token_live (HashToken ''tok'') g" "gw_id g = ''gw''" "sv_db sv = sim_db\<lparr>gateways := [g]\<rparr>"
  shows "\<exists>sv'. cp_Peers sim_http (new_client ''http://cp/'') ''tok'' (sv, v) = (Inr [lease_peer sample_lease], (sv', v))"
proof -
  let ?hr = "\<lparr>hr_Method = ''GET'', hr_URL = ''http://cp'' @ ''/v1/gateways/peers'', hr_Authorization = ''Bearer '' @ ''tok'',
     hr_ContentType = '''', hr_Body = None\<rparr>"
  have tok: "bearerToken (sim_request ?hr) = ''tok''" by (rule bearerToken_Bearer) (simp_all add: isSpace_def)
  have r: "mux (sim_request ?hr) = Inr PeersRoute" by (rule mux_PeersRoute) simp_all
  obtain sv' where s: "sample_serve (sim_request ?hr) sv = (writeJSON 200 (JObj [(''peers'', JArr (map peer_json [peer_of sample_lease]))]), sv')"
    by (simp add: serve_def r[simplified] limited_def run_handler_def dispatch_def handleGatewayPeers_def tok[simplified]
        call_def assms(3) sim_gateway_peers[OF assms(1,2)] reply_def)
  have "cp_Peers sim_http (new_client ''http://cp/'') ''tok'' (sv, v) = (Inr (map rpeer_of [peer_of sample_lease]), (sv', v))"
    using decode_peers[of "[peer_of sample_lease]"]
    by (simp add: cp_Peers_def cp_do_def sim_base andThen_def ret_def sim_http_def s[simplified] writeJSON_def decode_out_def)
  then show ?thesis by simp
qed

lemma sim_sync:
  "\<exists>w' mt'. syncOnce sim_os sample_agent_cfg (new_client ''http://cp/'') ''tok'' ((sample_server sim_db, Map.empty), new_meter) = (Inr (), (w', mt'))"
proof -
  let ?w = "(sample_server sim_db, Map.empty) :: (unit, nat) server \<times> wg_view" and ?c = "new_client ''http://cp/''"
  let ?m = "\<lparr>cm_ActivePeers = 0, cm_CPUPct = 0, cm_RxBps = 0, cm_TxBps = 0\<rparr>"
  have "line_ok sim_ifline" by (simp add: line_ok_def sim_ifline_def newline_def tab_def isSpace_def)
  then have l: "ListPeers sim_tool ''wg0'' ?w = (Inr [], ?w)"
    using parse_dump[of sim_ifline "[]"] by (simp add: ListPeers_def andThen_def ret_def sim_tool_def)
  obtain sv' g where h: "cp_Heartbeat sim_http ?c ''tok'' ?m ?w = (Inr (), (sv', Map.empty))"
    and g: "token_live (HashToken ''tok'') g" "gw_id g = ''gw''" "sv_db sv' = sim_db\<lparr>gateways := [g]\<rparr>"
    using sim_heartbeat[of ?m "sample_server sim_db" Map.empty] by (auto simp: int64_range_def)
  obtain sv'' where p: "cp_Peers sim_http ?c ''tok'' (sv', Map.empty) = (Inr [lease_peer sample_lease], (sv'', Map.empty))"
    using sim_peers[OF g] by blast
  have d: "Diff [] [lease_peer sample_lease] = \<lparr>pl_Add = [lease_peer sample_lease], pl_Remove = []\<rparr>" by code_simp
  have a: "\<exists>v. Apply sim_tool ''wg0'' \<lparr>pl_Add = [lease_peer sample_lease], pl_Remove = []\<rparr> (sv'', Map.empty) = (Inr (), (sv'', v))"
    by (simp add: Apply_def SetPeer_def andThen_def ret_def sim_tool_def sim_run_def)
  then obtain v where v: "Apply sim_tool ''wg0'' \<lparr>pl_Add = [lease_peer sample_lease], pl_Remove = []\<rparr> (sv'', Map.empty) = (Inr (), (sv'', v))"
    by blast
  show ?thesis
    using l h p v
    by (simp add: syncOnce_def andThen_def on_world_def sample_load_def sim_os_def sample_agent_cfg_def Sample_def d Empty_def)
qed


end
