(* ===== verification/Migrate.thy ===== *)
theory Migrate
  imports Store_Gateways
begin

text \<open>
  \<^verbatim>\<open>store/store.go\<close>: bringing the schema up to date. What the database server does with a migration
  or the seed data (SQL text) is the parameter \<open>sql\<close>, a partial function on its contents
  \<open>'p\<close>; the table \<open>schema_migrations\<close> is kept apart, \<open>None\<close> before it exists. The
  embedded files are a list of names and contents.
\<close>

record 'p pg =
  pg_versions :: "string list option"
  pg_rest :: 'p

type_synonym 'p sql = "string \<Rightarrow> 'p \<Rightarrow> 'p option"
type_synonym ('p, 'a) pg_act = "('p pg, store_error, 'a) act"

definition HasSuffix :: "string \<Rightarrow> string \<Rightarrow> bool" where
  "HasSuffix s suf \<longleftrightarrow> length suf \<le> length s \<and> drop (length s - length suf) s = suf"

definition TrimSuffix :: "string \<Rightarrow> string \<Rightarrow> string" where
  "TrimSuffix s suf = (if HasSuffix s suf then take (length s - length suf) s else s)"

section \<open>The code\<close>

definition run_sql :: "'p sql \<Rightarrow> string \<Rightarrow> ('p, unit) pg_act" where
  "run_sql sql text s = (case sql text (pg_rest s) of None \<Rightarrow> (Inl ErrDriver, s) | Some p \<Rightarrow> (Inr (), s\<lparr>pg_rest := p\<rparr>))"

definition ensure_table :: "('p, unit) pg_act" where
  "ensure_table s = (Inr (), s\<lparr>pg_versions := Some (case pg_versions s of None \<Rightarrow> [] | Some vs \<Rightarrow> vs)\<rparr>)"

definition version_exists :: "string \<Rightarrow> ('p, bool) pg_act" where
  "version_exists v s = (case pg_versions s of None \<Rightarrow> (Inl ErrDriver, s) | Some vs \<Rightarrow> (Inr (v \<in> set vs), s))"

text \<open>The version is the primary key.\<close>

definition insert_version :: "string \<Rightarrow> ('p, unit) pg_act" where
  "insert_version v s =
     (case pg_versions s of
        None \<Rightarrow> (Inl ErrDriver, s)
      | Some vs \<Rightarrow> if v \<in> set vs then (Inl ErrUnique, s) else (Inr (), s\<lparr>pg_versions := Some (vs @ [v])\<rparr>))"

abbreviation up_sql :: string where "up_sql \<equiv> ''.up.sql''"

definition migration_files :: "(string \<times> string) list \<Rightarrow> string list" where
  "migration_files fs = sort (filter (\<lambda>n. HasSuffix n up_sql) (map fst fs))"

definition migrate_one :: "env \<Rightarrow> nat \<Rightarrow> 'p sql \<Rightarrow> (string \<times> string) list \<Rightarrow> string \<Rightarrow> ('p, unit) pg_act" where
  "migrate_one e k sql fs f =
     (let version = TrimSuffix f up_sql in
      andThen (stmt e k (version_exists version)) (\<lambda>exists.
        if exists then ret ()
        else case map_of fs f of
          None \<Rightarrow> throw ErrDriver
        | Some body \<Rightarrow>
            andThen (stmt e (k + 1) (ret ())) (\<lambda>_.
            tx e (k + 4) (andThen (stmt e (k + 2) (run_sql sql body)) (\<lambda>_. stmt e (k + 3) (insert_version version))))))"

fun migrate_loop :: "env \<Rightarrow> nat \<Rightarrow> 'p sql \<Rightarrow> (string \<times> string) list \<Rightarrow> string list \<Rightarrow> ('p, unit) pg_act" where
  "migrate_loop e k sql fs [] = ret ()"
| "migrate_loop e k sql fs (f # gs) = andThen (migrate_one e k sql fs f) (\<lambda>_. migrate_loop e (k + 5) sql fs gs)"

definition Migrate :: "env \<Rightarrow> 'p sql \<Rightarrow> (string \<times> string) list \<Rightarrow> ('p, unit) pg_act" where
  "Migrate e sql fs = andThen (stmt e 0 ensure_table) (\<lambda>_. migrate_loop e 1 sql fs (migration_files fs))"

definition SeedDev :: "env \<Rightarrow> 'p sql \<Rightarrow> string \<Rightarrow> ('p, unit) pg_act" where
  "SeedDev e sql seedDevSQL = stmt e 0 (run_sql sql seedDevSQL)"


section \<open>What a schema went through\<close>

text \<open>The contents after the first \<open>n\<close> migrations, and the states that are exactly there.\<close>

fun run_all :: "'p sql \<Rightarrow> string list \<Rightarrow> 'p \<Rightarrow> 'p option" where
  "run_all sql [] p = Some p"
| "run_all sql (b # bs) p = Option.bind (sql b p) (run_all sql bs)"

definition versions :: "(string \<times> string) list \<Rightarrow> string list" where
  "versions fs = map (\<lambda>f. TrimSuffix f up_sql) (migration_files fs)"

definition bodies :: "(string \<times> string) list \<Rightarrow> string list" where
  "bodies fs = map (\<lambda>f. the (map_of fs f)) (migration_files fs)"

definition migrated :: "'p sql \<Rightarrow> (string \<times> string) list \<Rightarrow> 'p \<Rightarrow> nat \<Rightarrow> 'p pg \<Rightarrow> bool" where
  "migrated sql fs p0 n s \<longleftrightarrow>
     n \<le> length (versions fs) \<and> (case pg_versions s of None \<Rightarrow> n = 0 | Some vs \<Rightarrow> vs = take n (versions fs)) \<and>
     run_all sql (take n (bodies fs)) p0 = Some (pg_rest s)"

lemma run_all_append: "run_all sql (bs @ cs) p = Option.bind (run_all sql bs p) (run_all sql cs)"
  by (induction bs arbitrary: p) (auto split: bind_split)

lemma run_all_snoc: "run_all sql (bs @ [b]) p = Option.bind (run_all sql bs p) (sql b)"
  by (simp add: run_all_append cong: bind_option_cong)

lemma TrimSuffix_append: "HasSuffix s suf \<Longrightarrow> TrimSuffix s suf @ suf = s"
  by (metis HasSuffix_def TrimSuffix_def append_take_drop_id)

lemma files_ok:
  assumes "distinct (map fst fs)"
  shows "distinct (versions fs)" "f \<in> set (migration_files fs) \<Longrightarrow> \<exists>b. map_of fs f = Some b"
    "length (bodies fs) = length (versions fs)"
proof -
  have suf: "HasSuffix f up_sql" if "f \<in> set (migration_files fs)" for f using that by (simp add: migration_files_def)
  have "inj_on (\<lambda>f. TrimSuffix f up_sql) (set (migration_files fs))" by (intro inj_onI) (metis suf TrimSuffix_append)
  moreover have "distinct (migration_files fs)" using assms by (simp add: migration_files_def)
  ultimately show "distinct (versions fs)" by (simp add: versions_def distinct_map)
  show "\<exists>b. map_of fs f = Some b" if "f \<in> set (migration_files fs)"
    using that weak_map_of_SomeI[of f _ fs] by (auto simp: migration_files_def)
  show "length (bodies fs) = length (versions fs)" by (simp add: bodies_def versions_def)
qed

text \<open>A file: a statement that only reads leaves the state alone, and the transaction is all or nothing.\<close>

lemma stmt_reads:
  assumes "stmt e k m s = (r, t)" "\<And>s. snd (m s) = s" shows "t = s \<and> (\<forall>x. r = Inr x \<longrightarrow> m s = (Inr x, s))"
proof -
  obtain r' where "m s = (r', s)" using assms(2)[of s] by (metis prod.collapse)
  then show ?thesis using assms(1) by (cases "e_outcome e k") (auto simp: stmt_def throw_def)
qed

lemma tx_result: "tx e k m s = (r, t) \<Longrightarrow> (\<exists>y. m s = (Inr y, t)) \<or> t = s \<and> (\<exists>x. r = Inl x)"
  by (auto simp: tx_def split: prod.splits sum.splits outcome.splits)

lemma migrate_one_cases:
  assumes run: "migrate_one e k sql fs f s = (r, t)" and vs: "pg_versions s = Some vs" and b: "map_of fs f = Some b"
  shows "t = s \<and> (r = Inr () \<longrightarrow> TrimSuffix f up_sql \<in> set vs) \<or>
    TrimSuffix f up_sql \<notin> set vs \<and>
    (\<exists>p. sql b (pg_rest s) = Some p \<and> t = s\<lparr>pg_rest := p, pg_versions := Some (vs @ [TrimSuffix f up_sql])\<rparr>)"
proof -
  let ?v = "TrimSuffix f up_sql"
  let ?rest = "tx e (k + 4) (andThen (stmt e (k + 2) (run_sql sql b)) (\<lambda>_. stmt e (k + 3) (insert_version ?v)))"
  obtain r1 s1 where one: "stmt e k (version_exists ?v) s = (r1, s1)" by fastforce
  have s1: "s1 = s" "\<And>x. r1 = Inr x \<Longrightarrow> x \<longleftrightarrow> ?v \<in> set vs"
    using stmt_reads[OF one] vs by (auto simp: version_exists_def split: option.splits)
  obtain r2 s2 where two: "stmt e (k + 1) (ret ()) s = (r2, s2)" by fastforce
  have s2: "s2 = s" using stmt_reads[OF two] by (simp add: ret_def)
  have new: "t = s \<and> r \<noteq> Inr () \<or> (\<exists>p. sql b (pg_rest s) = Some p \<and> t = s\<lparr>pg_rest := p, pg_versions := Some (vs @ [?v])\<rparr>)"
    if "?rest s = (r, t)"
    using tx_result[OF that] vs
    by (auto simp: act_simps run_sql_def insert_version_def split: option.splits if_splits)
  show ?thesis
  proof (cases r1)
    case (Inr x)
    with one two run s1 s2 b show ?thesis using new
      by (cases r2) (auto simp: migrate_one_def Let_def andThen_def ret_def split: if_splits)
  qed (use one run s1 in \<open>auto simp: migrate_one_def Let_def andThen_def\<close>)
qed

text \<open>From the files before the \<open>i\<close>-th being in, one file more.\<close>

lemma migrate_one_step:
  assumes fs: "distinct (map fst fs)" and n: "migrated sql fs p0 n s" "pg_versions s \<noteq> None"
    and i: "i < length (versions fs)" "i \<le> n" and run: "migrate_one e k sql fs (migration_files fs ! i) s = (r, t)"
  shows "\<exists>m. n \<le> m \<and> migrated sql fs p0 m t \<and> pg_versions t \<noteq> None \<and> (r = Inr () \<longrightarrow> i < m)"
proof -
  let ?f = "migration_files fs ! i" and ?v = "versions fs ! i"
  have mem: "?f \<in> set (migration_files fs)" using i(1) by (simp add: versions_def)
  obtain b where b: "map_of fs ?f = Some b" using files_ok(2)[OF fs mem] by blast
  have v: "TrimSuffix ?f up_sql = ?v" "bodies fs ! i = b" using i(1) b by (simp_all add: versions_def bodies_def)
  have vs: "pg_versions s = Some (take n (versions fs))" and p: "run_all sql (take n (bodies fs)) p0 = Some (pg_rest s)"
    using n by (auto simp: migrated_def split: option.splits)
  have isin: "?v \<in> set (take n (versions fs)) \<longleftrightarrow> i < n"
    using files_ok(1)[OF fs] i(1) by (auto simp: in_set_conv_nth nth_eq_iff_index_eq)
  from migrate_one_cases[OF run vs b] show ?thesis unfolding v(1) isin
  proof (elim disjE conjE exE)
    assume "t = s" "r = Inr () \<longrightarrow> i < n"
    then show ?thesis using n by (intro exI[of _ n]) simp
  next
    fix p' assume new: "\<not> i < n" "sql b (pg_rest s) = Some p'" "t = s\<lparr>pg_rest := p', pg_versions := Some (take n (versions fs) @ [?v])\<rparr>"
    then have "n = i" using i(2) by simp
    then have "migrated sql fs p0 (Suc n) t"
      using i(1) p new v(2) files_ok(3)[OF fs] by (simp add: migrated_def take_Suc_conv_app_nth run_all_snoc)
    then show ?thesis using new(3) \<open>n = i\<close> by (intro exI[of _ "Suc n"]) simp
  qed
qed

lemma migrate_loop_steps:
  assumes fs: "distinct (map fst fs)" and "migrated sql fs p0 n s" "pg_versions s \<noteq> None" "i \<le> n" "i \<le> length (versions fs)"
    and "migrate_loop e k sql fs (drop i (migration_files fs)) s = (r, t)"
  shows "\<exists>m. n \<le> m \<and> migrated sql fs p0 m t \<and> pg_versions t \<noteq> None \<and> (r = Inr () \<longrightarrow> m = length (versions fs))"
  using assms(2-)
proof (induction "length (versions fs) - i" arbitrary: i n s k)
  case 0
  have "length (migration_files fs) \<le> i" using 0 by (simp add: versions_def)
  then show ?case using 0 by (intro exI[of _ n]) (auto simp: ret_def migrated_def)
next
  case (Suc d)
  then have i: "i < length (versions fs)" by simp
  have d: "drop i (migration_files fs) = migration_files fs ! i # drop (Suc i) (migration_files fs)"
    using i by (simp add: versions_def Cons_nth_drop_Suc)
  obtain r1 s1 where one: "migrate_one e k sql fs (migration_files fs ! i) s = (r1, s1)" by fastforce
  obtain m where m: "n \<le> m" "migrated sql fs p0 m s1" "pg_versions s1 \<noteq> None" "r1 = Inr () \<longrightarrow> i < m"
    using migrate_one_step[OF fs Suc.prems(1,2) i Suc.prems(3) one] by blast
  show ?case
  proof (cases r1)
    case (Inl x)
    then show ?thesis using Suc.prems(5) one m unfolding d by (intro exI[of _ m]) (auto simp: andThen_def)
  next
    case (Inr u)
    then have "migrate_loop e (k + 5) sql fs (drop (Suc i) (migration_files fs)) s1 = (r, t)"
      using Suc.prems(5) one unfolding d by (simp add: andThen_def)
    moreover have "d = length (versions fs) - Suc i" "Suc i \<le> m" using Suc.hyps(2) m(4) Inr by auto
    ultimately obtain m' where "m \<le> m'" "migrated sql fs p0 m' t" "pg_versions t \<noteq> None" "r = Inr () \<longrightarrow> m' = length (versions fs)"
      using Suc.hyps(1)[of "Suc i" m s1 "k + 5"] m(2,3) i by auto
    then show ?thesis using m(1) by (intro exI[of _ m']) simp
  qed
qed

lemma Migrate_steps:
  assumes fs: "distinct (map fst fs)" and s: "migrated sql fs p0 n s" and run: "Migrate e sql fs s = (r, t)"
  shows "\<exists>m. n \<le> m \<and> migrated sql fs p0 m t \<and> (r = Inr () \<longrightarrow> m = length (versions fs))"
proof -
  let ?s1 = "s\<lparr>pg_versions := Some (case pg_versions s of None \<Rightarrow> [] | Some vs \<Rightarrow> vs)\<rparr>"
  have s1: "migrated sql fs p0 n ?s1" using s by (auto simp: migrated_def split: option.splits)
  show ?thesis
  proof (cases "e_outcome e 0")
    case Done
    then have "migrate_loop e 1 sql fs (drop 0 (migration_files fs)) ?s1 = (r, t)"
      using run by (simp add: Migrate_def andThen_def stmt_def ensure_table_def)
    from migrate_loop_steps[OF fs s1 _ _ _ this] show ?thesis by auto
  qed (use run s s1 in \<open>auto simp: Migrate_def andThen_def stmt_def ensure_table_def throw_def\<close>)
qed

text \<open>
  C27. Migrating is safe to repeat and to interrupt: wherever the database server fails, the schema is
  that of the first migrations in the order of their names, exactly those that are recorded, each
  applied once; a further run goes on from there and never back, and a run that returns without an
  error has applied all of them.
\<close>

theorem Migrate_resumes:
  assumes "distinct (map fst fs)" "migrated sql fs p0 n s" "Migrate e sql fs s = (r, t)"
  shows "\<exists>m. n \<le> m \<and> migrated sql fs p0 m t \<and> (r = Inr () \<longrightarrow> m = length (versions fs))"
  by (rule Migrate_steps[OF assms])


section \<open>A run without failures\<close>

lemma migrate_one_done:
  assumes fine: "\<And>k. e_outcome e k = Done" and vs: "pg_versions s = Some vs" and b: "map_of fs f = Some b"
    and ok: "TrimSuffix f up_sql \<notin> set vs \<Longrightarrow> sql b (pg_rest s) \<noteq> None"
  shows "fst (migrate_one e k sql fs f s) = Inr ()"
  using ok
  by (auto simp: migrate_one_def Let_def andThen_def stmt_def tx_def fine version_exists_def vs b ret_def run_sql_def
      insert_version_def)

lemma migrate_loop_done:
  assumes fs: "distinct (map fst fs)" and fine: "\<And>k. e_outcome e k = Done" and all: "run_all sql (bodies fs) p0 \<noteq> None"
    and "migrated sql fs p0 n s" "pg_versions s \<noteq> None" "i \<le> n" "i \<le> length (versions fs)"
  shows "fst (migrate_loop e k sql fs (drop i (migration_files fs)) s) = Inr ()"
  using assms(4-)
proof (induction "length (versions fs) - i" arbitrary: i n s k)
  case 0
  then show ?case by (simp add: versions_def ret_def)
next
  case (Suc d)
  then have i: "i < length (versions fs)" by simp
  let ?f = "migration_files fs ! i"
  have d: "drop i (migration_files fs) = ?f # drop (Suc i) (migration_files fs)" using i by (simp add: versions_def Cons_nth_drop_Suc)
  obtain b where b: "map_of fs ?f = Some b" using files_ok(2)[OF fs, of ?f] i by (auto simp: versions_def)
  have vs: "pg_versions s = Some (take n (versions fs))" and p: "run_all sql (take n (bodies fs)) p0 = Some (pg_rest s)"
    using Suc.prems(1,2) by (auto simp: migrated_def split: option.splits)
  have "sql b (pg_rest s) \<noteq> None" if "TrimSuffix ?f up_sql \<notin> set (take n (versions fs))"
  proof -
    have "\<not> i < n" using that i by (auto simp: versions_def in_set_conv_nth)
    then have "n = i" using Suc.prems(3) by simp
    then have "bodies fs = take n (bodies fs) @ b # drop (Suc i) (bodies fs)"
      using i b files_ok(3)[OF fs] id_take_nth_drop[of i "bodies fs"] by (simp add: bodies_def versions_def)
    then have "run_all sql (b # drop (Suc i) (bodies fs)) (pg_rest s) \<noteq> None"
      using all p by (metis run_all_append bind.bind_lunit)
    then show ?thesis by (cases "sql b (pg_rest s)") simp_all
  qed
  then have ok: "fst (migrate_one e k sql fs ?f s) = Inr ()" by (rule migrate_one_done[OF fine vs b])
  then obtain s1 where one: "migrate_one e k sql fs ?f s = (Inr (), s1)" by (metis prod.collapse)
  obtain m where "n \<le> m" "migrated sql fs p0 m s1" "pg_versions s1 \<noteq> None" "i < m"
    using migrate_one_step[OF fs Suc.prems(1,2) i Suc.prems(3) one] by blast
  then have "fst (migrate_loop e (k + 5) sql fs (drop (Suc i) (migration_files fs)) s1) = Inr ()"
    using Suc.hyps(1)[of "Suc i" m s1 "k + 5"] Suc.hyps(2) i by simp
  then show ?case unfolding d by (simp add: andThen_def one)
qed

text \<open>
  C34. When no statement fails and the migrations run one after the other, migrating from any state an
  earlier run left behind ends, and with all migrations applied; once they are, it changes nothing.
\<close>

theorem Migrate_completes:
  assumes fs: "distinct (map fst fs)" and fine: "\<And>k. e_outcome e k = Done" and all: "run_all sql (bodies fs) p0 \<noteq> None"
    and s: "migrated sql fs p0 n s"
  shows "\<exists>t. Migrate e sql fs s = (Inr (), t) \<and> migrated sql fs p0 (length (versions fs)) t \<and>
     (pg_versions s = Some (versions fs) \<longrightarrow> t = s)"
proof -
  let ?s1 = "s\<lparr>pg_versions := Some (case pg_versions s of None \<Rightarrow> [] | Some vs \<Rightarrow> vs)\<rparr>"
  have s1: "migrated sql fs p0 n ?s1" using s by (auto simp: migrated_def split: option.splits)
  obtain t where t: "migrate_loop e 1 sql fs (drop 0 (migration_files fs)) ?s1 = (Inr (), t)"
  proof -
    have "fst (migrate_loop e 1 sql fs (drop 0 (migration_files fs)) ?s1) = Inr ()"
      by (rule migrate_loop_done[OF fs fine all s1]) simp_all
    then show ?thesis using that by (cases "migrate_loop e 1 sql fs (drop 0 (migration_files fs)) ?s1") simp
  qed
  obtain m where "migrated sql fs p0 m t" "m = length (versions fs)" and vt: "pg_versions t \<noteq> None"
    using migrate_loop_steps[OF fs s1 _ _ _ t] by auto
  then have mt: "migrated sql fs p0 (length (versions fs)) t" by simp
  have run: "Migrate e sql fs s = (Inr (), t)" using t by (simp add: Migrate_def andThen_def stmt_def fine ensure_table_def)
  have same: "t = s" if v: "pg_versions s = Some (versions fs)"
  proof -
    have le: "n \<le> length (versions fs)" and "case pg_versions s of None \<Rightarrow> n = 0 | Some vs \<Rightarrow> vs = take n (versions fs)"
      using s unfolding migrated_def by blast+
    then have "versions fs = take n (versions fs)" unfolding v option.case by blast
    then have "length (versions fs) = length (take n (versions fs))" by (rule arg_cong)
    then have "n = length (versions fs)" using le by simp
    then have "pg_rest t = pg_rest s" using s mt by (simp add: migrated_def)
    moreover have "pg_versions t = Some (versions fs)" using mt vt by (auto simp: migrated_def)
    ultimately show ?thesis using v by (simp add: pg.equality)
  qed
  show ?thesis using run mt same by blast
qed


section \<open>Two migrations\<close>

definition sample_files :: "(string \<times> string) list" where
  "sample_files = [(''0002_b.up.sql'', ''B''), (''0001_a.up.sql'', ''A''), (''README'', '''')]"

definition sample_sql :: "string list sql" where
  "sample_sql body p = (if body = ''B'' \<and> ''A'' \<notin> set p then None else Some (p @ [body]))"

lemma sample_files_simps:
  "distinct (map fst sample_files)" "versions sample_files = [''0001_a'', ''0002_b'']" "bodies sample_files = [''A'', ''B'']"
  by code_simp+

lemma sample_migrated: "migrated sample_sql sample_files [] 0 \<lparr>pg_versions = None, pg_rest = []\<rparr>"
  by (simp add: migrated_def)

theorem Migrate_resumes_witness:
  "\<exists>m t. Migrate (sample_env\<lparr>e_outcome := (\<lambda>k. if k = 7 then Refused else Done)\<rparr>) sample_sql sample_files
       \<lparr>pg_versions = None, pg_rest = []\<rparr> = (Inl ErrDriver, t) \<and> t = \<lparr>pg_versions = Some [''0001_a''], pg_rest = [''A'']\<rparr> \<and>
     migrated sample_sql sample_files [] m t"
proof -
  let ?e = "sample_env\<lparr>e_outcome := (\<lambda>k. if k = 7 then Refused else Done)\<rparr>"
  have "migration_files sample_files = [''0001_a.up.sql'', ''0002_b.up.sql'']" "TrimSuffix ''0001_a.up.sql'' up_sql = ''0001_a''"
    "TrimSuffix ''0002_b.up.sql'' up_sql = ''0002_b''" by code_simp+
  then have "Migrate ?e sample_sql sample_files \<lparr>pg_versions = None, pg_rest = []\<rparr> =
      (Inl ErrDriver, \<lparr>pg_versions = Some [''0001_a''], pg_rest = [''A'']\<rparr>)"
    by (simp add: Migrate_def migrate_one_def Let_def andThen_def stmt_def tx_def ensure_table_def version_exists_def ret_def
        run_sql_def insert_version_def throw_def sample_files_def sample_sql_def)
  with Migrate_resumes[OF sample_files_simps(1) sample_migrated this] show ?thesis by blast
qed

theorem Migrate_completes_witness:
  "\<exists>t. Migrate sample_env sample_sql sample_files \<lparr>pg_versions = Some [''0001_a''], pg_rest = [''A'']\<rparr> = (Inr (), t) \<and>
     pg_versions t = Some [''0001_a'', ''0002_b''] \<and> pg_rest t = [''A'', ''B'']"
proof -
  let ?s = "\<lparr>pg_versions = Some [''0001_a''], pg_rest = [''A'']\<rparr>"
  have s: "migrated sample_sql sample_files [] 1 ?s" by (simp add: migrated_def sample_files_simps sample_sql_def)
  have all: "run_all sample_sql (bodies sample_files) [] = Some [''A'', ''B'']" by (simp add: sample_files_simps sample_sql_def)
  obtain t where t: "Migrate sample_env sample_sql sample_files ?s = (Inr (), t)"
    "migrated sample_sql sample_files [] (length (versions sample_files)) t"
    using Migrate_completes[OF sample_files_simps(1) _ _ s, of sample_env] all by auto
  have "pg_versions t = Some [''0001_a'', ''0002_b'']" "pg_rest t = [''A'', ''B'']"
    using t(2) all by (auto simp: migrated_def sample_files_simps sample_sql_def split: option.splits)
  with t show ?thesis by blast
qed

end
