(* ===== verification/Controld.thy ===== *)
theory Controld
  imports System Migrate
begin

text \<open>
  The start of \<^verbatim>\<open>cmd/aevora-controld/main.go\<close>: settings from the environment, the connection to the
  database, migrations and seed data, and the configuration of the server. Opening and pinging the
  pool (\<^verbatim>\<open>pgxpool\<close>) are parameters.
\<close>

datatype start_error = ConnectError | PingError | StoreError store_error

definition New :: "(string \<Rightarrow> bool) \<Rightarrow> (string \<Rightarrow> bool) \<Rightarrow> string \<Rightarrow> start_error + unit" where
  "New pool_opens pings databaseURL =
     (if \<not> pool_opens databaseURL then Inl ConnectError else if \<not> pings databaseURL then Inl PingError else Inr ())"

definition server_config_of :: "config \<Rightarrow> server_config" where
  "server_config_of cfg =
     \<lparr>sc_EnrollmentSecret = cfg_EnrollmentSecret cfg, sc_AdminToken = cfg_AdminToken cfg,
      sc_HeartbeatTTL = cfg_HeartbeatTTL cfg, sc_JWTSecret = cfg_JWTSecret cfg, sc_AccessTTL = cfg_AccessTTL cfg,
      sc_RefreshTTL = cfg_RefreshTTL cfg, sc_LeaseTTL = cfg_LeaseTTL cfg, sc_ClientDNS = cfg_ClientDNS cfg,
      sc_ProbePort = cfg_ProbePort cfg, sc_AuthRatePerMin = cfg_AuthRatePerMin cfg, sc_AuthBurst = cfg_AuthBurst cfg,
      sc_TrustProxy = cfg_TrustProxy cfg\<rparr>"

text \<open>Up to the moment the server listens; \<open>e1\<close> and \<open>e2\<close> are the environments of the two calls.\<close>

definition start ::
  "(string \<Rightarrow> bool) \<Rightarrow> (string \<Rightarrow> bool) \<Rightarrow> env \<Rightarrow> env \<Rightarrow> 'p sql \<Rightarrow> (string \<times> string) list \<Rightarrow> string \<Rightarrow> config \<Rightarrow> 'p pg \<Rightarrow>
   (start_error + server_config) \<times> 'p pg" where
  "start pool_opens pings e1 e2 sql migrationsFS seedDevSQL cfg s =
     (case New pool_opens pings (cfg_DatabaseURL cfg) of
        Inl err \<Rightarrow> (Inl err, s)
      | Inr _ \<Rightarrow>
          (case Migrate e1 sql migrationsFS s of
             (Inl err, s1) \<Rightarrow> (Inl (StoreError err), s1)
           | (Inr _, s1) \<Rightarrow>
               if cfg_DevSeed cfg then
                 (case SeedDev e2 sql seedDevSQL s1 of
                    (Inl err, s2) \<Rightarrow> (Inl (StoreError err), s2)
                  | (Inr _, s2) \<Rightarrow> (Inr (server_config_of cfg), s2))
               else (Inr (server_config_of cfg), s1)))"

text \<open>A server that came up without seed data serves the whole schema.\<close>

lemma start_serves_schema:
  assumes "distinct (map fst fs)" "migrated sql fs p0 n s" "\<not> cfg_DevSeed cfg"
    and "start opens pings e1 e2 sql fs seed cfg s = (Inr sc, t)"
  shows "migrated sql fs p0 (length (versions fs)) t \<and> sc = server_config_of cfg"
  using assms Migrate_steps[OF assms(1,2), of e1]
  by (auto simp: start_def split: sum.splits prod.splits)

text \<open>Whatever the environment, clients are given a resolver.\<close>

lemma start_client_dns: "sc_ClientDNS (server_config_of (FromEnv os)) \<noteq> []"
  using getcsv_entries(1)[of "[''9.9.9.9'', ''149.112.112.112'']" os] by (simp add: server_config_of_def FromEnv_def)

section \<open>Serving and stopping\<close>

text \<open>
  The rest of \<open>run\<close>: the goroutine that serves, the two background tasks and the \<open>select\<close> on a
  failed server or a signal. Both ways out cancel the background tasks; a signal lets the requests
  at hand finish (\<open>srv.Shutdown\<close>). \<open>time.NewTicker\<close> panics in the reaper's goroutine when the
  interval is not positive, which ends the process.
\<close>

datatype 'x main_exit = Fatal 'x | ShutDown "'x option" | Crashed

record ('q, 'l, 'x) controld =
  cd_server :: "('q, 'l) server"
  cd_background :: bool
  cd_listening :: bool
  cd_draining :: bool
  cd_errCh :: "'x list"
  cd_exit :: "'x main_exit option"

definition controld_up :: "('q, 'l) server \<Rightarrow> ('q, 'l, 'x) controld" where
  "controld_up sv = \<lparr>cd_server = sv, cd_background = True, cd_listening = True, cd_draining = False,
     cd_errCh = [], cd_exit = None\<rparr>"

inductive controld_step ::
  "('q, 'l) rate_pkg \<Rightarrow> deps \<Rightarrow> (metric list \<Rightarrow> string) \<Rightarrow> server_config \<Rightarrow> duration \<Rightarrow>
   ('q, 'l, 'x) controld \<Rightarrow> ('q, 'l, 'x) controld \<Rightarrow> bool"
  for pkg dp render cfg interval where
  request: "cd_exit c = None \<Longrightarrow>
     controld_step pkg dp render cfg interval c (c\<lparr>cd_server := snd (serve pkg dp render e cfg rq (cd_server c))\<rparr>)"
| tick: "cd_background c \<Longrightarrow> 0 < interval \<Longrightarrow>
     controld_step pkg dp render cfg interval c (c\<lparr>cd_server := reap e1 e2 e3 e4 (sc_HeartbeatTTL cfg) (cd_server c)\<rparr>)"
| reaper_panics: "cd_background c \<Longrightarrow> interval \<le> 0 \<Longrightarrow>
     controld_step pkg dp render cfg interval c
       (c\<lparr>cd_background := False, cd_listening := False, cd_draining := False, cd_exit := Some Crashed\<rparr>)"
| sweep: "cd_background c \<Longrightarrow>
     controld_step pkg dp render cfg interval c
       (c\<lparr>cd_server := (cd_server c)\<lparr>sv_authLimiter := Cleanup now (sv_authLimiter (cd_server c))\<rparr>\<rparr>)"
| server_fails: "cd_listening c \<Longrightarrow>
     controld_step pkg dp render cfg interval c (c\<lparr>cd_listening := False, cd_errCh := cd_errCh c @ [err]\<rparr>)"
| fatal: "cd_exit c = None \<Longrightarrow> \<not> cd_draining c \<Longrightarrow> cd_errCh c = err # errs \<Longrightarrow>
     controld_step pkg dp render cfg interval c (c\<lparr>cd_background := False, cd_errCh := errs, cd_exit := Some (Fatal err)\<rparr>)"
| signal: "cd_exit c = None \<Longrightarrow> \<not> cd_draining c \<Longrightarrow>
     controld_step pkg dp render cfg interval c (c\<lparr>cd_background := False, cd_listening := False, cd_draining := True\<rparr>)"
| drained: "cd_draining c \<Longrightarrow> cd_exit c = None \<Longrightarrow>
     controld_step pkg dp render cfg interval c (c\<lparr>cd_draining := False, cd_exit := Some (ShutDown res)\<rparr>)"

abbreviation controld_steps where
  "controld_steps pkg dp render cfg interval \<equiv> (controld_step pkg dp render cfg interval)\<^sup>*\<^sup>*"

definition controld_inv :: "('q, 'l, 'x) controld \<Rightarrow> bool" where
  "controld_inv c \<longleftrightarrow> store_inv (sv_db (cd_server c)) \<and> (cd_errCh c \<noteq> [] \<longrightarrow> \<not> cd_listening c) \<and>
     (cd_draining c \<longrightarrow> \<not> cd_listening c \<and> \<not> cd_background c) \<and>
     (cd_exit c \<noteq> None \<longrightarrow> \<not> cd_listening c \<and> \<not> cd_background c)"

lemma controld_inv_step:
  assumes "controld_step pkg dp render cfg interval c c'" "controld_inv c" shows "controld_inv c'"
  using assms
proof (induction rule: controld_step.induct)
  case (request c e rq)
  then show ?case by (auto simp: controld_inv_def intro: sys_inv.serve_kept)
next
  case (tick c e1 e2 e3 e4)
  then show ?case by (auto simp: controld_inv_def intro: sys_inv.step_kept[OF step.tick])
qed (auto simp: controld_inv_def)

lemma controld_inv_up: "store_inv (sv_db sv) \<Longrightarrow> controld_inv (controld_up sv)"
  by (simp add: controld_inv_def controld_up_def)

lemma controld_inv_steps:
  "controld_steps pkg dp render cfg interval c c' \<Longrightarrow> controld_inv c \<Longrightarrow> controld_inv c'"
  by (induction rule: rtranclp_induct) (auto intro: controld_inv_step)

lemma exited_step:
  assumes "controld_step pkg dp render cfg interval c c'" "controld_inv c" "cd_exit c \<noteq> None"
  shows "cd_server c' = cd_server c \<and> cd_exit c' = cd_exit c"
  using assms by (cases rule: controld_step.cases) (auto simp: controld_inv_def)

text \<open>
  Whatever the order of requests, background tasks, failures and signals, the constraints of the
  store hold as long as the program runs; once it has left \<open>run\<close>, nothing of it touches the database.
\<close>

theorem controld_stops:
  assumes "store_inv (sv_db sv)" "controld_steps pkg dp render cfg interval (controld_up sv) c"
    and "cd_exit c \<noteq> None" "controld_steps pkg dp render cfg interval c c'"
  shows "store_inv (sv_db (cd_server c)) \<and> cd_server c' = cd_server c"
proof -
  have inv: "controld_inv c" by (rule controld_inv_steps[OF assms(2) controld_inv_up[OF assms(1)]])
  from assms(4) have "controld_inv c' \<and> cd_exit c' = cd_exit c \<and> cd_server c' = cd_server c"
  proof (induction rule: rtranclp_induct)
    case (step d d')
    then show ?case using exited_step[OF step.hyps(2)] controld_inv_step[OF step.hyps(2)] assms(3) by simp
  qed (use inv in simp)
  then show ?thesis using inv by (simp add: controld_inv_def)
qed

text \<open>
  The settings do not rule out an interval of zero, with which the program crashes as soon as its
  reaper starts.
\<close>

lemma reaper_interval_unchecked:
  assumes "os ''AEVORA_REAPER_INTERVAL'' = Some ''0s''"
  shows "cfg_ReaperInterval (FromEnv os) = 0"
    and "controld_step pkg dp render cfg (cfg_ReaperInterval (FromEnv os)) (controld_up sv)
      ((controld_up sv)\<lparr>cd_background := False, cd_listening := False, cd_exit := Some Crashed\<rparr>)"
proof -
  have "ParseDuration ''0s'' = Some 0" by code_simp
  then show zero: "cfg_ReaperInterval (FromEnv os) = 0" using assms by (simp add: FromEnv_def getdur_def)
  show "controld_step pkg dp render cfg (cfg_ReaperInterval (FromEnv os)) (controld_up sv)
      ((controld_up sv)\<lparr>cd_background := False, cd_listening := False, cd_exit := Some Crashed\<rparr>)"
    using controld_step.reaper_panics[of "controld_up sv" "cfg_ReaperInterval (FromEnv os)" pkg dp render cfg]
    by (simp add: zero controld_up_def)
qed

end
