(* ===== verification/Probe.thy ===== *)
theory Probe
  imports Prelude
begin

text \<open>
  The responder of \<^verbatim>\<open>agent/internal/probe/probe.go\<close>: \<open>Serve\<close> binds a listener, then accepts and closes
  connections until its context is cancelled. The function, the goroutine that closes the listener
  and the context run side by side, so they are a step relation; what the network answers (whether
  a bind or an accept succeeds, which ready branch a \<open>select\<close> takes) is the choice of a rule.
\<close>

section \<open>The responder and its goroutine\<close>

text \<open>
  Where \<open>Serve\<close> is: before \<open>net.Listen\<close>, in the \<open>select\<close> after a failed bind, before
  \<open>ln.Accept\<close>, holding an accepted connection, or returned.
\<close>

datatype probe_pc = Binding | Waiting | Accepting | Holding | Returned

record probe =
  pr_pc :: probe_pc
  pr_cancelled :: bool
  pr_listening :: bool
  pr_closer :: bool
  pr_conns :: nat

definition probe_start :: probe where
  "probe_start = \<lparr>pr_pc = Binding, pr_cancelled = False, pr_listening = False, pr_closer = False, pr_conns = 0\<rparr>"

text \<open>
  A listener that is closed accepts nothing; one that is open may fail to accept. Returning runs
  the deferred \<open>ln.Close()\<close>. When the timer and the cancellation are both ready, \<open>select\<close>
  takes either.
\<close>

inductive Serve :: "probe \<Rightarrow> probe \<Rightarrow> bool" where
  cancel: "\<not> pr_cancelled p \<Longrightarrow> Serve p (p\<lparr>pr_cancelled := True\<rparr>)"
| bind: "pr_pc p = Binding \<Longrightarrow> Serve p (p\<lparr>pr_pc := Accepting, pr_listening := True, pr_closer := True\<rparr>)"
| bind_fails: "pr_pc p = Binding \<Longrightarrow> Serve p (p\<lparr>pr_pc := Waiting\<rparr>)"
| give_up: "pr_pc p = Waiting \<Longrightarrow> pr_cancelled p \<Longrightarrow> Serve p (p\<lparr>pr_pc := Returned\<rparr>)"
| retry: "pr_pc p = Waiting \<Longrightarrow> Serve p (p\<lparr>pr_pc := Binding\<rparr>)"
| closer: "pr_closer p \<Longrightarrow> pr_cancelled p \<Longrightarrow> Serve p (p\<lparr>pr_listening := False, pr_closer := False\<rparr>)"
| accept: "pr_pc p = Accepting \<Longrightarrow> pr_listening p \<Longrightarrow> Serve p (p\<lparr>pr_pc := Holding, pr_conns := pr_conns p + 1\<rparr>)"
| close: "pr_pc p = Holding \<Longrightarrow> Serve p (p\<lparr>pr_pc := Accepting, pr_conns := pr_conns p - 1\<rparr>)"
| stop: "pr_pc p = Accepting \<Longrightarrow> pr_cancelled p \<Longrightarrow> Serve p (p\<lparr>pr_pc := Returned, pr_listening := False\<rparr>)"
| again: "pr_pc p = Accepting \<Longrightarrow> \<not> pr_cancelled p \<Longrightarrow> Serve p p"


section \<open>What holds at every moment\<close>

text \<open>
  One connection is open while it is held and none otherwise; the listener is open only between
  the bind and the end, and then the goroutine that will close it is waiting; the function returns
  only after the cancellation.
\<close>

definition probe_inv :: "probe \<Rightarrow> bool" where
  "probe_inv p \<longleftrightarrow>
     pr_conns p = (if pr_pc p = Holding then 1 else 0) \<and>
     (pr_listening p \<longrightarrow> pr_pc p \<in> {Accepting, Holding} \<and> pr_closer p) \<and>
     (pr_pc p \<in> {Accepting, Holding} \<and> \<not> pr_listening p \<longrightarrow> pr_cancelled p) \<and>
     (pr_pc p = Returned \<longrightarrow> pr_cancelled p) \<and>
     (pr_closer p \<longrightarrow> pr_pc p \<in> {Accepting, Holding, Returned})"

lemma probe_inv_start: "probe_inv probe_start"
  by (simp add: probe_inv_def probe_start_def)

lemma probe_inv_Serve: "Serve p q \<Longrightarrow> probe_inv p \<Longrightarrow> probe_inv q"
  by (induction rule: Serve.induct) (auto simp: probe_inv_def)

lemma probe_inv_run: "Serve\<^sup>*\<^sup>* p q \<Longrightarrow> probe_inv p \<Longrightarrow> probe_inv q"
  by (induction rule: rtranclp_induct) (auto intro: probe_inv_Serve)

theorem probe_reachable:
  assumes "Serve\<^sup>*\<^sup>* probe_start p"
  shows "pr_conns p \<le> 1" "pr_pc p = Returned \<Longrightarrow> pr_cancelled p \<and> \<not> pr_listening p \<and> pr_conns p = 0"
  using probe_inv_run[OF assms probe_inv_start] by (auto simp: probe_inv_def)


section \<open>Stopping\<close>

text \<open>
  After the cancellation the steps left are bounded once the bind is through and the goroutine has
  closed the listener: closing the connection at hand, and returning from the failed accept.
\<close>

definition steps_left :: "probe \<Rightarrow> nat" where
  "steps_left p = (case pr_pc p of Holding \<Rightarrow> 2 | Accepting \<Rightarrow> 1 | _ \<Rightarrow> 0)"

definition closing :: "probe \<Rightarrow> bool" where
  "closing p \<longleftrightarrow> pr_cancelled p \<and> \<not> pr_listening p \<and> \<not> pr_closer p \<and> pr_pc p \<in> {Accepting, Holding, Returned}"

lemma closing_Serve:
  assumes "closing p" "Serve p q" shows "closing q \<and> steps_left q < steps_left p"
  using assms(2,1) by (cases rule: Serve.cases) (auto simp: closing_def steps_left_def)

lemma closing_run: "(Serve ^^ n) p q \<Longrightarrow> closing p \<Longrightarrow> closing q \<and> n + steps_left q \<le> steps_left p"
proof (induction n arbitrary: q)
  case (Suc n)
  then obtain r where "(Serve ^^ n) p r" "Serve r q" by auto
  with Suc closing_Serve[of r q] show ?case by fastforce
qed simp

lemma closing_stuck: "closing p \<Longrightarrow> pr_pc p \<noteq> Returned \<Longrightarrow> \<exists>q. Serve p q"
  by (auto simp: closing_def intro: Serve.close Serve.stop)

text \<open>
  C35. The latency responder stops: in a state it can reach from its start in which the context is
  cancelled and the goroutine has closed the listener, every run has at most two more steps, a run that
  cannot go on has returned, and then no connection and no listener is left open.
\<close>

theorem Serve_stops:
  assumes "Serve\<^sup>*\<^sup>* probe_start p" "pr_cancelled p" "pr_pc p \<in> {Accepting, Holding}" "\<not> pr_closer p"
    and "(Serve ^^ n) p q"
  shows "n \<le> 2 \<and> ((\<nexists>r. Serve q r) \<longleftrightarrow> pr_pc q = Returned) \<and>
    (pr_pc q = Returned \<longrightarrow> pr_conns q = 0 \<and> \<not> pr_listening q)"
proof -
  from probe_inv_run[OF assms(1) probe_inv_start] assms(2-4) have "closing p"
    by (auto simp: closing_def probe_inv_def)
  from closing_run[OF assms(5) this] have q: "closing q" "n + steps_left q \<le> steps_left p" by auto
  have "steps_left p \<le> 2" by (simp add: steps_left_def split: probe_pc.split)
  moreover have "\<nexists>r. Serve q r" if "pr_pc q = Returned"
    using closing_Serve[OF q(1)] that by (auto simp: steps_left_def)
  moreover have "Serve\<^sup>*\<^sup>* probe_start q"
    using assms(1) relpowp_imp_rtranclp[OF assms(5)] by (rule rtranclp_trans)
  ultimately show ?thesis using q closing_stuck[OF q(1)] probe_reachable(2) by fastforce
qed

text \<open>A connection arrives, the context is cancelled while it is held, and the responder ends.\<close>

definition probe_held :: probe where
  "probe_held = \<lparr>pr_pc = Holding, pr_cancelled = True, pr_listening = False, pr_closer = False, pr_conns = 1\<rparr>"

definition probe_done :: probe where
  "probe_done = \<lparr>pr_pc = Returned, pr_cancelled = True, pr_listening = False, pr_closer = False, pr_conns = 0\<rparr>"

lemma probe_held_reachable: "Serve\<^sup>*\<^sup>* probe_start probe_held"
proof -
  have "Serve\<^sup>*\<^sup>* probe_start (probe_start\<lparr>pr_pc := Accepting, pr_listening := True, pr_closer := True\<rparr>)" (is "Serve\<^sup>*\<^sup>* _ ?a")
    by (rule r_into_rtranclp, rule Serve.bind) (simp add: probe_start_def)
  also have "Serve\<^sup>*\<^sup>* ?a (?a\<lparr>pr_pc := Holding, pr_conns := pr_conns ?a + 1\<rparr>)" (is "Serve\<^sup>*\<^sup>* _ ?b")
    by (rule r_into_rtranclp, rule Serve.accept) simp_all
  also have "Serve\<^sup>*\<^sup>* ?b (?b\<lparr>pr_cancelled := True\<rparr>)" (is "Serve\<^sup>*\<^sup>* _ ?c")
    by (rule r_into_rtranclp, rule Serve.cancel) (simp add: probe_start_def)
  also have "Serve\<^sup>*\<^sup>* ?c (?c\<lparr>pr_listening := False, pr_closer := False\<rparr>)"
    by (rule r_into_rtranclp, rule Serve.closer) simp_all
  finally show ?thesis by (simp add: probe_start_def probe_held_def)
qed

lemma probe_held_done: "(Serve ^^ 2) probe_held probe_done"
  using Serve.close[of probe_held] Serve.stop[of "probe_held\<lparr>pr_pc := Accepting, pr_conns := 0\<rparr>"]
  by (auto simp: numeral_2_eq_2 probe_held_def probe_done_def)

theorem Serve_stops_witness: "(\<nexists>r. Serve probe_done r) \<and> pr_conns probe_done = 0"
  using Serve_stops[OF probe_held_reachable _ _ _ probe_held_done]
  by (simp add: probe_held_def probe_done_def)


section \<open>What cancellation does not bound\<close>

text \<open>
  Before that, nothing forces progress: an accept that keeps failing while the listener is open
  (no file descriptors left) is retried at once and without end, and a cancelled responder whose
  address cannot be bound may take the timer again and again.
\<close>

theorem Serve_spins:
  assumes "pr_pc p = Accepting" "\<not> pr_cancelled p" shows "(Serve ^^ n) p p"
  by (induction n) (use Serve.again[OF assms] in auto)

theorem Serve_keeps_binding:
  assumes "pr_pc p = Waiting" shows "(Serve ^^ (2 * n)) p p"
proof (induction n)
  case (Suc n)
  have "p\<lparr>pr_pc := Waiting\<rparr> = p" using assms by (cases p) simp
  then have "Serve p (p\<lparr>pr_pc := Binding\<rparr>)" "Serve (p\<lparr>pr_pc := Binding\<rparr>) p"
    using Serve.retry[OF assms] Serve.bind_fails[of "p\<lparr>pr_pc := Binding\<rparr>"] by simp_all
  with Suc show ?case by (auto intro: relcomppI)
qed simp

end
