(* ===== verification/Metrics.thy ===== *)
theory Metrics
  imports System
begin

text \<open>
  \<^verbatim>\<open>internal/metrics/metrics.go\<close>: what the recorded metrics do to the collectors. The Prometheus
  client library is a parameter, with what its documentation says of counters and gauges as the
  hypothesis \<open>prometheus_ok\<close>; the order in which Go visits the map of a snapshot is another.
\<close>

datatype vec = ConnectionsTotal | AuthTotal | gatewaysByStatus

record 'p prometheus =
  pm_inc :: "vec \<Rightarrow> string \<Rightarrow> 'p \<Rightarrow> 'p"
  pm_reset :: "vec \<Rightarrow> 'p \<Rightarrow> 'p"
  pm_set :: "vec \<Rightarrow> string \<Rightarrow> rat \<Rightarrow> 'p \<Rightarrow> 'p"
  pm_set_active :: "rat \<Rightarrow> 'p \<Rightarrow> 'p"
  pm_read :: "'p \<Rightarrow> vec \<Rightarrow> string \<Rightarrow> rat option"
  pm_active :: "'p \<Rightarrow> rat"

definition incremented :: "rat option \<Rightarrow> rat" where
  "incremented v = f64 ((case v of None \<Rightarrow> 0 | Some x \<Rightarrow> x) + 1)"

definition prometheus_ok :: "'p prometheus \<Rightarrow> bool" where
  "prometheus_ok pm \<longleftrightarrow> (\<forall>p v l x.
     pm_read pm (pm_inc pm v l p) = (pm_read pm p)(v := (pm_read pm p v)(l \<mapsto> incremented (pm_read pm p v l))) \<and>
     pm_read pm (pm_reset pm v p) = (pm_read pm p)(v := Map.empty) \<and>
     pm_read pm (pm_set pm v l x p) = (pm_read pm p)(v := (pm_read pm p v)(l \<mapsto> x)) \<and>
     pm_read pm (pm_set_active pm x p) = pm_read pm p \<and> pm_active pm (pm_set_active pm x p) = x)"

text \<open>\<open>UpdateFleet\<close>, over the statuses of the snapshot in the order \<open>ord\<close>.\<close>

definition set_statuses ::
  "'p prometheus \<Rightarrow> (gateway_status \<Rightarrow> nat option) \<Rightarrow> gateway_status list \<Rightarrow> 'p \<Rightarrow> 'p" where
  "set_statuses pm counts sts =
     fold (\<lambda>st. pm_set pm gatewaysByStatus (status_text st) (f64 (of_nat (the (counts st))))) sts"

definition record_metric ::
  "'p prometheus \<Rightarrow> ((gateway_status \<Rightarrow> nat option) \<Rightarrow> gateway_status list) \<Rightarrow> metric \<Rightarrow> 'p \<Rightarrow> 'p" where
  "record_metric pm ord m p =
     (case m of
        ConnCreated \<Rightarrow> pm_inc pm ConnectionsTotal ''created'' p
      | ConnFailed reason \<Rightarrow> pm_inc pm ConnectionsTotal reason p
      | AuthMetric r \<Rightarrow> pm_inc pm AuthTotal r p
      | UpdateFleet counts n \<Rightarrow>
          pm_set_active pm (f64 (of_nat n))
            (set_statuses pm counts (ord counts) (pm_reset pm gatewaysByStatus p)))"

definition map_order_ok :: "((gateway_status \<Rightarrow> nat option) \<Rightarrow> gateway_status list) \<Rightarrow> bool" where
  "map_order_ok ord \<longleftrightarrow> (\<forall>counts. set (ord counts) = dom counts \<and> distinct (ord counts))"


section \<open>Gauges\<close>

lemma status_text_inj: "status_text a = status_text b \<longleftrightarrow> a = b"
  by (cases a; cases b) simp_all

lemma read_set_statuses:
  assumes "prometheus_ok pm"
  shows "pm_read pm (set_statuses pm counts sts p) v l =
    (if v = gatewaysByStatus \<and> (\<exists>st\<in>set sts. status_text st = l)
     then Some (f64 (of_nat (the (counts (THE st. status_text st = l))))) else pm_read pm p v l)"
  unfolding set_statuses_def
proof (induction sts arbitrary: p)
  case (Cons st sts)
  have "(THE x. status_text x = status_text st) = st" by (rule the_equality) (simp_all add: status_text_inj)
  then show ?case using assms Cons by (auto simp: prometheus_ok_def)
qed simp

text \<open>
  After a refresh the gauges show the snapshot and nothing older: a status no gateway has any more
  has no gauge. The counters are as before.
\<close>

theorem UpdateFleet_gauges:
  assumes "prometheus_ok pm" "map_order_ok ord"
  shows "pm_read pm (record_metric pm ord (UpdateFleet counts n) p) gatewaysByStatus (status_text st) =
           map_option (\<lambda>k. f64 (of_nat k)) (counts st)"
    and "pm_active pm (record_metric pm ord (UpdateFleet counts n) p) = f64 (of_nat n)"
    and "v \<noteq> gatewaysByStatus \<Longrightarrow> pm_read pm (record_metric pm ord (UpdateFleet counts n) p) v = pm_read pm p v"
proof -
  have the: "(THE x. status_text x = status_text st) = st" by (rule the_equality) (simp_all add: status_text_inj)
  have ord: "set (ord counts) = dom counts" using assms(2) by (simp add: map_order_ok_def)
  show "pm_read pm (record_metric pm ord (UpdateFleet counts n) p) gatewaysByStatus (status_text st) =
      map_option (\<lambda>k. f64 (of_nat k)) (counts st)"
    using assms(1) read_set_statuses[OF assms(1), of counts "ord counts" "pm_reset pm gatewaysByStatus p"]
    by (cases "counts st") (auto simp: record_metric_def prometheus_ok_def the ord status_text_inj)
  show "pm_active pm (record_metric pm ord (UpdateFleet counts n) p) = f64 (of_nat n)"
    using assms(1) by (simp add: record_metric_def prometheus_ok_def)
  show "pm_read pm (record_metric pm ord (UpdateFleet counts n) p) v = pm_read pm p v" if "v \<noteq> gatewaysByStatus"
    using assms(1) read_set_statuses[OF assms(1)] that by (simp add: record_metric_def prometheus_ok_def fun_eq_iff)
qed

text \<open>
  C29. A tick of the reaper whose snapshot goes through publishes the fleet as it then is: for every
  status that gateways have the gauge shows their number, a status without gateways has no gauge, and
  the number of sessions is that of the active leases.
\<close>

theorem reap_publishes_fleet:
  assumes "prometheus_ok pm" "map_order_ok ord"
    and "reaper_tick e1 e2 e3 e4 ttl (sv_db sv) = (s, Some snap)"
  shows "pm_read pm (fold (record_metric pm ord) (sv_metrics (reap e1 e2 e3 e4 ttl sv)) p) gatewaysByStatus (status_text st) =
      (let n = length (filter (\<lambda>g. gw_status g = st) (gateways s)) in if n = 0 then None else Some (f64 (of_nat n))) \<and>
    pm_active pm (fold (record_metric pm ord) (sv_metrics (reap e1 e2 e3 e4 ttl sv)) p) =
      f64 (of_nat (length (filter active (leases s))))"
proof -
  obtain counts n where snap: "snap = (counts, n)" by (cases snap)
  have "counts = gateways_by_status s" "n = length (filter active (leases s))"
    using assms(3) unfolding snap
    by (auto simp: reaper_tick_def FleetSnapshot_def act_simps count_where_def Let_def split: prod.splits sum.splits)
  then show ?thesis
    using UpdateFleet_gauges[OF assms(1,2)] assms(3)
    by (simp add: reap_def snap gateways_by_status_def count_where_def Let_def)
qed


section \<open>Counters\<close>

text \<open>The recorded attempts that count for a label of \<open>aevora_connections_total\<close>.\<close>

definition attempts :: "string \<Rightarrow> metric list \<Rightarrow> nat" where
  "attempts l ms = length (filter (\<lambda>m. m = ConnFailed l \<or> m = ConnCreated \<and> l = ''created'') ms)"

lemma f64_of_nat: "n \<le> 2 ^ 53 \<Longrightarrow> f64 (of_nat n) = of_nat n"
  using f64_small_int[of "int n"] by (simp add: of_nat_le_iff[of n "2 ^ 53", where 'a = int, symmetric])

text \<open>The counter of connection attempts is exact (up to the 53 bits of a float).\<close>

theorem connections_counted:
  assumes "prometheus_ok pm" "map_order_ok ord" "pm_read pm p ConnectionsTotal l = None" "length ms \<le> 2 ^ 53"
  shows "pm_read pm (fold (record_metric pm ord) ms p) ConnectionsTotal l =
    (if attempts l ms = 0 then None else Some (of_nat (attempts l ms)))"
  using assms(4)
proof (induction ms rule: rev_induct)
  case (snoc m ms)
  let ?q = "fold (record_metric pm ord) ms p"
  have IH: "pm_read pm ?q ConnectionsTotal l = (if attempts l ms = 0 then None else Some (of_nat (attempts l ms)))"
    using snoc by simp
  have "attempts l ms \<le> length ms" by (simp add: attempts_def)
  then have "incremented (pm_read pm ?q ConnectionsTotal l) = of_nat (attempts l ms + 1)"
    using snoc.prems f64_of_nat[of "attempts l ms + 1"] by (auto simp: IH incremented_def add.commute)
  then show ?case
    using IH assms(1) UpdateFleet_gauges(3)[OF assms(1,2), of ConnectionsTotal]
    by (cases m) (auto simp: attempts_def record_metric_def[of pm ord ConnCreated]
        record_metric_def[of pm ord "ConnFailed _"] record_metric_def[of pm ord "AuthMetric _"] prometheus_ok_def)
qed (simp add: assms(3) attempts_def)


section \<open>A registry\<close>

definition sample_prometheus :: "((vec \<Rightarrow> string \<Rightarrow> rat option) \<times> rat) prometheus" where
  "sample_prometheus =
     \<lparr>pm_inc = \<lambda>v l p. ((fst p)(v := (fst p v)(l \<mapsto> incremented (fst p v l))), snd p),
      pm_reset = \<lambda>v p. ((fst p)(v := Map.empty), snd p),
      pm_set = \<lambda>v l x p. ((fst p)(v := (fst p v)(l \<mapsto> x)), snd p),
      pm_set_active = \<lambda>x p. (fst p, x), pm_read = fst, pm_active = snd\<rparr>"

definition sample_map_order :: "(gateway_status \<Rightarrow> nat option) \<Rightarrow> gateway_status list" where
  "sample_map_order counts = filter (\<lambda>st. counts st \<noteq> None)
     [GatewayPending, GatewayHealthy, GatewayUnhealthy, GatewayDraining, GatewayDisabled, GatewayNoStatus]"

lemma sample_prometheus_ok: "prometheus_ok sample_prometheus"
  by (simp add: prometheus_ok_def sample_prometheus_def)

lemma sample_map_order_ok: "map_order_ok sample_map_order"
proof -
  have "st \<in> set (sample_map_order counts) \<longleftrightarrow> st \<in> dom counts" for st counts
    by (cases st) (auto simp: sample_map_order_def)
  moreover have "distinct (sample_map_order counts)" for counts by (simp add: sample_map_order_def)
  ultimately show ?thesis by (auto simp: map_order_ok_def)
qed

theorem reap_publishes_fleet_witness:
  "\<exists>s snap. reaper_tick sample_env sample_env sample_env sample_env 30000000000 sample_net = (s, Some snap) \<and>
     pm_active sample_prometheus (fold (record_metric sample_prometheus sample_map_order)
       (sv_metrics (reap sample_env sample_env sample_env sample_env 30000000000 (NewServer sample_pkg sample_cfg sample_net)))
       (\<lambda>_ _. None, 0)) = f64 (of_nat (length (filter active (leases s))))"
proof -
  have "\<exists>s snap. reaper_tick sample_env sample_env sample_env sample_env 30000000000 sample_net = (s, Some snap)"
    by (simp add: reaper_tick_def FleetSnapshot_def Let_def stmt_def andThen_def gets_def ret_def split: prod.split)
  moreover have "sv_db (NewServer sample_pkg sample_cfg sample_net) = sample_net" by (simp add: NewServer_def Let_def)
  ultimately show ?thesis using reap_publishes_fleet[OF sample_prometheus_ok sample_map_order_ok] by metis
qed

end
