(* ===== verification/Concurrent_Connects.thy ===== *)
theory Concurrent_Connects
  imports Lease_Lifecycle Identity_Lifecycle
begin

text \<open>
  Connects that overlap. \<open>CreateConnection\<close> of \<^verbatim>\<open>internal/store/connections.go\<close> is a transaction of several
  statements; here each of its calls is a session that runs statement by statement, and the
  sessions are interleaved with each other and with every other operation of the store. The
  transactions run at PostgreSQL's default level, \<^emph>\<open>read committed\<close>: a statement sees what is
  committed when it starts together with the writes of its own transaction. Rows a transaction has
  updated and the gateway it has selected \<open>FOR UPDATE\<close> stay locked until it ends.
\<close>

section \<open>A session\<close>

text \<open>
  The statement that comes next, with the local variables that are live there. The update that
  releases the device's leases has two moments: it finds its rows, and (perhaps after waiting for
  other transactions) it locks and changes those that still match. \<open>Ended\<close> holds what the call
  returned.
\<close>

datatype connect_at =
    AtBegin | AtCheck | AtRelease device_row | AtUpdate device_row "string list" | AtSelect device_row
  | AtLock device_row gwCandidate | AtUsed device_row gwCandidate
  | AtInsert gwCandidate lease_row | AtCommit gwCandidate lease_row
  | Ended "store_error + connection"

record session =
  ss_env :: env
  ss_userID :: string
  ss_deviceID :: string
  ss_country :: string
  ss_leaseTTL :: duration
  ss_heartbeatTTL :: duration
  ss_at :: connect_at
  ss_rows :: "string list"

definition new_session :: "env \<Rightarrow> string \<Rightarrow> string \<Rightarrow> string \<Rightarrow> duration \<Rightarrow> duration \<Rightarrow> session" where
  "new_session e userID deviceID country leaseTTL heartbeatTTL =
     \<lparr>ss_env = e, ss_userID = userID, ss_deviceID = deviceID, ss_country = country, ss_leaseTTL = leaseTTL,
      ss_heartbeatTTL = heartbeatTTL, ss_at = AtBegin, ss_rows = []\<rparr>"

definition ended :: "session \<Rightarrow> bool" where
  "ended c \<longleftrightarrow> (case ss_at c of Ended _ \<Rightarrow> True | _ \<Rightarrow> False)"

text \<open>What a session has locked or written: a gateway, lease rows (by id), a new lease.\<close>

fun lock_at :: "connect_at \<Rightarrow> string option" where
  "lock_at (AtUsed d g) = Some (g_ID (cand_g g))"
| "lock_at (AtInsert g l) = Some (g_ID (cand_g g))"
| "lock_at (AtCommit g l) = Some (g_ID (cand_g g))"
| "lock_at _ = None"

fun new_at :: "connect_at \<Rightarrow> lease_row list" where
  "new_at (AtCommit g l) = [l]"
| "new_at _ = []"

definition gateway_lock :: "session \<Rightarrow> string option" where
  "gateway_lock c = lock_at (ss_at c)"

definition inserted :: "session \<Rightarrow> lease_row list" where
  "inserted c = new_at (ss_at c)"

definition own_view :: "session \<Rightarrow> db \<Rightarrow> db" where
  "own_view c s = s\<lparr>leases :=
     update_where (\<lambda>l. le_id l \<in> set (ss_rows c)) (release (e_now (ss_env c))) (leases s) @ inserted c\<rparr>"

definition row_locks :: "session list \<Rightarrow> string set" where
  "row_locks cs = \<Union> (set (map (set \<circ> ss_rows) cs))"

text \<open>The moves of a session: to the next statement, or out of the call with a rollback.\<close>

definition goto :: "connect_at \<Rightarrow> session \<Rightarrow> session" where
  "goto a c = c\<lparr>ss_at := a\<rparr>"

definition rollback :: "store_error \<Rightarrow> session \<Rightarrow> session" where
  "rollback err c = c\<lparr>ss_at := Ended (Inl err), ss_rows := []\<rparr>"

definition attempt :: "nat \<Rightarrow> session \<Rightarrow> db \<Rightarrow> (session \<times> db) option \<Rightarrow> (session \<times> db) option" where
  "attempt k c s next = (if e_outcome (ss_env c) k = Done then next else Some (rollback ErrDriver c, s))"

text \<open>
  An insert waits for a transaction that has written a row with the same key: a new lease with the
  same id or address, or the change of a row with that address.
\<close>

definition same_address :: "lease_row \<Rightarrow> lease_row \<Rightarrow> bool" where
  "same_address l k \<longleftrightarrow>
     active l \<and> active k \<and> le_gateway_id l = le_gateway_id k \<and> le_assigned_ip_v4 l = le_assigned_ip_v4 k"

definition must_wait :: "session list \<Rightarrow> db \<Rightarrow> lease_row \<Rightarrow> bool" where
  "must_wait others s l \<longleftrightarrow>
     (\<exists>k\<in>set (concat (map inserted others)). le_id k = le_id l \<or> same_address l k) \<or>
     (\<exists>k\<in>set (leases s). le_id k \<in> row_locks others \<and> same_address l k)"

text \<open>
  One statement of a session next to the sessions \<open>others\<close>, on the committed state \<open>s\<close>;
  \<open>None\<close> means that it waits. The numbers of the statements are those of \<open>connect_tx\<close>.
\<close>

definition connect_step :: "session list \<Rightarrow> session \<Rightarrow> db \<Rightarrow> (session \<times> db) option" where
  "connect_step others c s =
     (case ss_at c of
        AtBegin \<Rightarrow> attempt 0 c s (Some (goto AtCheck c, s))
      | AtCheck \<Rightarrow> attempt 1 c s (Some
          (case find (device_usable (ss_userID c) (ss_deviceID c)) (devices (own_view c s)) of
             None \<Rightarrow> (rollback ErrDeviceNotFound c, s)
           | Some d \<Rightarrow> (goto (AtRelease d) c, s)))
      | AtRelease d \<Rightarrow>
          Some (goto (AtUpdate d (map le_id (filter (of_device (ss_deviceID c)) (leases (own_view c s))))) c, s)
      | AtUpdate d ids \<Rightarrow> attempt 2 c s
          (if set ids \<inter> row_locks others \<noteq> {} then None
           else Some ((goto (AtSelect d) c)\<lparr>ss_rows :=
             map le_id (filter (\<lambda>l. le_id l \<in> set ids \<and> of_device (ss_deviceID c) l) (leases s))\<rparr>, s))
      | AtSelect d \<Rightarrow> attempt 3 c s (Some
          (let cs = candidates (ss_env c) (ss_country c) (ss_heartbeatTTL c) (own_view c s)
           in case Best (map cand_g cs) of
                None \<Rightarrow> (rollback ErrNoGatewayAvailable c, s)
              | Some best \<Rightarrow> (goto (AtLock d (by_id cs (g_ID best))) c, s)))
      | AtLock d g \<Rightarrow> attempt 4 c s
          (if Some (g_ID (cand_g g)) \<in> set (map gateway_lock others) then None
           else Some (goto (AtUsed d g) c, s))
      | AtUsed d g \<Rightarrow> attempt 5 c s (Some
          (case allocateHost (cand_subnetV4 g) (cand_subnetV6 g) (used_addrs (own_view c s) (g_ID (cand_g g))) of
             Inl err \<Rightarrow> (rollback err c, s)
           | Inr (v4, v6) \<Rightarrow>
               (goto (AtInsert g (new_lease (ss_env c) (g_ID (cand_g g)) (ss_deviceID c) (dev_public_key d)
                  v4 v6 (ss_leaseTTL c))) c, s)))
      | AtInsert g l \<Rightarrow> attempt 6 c s
          (if must_wait others s l then None
           else Some (case fst (insert_lease l (own_view c s)) of
             Inl err \<Rightarrow> (rollback err c, s)
           | Inr _ \<Rightarrow> (goto (AtCommit g l) c, s)))
      | AtCommit g l \<Rightarrow> Some
          (case e_outcome (ss_env c) 7 of
             Done \<Rightarrow> (c\<lparr>ss_at := Ended (Inr (connection_of g l)), ss_rows := []\<rparr>, own_view c s)
           | Refused \<Rightarrow> (rollback ErrDriver c, s)
           | Unacknowledged \<Rightarrow> (rollback ErrDriver c, own_view c s))
      | Ended _ \<Rightarrow> None)"


section \<open>Alone\<close>

text \<open>A session with no other one beside it, until its call returns: at most nine statements.\<close>

fun run_alone :: "nat \<Rightarrow> session \<Rightarrow> db \<Rightarrow> session \<times> db" where
  "run_alone 0 c s = (c, s)"
| "run_alone (Suc n) c s = (case connect_step [] c s of None \<Rightarrow> (c, s) | Some (c', s') \<Rightarrow> run_alone n c' s')"

lemma row_locks_Nil [simp]: "row_locks [] = {}"
  by (simp add: row_locks_def)

lemma must_wait_Nil [simp]: "\<not> must_wait [] s l"
  by (simp add: must_wait_def)

lemma run_alone_ended: "ss_at c = Ended r \<Longrightarrow> run_alone n c s = (c, s)"
  by (cases n) (simp_all add: connect_step_def)

text \<open>The rows an update by id changes are those of its condition, since ids are unique.\<close>

lemma update_by_id:
  assumes "distinct (map le_id ls)"
  shows "update_where (\<lambda>l. le_id l \<in> le_id ` {k \<in> set ls. p k}) f ls = update_where p f ls"
  unfolding update_where_def
proof (rule map_cong[OF refl])
  fix l assume "l \<in> set ls"
  then have "le_id l \<in> le_id ` {k \<in> set ls. p k} \<longleftrightarrow> p l"
    using assms by (auto dest: distinct_map_filter_inj)
  then show "(if le_id l \<in> le_id ` {k \<in> set ls. p k} then f l else l) = (if p l then f l else l)" by simp
qed

lemmas session_simps = new_session_def goto_def rollback_def attempt_def ended_def inserted_def

lemma own_view_none: "ss_rows c = [] \<Longrightarrow> inserted c = [] \<Longrightarrow> own_view c s = s"
  by (simp add: own_view_def update_where_none)

lemma own_view_released:
  assumes "distinct (map le_id (leases s))"
    and "ss_rows c = map le_id (filter (of_device dev) (leases s))" "e_now (ss_env c) = e_now e"
  shows "own_view c s = (released_db e dev s)\<lparr>leases := leases (released_db e dev s) @ inserted c\<rparr>"
  using update_by_id[OF assms(1), of "of_device dev"] assms(2,3)
  by (simp add: own_view_def released_db_def)


section \<open>Together\<close>

text \<open>
  What any other operation may do meanwhile: it adds no lease and wakes none, and changes no key of
  a lease, no id of a gateway and no key of a device.
\<close>

definition lease_key :: "lease_row \<Rightarrow> string \<times> string \<times> string \<times> string \<times> string" where
  "lease_key l = (le_id l, le_gateway_id l, le_device_id l, le_client_public_key l, le_assigned_ip_v4 l)"

definition quieter :: "lease_row \<Rightarrow> lease_row \<Rightarrow> bool" where
  "quieter l k \<longleftrightarrow> lease_key k = lease_key l \<and> (active k \<longrightarrow> active l)"

definition quiet :: "db \<Rightarrow> db \<Rightarrow> bool" where
  "quiet s t \<longleftrightarrow>
     list_all2 quieter (leases s) (leases t) \<and> gw_id ` set (gateways s) \<subseteq> gw_id ` set (gateways t) \<and>
     (\<lambda>d. (dev_id d, dev_public_key d)) ` set (devices s) \<subseteq> (\<lambda>d. (dev_id d, dev_public_key d)) ` set (devices t)"

text \<open>A statement outside the sessions waits for the rows they have locked.\<close>

definition untouched :: "string set \<Rightarrow> db \<Rightarrow> db \<Rightarrow> bool" where
  "untouched ids s t \<longleftrightarrow> (\<forall>l\<in>set (leases s). le_id l \<in> ids \<longrightarrow> l \<in> set (leases t))"

definition others :: "nat \<Rightarrow> session list \<Rightarrow> session list" where
  "others i cs = take i cs @ drop (Suc i) cs"

text \<open>
  The sessions and the committed state. A call comes in if \<open>admit\<close> lets it; a session takes its
  next statement, or loses its connection or its context is cancelled, which rolls it back; any
  other operation commits a statement.
\<close>

type_synonym world = "session list \<times> db"

inductive race :: "(session list \<Rightarrow> session \<Rightarrow> bool) \<Rightarrow> world \<Rightarrow> world \<Rightarrow> bool" for admit where
  call: "row_order_ok (e_order e) \<Longrightarrow> c = new_session e userID dev country lt hb \<Longrightarrow> admit cs c \<Longrightarrow>
     race admit (cs, s) (cs @ [c], s)"
| run: "i < length cs \<Longrightarrow> connect_step (others i cs) (cs ! i) s = Some (c, t) \<Longrightarrow>
     race admit (cs, s) (cs[i := c], t)"
| abort: "i < length cs \<Longrightarrow> \<not> ended (cs ! i) \<Longrightarrow> race admit (cs, s) (cs[i := rollback ErrDriver (cs ! i)], s)"
| other: "quiet s t \<Longrightarrow> untouched (row_locks cs) s t \<Longrightarrow> race admit (cs, s) (cs, t)"

abbreviation anyone :: "session list \<Rightarrow> session \<Rightarrow> bool" where
  "anyone \<equiv> \<lambda>_ _. True"

text \<open>The operations of the store are such others.\<close>

lemma quiet_refl: "quiet s s"
  by (simp add: quiet_def quieter_def list_all2_same)

lemma quiet_frame:
  "quiet s0 s \<Longrightarrow> leases t = leases s \<Longrightarrow> gateways t = gateways s \<Longrightarrow> devices t = devices s \<Longrightarrow> quiet s0 t"
  by (simp add: quiet_def)

lemma quiet_leases:
  assumes "quiet s0 s" "\<And>r. lease_key (f r) = lease_key r" "\<And>r. active (f r) \<Longrightarrow> active r"
  shows "quiet s0 (s\<lparr>leases := update_where p f (leases s)\<rparr>)"
proof -
  have "list_all2 quieter ls (update_where p f ks)" if "list_all2 quieter ls ks" for ls ks
    unfolding update_where_def list_all2_map2
    by (rule list_all2_mono[OF that]) (auto simp: quieter_def assms(2) dest: assms(3))
  then show ?thesis using assms(1) by (simp add: quiet_def)
qed

interpretation quiet: statements "quiet s0" for s0
proof (unfold_locales, goal_cases)
  case (3 d)
  show ?case by (rule keepsI) (auto simp: quiet_def insert_device_def)
next
  case (7 f p)
  then show ?case
    by (intro keepsI) (auto simp: quiet_def exec_update_def image_update_where_same)
next
  case (8 f p)
  then show ?case by (intro keepsI) (auto simp: quiet_def exec_update_def image_update_where_same)
next
  case (9 f p)
  then show ?case
    by (intro keepsI) (auto simp: exec_update_def lease_key_def intro!: quiet_leases)
qed (rule keepsI; auto simp: insert_defs exec_update_def elim: quiet_frame)+

lemma quiet_register: "keeps (quiet s0) (RegisterGateway e r)"
proof -
  have "keeps (quiet s0) (upsert_location e c n)" for c n
    by (rule keepsI) (auto simp: upsert_location_def andThen_def insert_location_def ret_def quiet_def split: option.split)
  moreover have "keeps (quiet s0) (upsert_gateway x)" for x
    by (rule keepsI) (auto simp: upsert_gateway_def andThen_def insert_gateway_def ret_def quiet_def
        image_update_where_same reregister_def split: option.split)
  ultimately show ?thesis unfolding RegisterGateway_def Let_def
    by (auto split: option.split prod.split intro!: keeps_throw keeps_tx keeps_andThen keeps_stmt keeps_ret)
qed

lemmas quiet_operations =
  quiet.Enroll_kept quiet.CreateDevice_kept quiet.RevokeDevice_kept quiet.RefreshAccess_kept quiet.CreateInvite_kept
  quiet.SetPassword_kept quiet_register quiet.Heartbeat_kept quiet.DeregisterGateway_kept
  quiet.MarkStaleUnhealthy_kept quiet.ReleaseConnection_kept quiet.RenewConnection_kept
  quiet.ExpireStaleLeases_kept quiet.ExpireLeasesOnUnhealthyGateways_kept

lemma quiet_ids: "quiet s t \<Longrightarrow> map lease_key (leases t) = map lease_key (leases s)"
  unfolding quiet_def by (elim conjE, induction rule: list_all2_induct) (auto simp: quieter_def)

lemma quiet_lease:
  assumes "quiet s t" "k \<in> set (leases t)"
  obtains l where "l \<in> set (leases s)" "quieter l k"
  using assms by (auto simp: quiet_def in_set_conv_nth list_all2_conv_all_nth) blast


section \<open>What the locks give\<close>

text \<open>Two sessions never hold the same gateway or row, and their new leases have different ids.\<close>

definition apart :: "session \<Rightarrow> session \<Rightarrow> bool" where
  "apart c d \<longleftrightarrow>
     (gateway_lock c \<noteq> None \<longrightarrow> gateway_lock c \<noteq> gateway_lock d) \<and>
     set (ss_rows c) \<inter> set (ss_rows d) = {} \<and> le_id ` set (inserted c) \<inter> le_id ` set (inserted d) = {}"

definition all_pairs :: "(session \<Rightarrow> session \<Rightarrow> bool) \<Rightarrow> session list \<Rightarrow> bool" where
  "all_pairs R cs \<longleftrightarrow> (\<forall>i<length cs. \<forall>c\<in>set (others i cs). R (cs ! i) c)"

abbreviation all_apart :: "session list \<Rightarrow> bool" where
  "all_apart \<equiv> all_pairs apart"

text \<open>The devices' keys; and what a lease owes to the tables around it.\<close>

definition keys :: "db \<Rightarrow> (string \<times> string) set" where
  "keys s = (\<lambda>d. (dev_id d, dev_public_key d)) ` set (devices s)"

definition lease_base :: "db \<Rightarrow> bool" where
  "lease_base s \<longleftrightarrow>
     distinct (map le_id (leases s)) \<and>
     distinct (map (\<lambda>l. (le_gateway_id l, le_assigned_ip_v4 l)) (filter active (leases s))) \<and>
     (\<forall>l\<in>set (leases s). (\<exists>a. le_assigned_ip_v4 l = IP_String (PutUint32 a)) \<and>
        (le_device_id l, le_client_public_key l) \<in> keys s)"

text \<open>
  A session about to insert or to commit has an address of its gateway that nobody else has: the
  only active lease with it, if any, is one the session has itself released.
\<close>

definition holds_address :: "db \<Rightarrow> session \<Rightarrow> gwCandidate \<Rightarrow> lease_row \<Rightarrow> bool" where
  "holds_address s c g l \<longleftrightarrow>
     le_gateway_id l = g_ID (cand_g g) \<and> g_ID (cand_g g) \<in> gw_id ` set (gateways s) \<and> active l \<and>
     (\<exists>a. le_assigned_ip_v4 l = IP_String (PutUint32 a)) \<and> le_device_id l = ss_deviceID c \<and>
     (le_device_id l, le_client_public_key l) \<in> keys s \<and>
     (\<forall>k\<in>set (leases s). same_address l k \<longrightarrow> le_id k \<in> set (ss_rows c))"

definition session_ok :: "db \<Rightarrow> session \<Rightarrow> bool" where
  "session_ok s c \<longleftrightarrow> row_order_ok (e_order (ss_env c)) \<and>
     (case ss_at c of
        AtBegin \<Rightarrow> ss_rows c = [] | AtCheck \<Rightarrow> ss_rows c = []
      | AtRelease d \<Rightarrow> ss_rows c = [] \<and> (ss_deviceID c, dev_public_key d) \<in> keys s
      | AtUpdate d _ \<Rightarrow> ss_rows c = [] \<and> (ss_deviceID c, dev_public_key d) \<in> keys s
      | AtSelect d \<Rightarrow> (ss_deviceID c, dev_public_key d) \<in> keys s
      | AtLock d g \<Rightarrow> (ss_deviceID c, dev_public_key d) \<in> keys s \<and> g_ID (cand_g g) \<in> gw_id ` set (gateways s)
      | AtUsed d g \<Rightarrow> (ss_deviceID c, dev_public_key d) \<in> keys s \<and> g_ID (cand_g g) \<in> gw_id ` set (gateways s)
      | AtInsert g l \<Rightarrow> holds_address s c g l
      | AtCommit g l \<Rightarrow> holds_address s c g l \<and> le_id l \<notin> le_id ` set (leases s)
      | Ended _ \<Rightarrow> ss_rows c = [])"

definition race_inv :: "world \<Rightarrow> bool" where
  "race_inv w \<longleftrightarrow> (case w of (cs, s) \<Rightarrow> lease_base s \<and> all_apart cs \<and> (\<forall>c\<in>set cs. session_ok s c))"


subsection \<open>Lists of sessions\<close>

lemma set_others:
  assumes "i < length cs" shows "set (others i cs) = {cs ! j | j. j < length cs \<and> j \<noteq> i}"
proof -
  have "take i cs = map ((!) cs) [0..<i]" "drop (Suc i) cs = map ((!) cs) [Suc i..<length cs]"
    using assms by (auto intro: nth_equalityI)
  then have "set (others i cs) = (!) cs ` ({0..<i} \<union> {Suc i..<length cs})" by (simp add: others_def image_Un)
  also have "{0..<i} \<union> {Suc i..<length cs} = {j. j < length cs \<and> j \<noteq> i}" using assms by auto
  finally show ?thesis by blast
qed

lemma apart_sym: "apart c d \<Longrightarrow> apart d c"
  by (auto simp: apart_def)

lemma symp_apart: "symp apart"
  by (rule sympI) (rule apart_sym)

lemma all_pairs_iff:
  "all_pairs R cs \<longleftrightarrow> (\<forall>i<length cs. \<forall>j<length cs. i \<noteq> j \<longrightarrow> R (cs ! i) (cs ! j))"
  by (auto simp: all_pairs_def set_others)

lemma all_pairs_update:
  assumes "symp R" "all_pairs R cs" "i < length cs" "\<forall>d\<in>set (others i cs). R c d"
  shows "all_pairs R (cs[i := c])"
  using assms unfolding all_pairs_iff
  by (auto simp: nth_list_update set_others intro: sympD)

lemma all_pairs_snoc:
  assumes "symp R" "all_pairs R cs" "\<forall>d\<in>set cs. R c d" shows "all_pairs R (cs @ [c])"
  using assms unfolding all_pairs_iff by (auto simp: nth_append less_Suc_eq intro: sympD)

lemmas all_apart_update = all_pairs_update[OF symp_apart]
lemmas all_apart_snoc = all_pairs_snoc[OF symp_apart]

subsection \<open>The committed state\<close>

lemma own_view_sel [simp]:
  "devices (own_view c s) = devices s" "gateways (own_view c s) = gateways s" "keys (own_view c s) = keys s"
  by (simp_all add: own_view_def keys_def)

lemma active_own_view:
  "filter active (leases (own_view c s)) =
     filter (\<lambda>l. active l \<and> le_id l \<notin> set (ss_rows c)) (leases s) @ filter active (inserted c)"
  by (simp add: own_view_def filter_update_where_drop)

lemma leases_own_view:
  "k \<in> set (leases (own_view c s)) \<Longrightarrow> k \<in> set (inserted c) \<or>
     (\<exists>l\<in>set (leases s). quieter l k \<and> (active k \<longrightarrow> k = l \<and> le_id l \<notin> set (ss_rows c)))"
  by (auto simp: own_view_def set_update_where quieter_def lease_key_def split: if_splits)

lemma active_in_own_view:
  "k \<in> set (leases s) \<Longrightarrow> active k \<Longrightarrow> le_id k \<notin> set (ss_rows c) \<Longrightarrow> k \<in> set (leases (own_view c s))"
  by (auto simp: own_view_def set_update_where)

lemma ids_own_view: "map le_id (leases (own_view c s)) = map le_id (leases s) @ map le_id (inserted c)"
  by (simp add: own_view_def map_update_where_same)

lemma lease_base_canonical:
  "lease_base s \<Longrightarrow> inserted c = [] \<Longrightarrow>
   \<forall>l\<in>set (leases (own_view c s)). \<exists>a. le_assigned_ip_v4 l = IP_String (PutUint32 a)"
  by (auto simp: lease_base_def quieter_def lease_key_def dest!: leases_own_view)

text \<open>A commit adds a lease whose address is free.\<close>

lemma lease_base_commit:
  assumes "lease_base s" "session_ok s c" "ss_at c = AtCommit g l"
  shows "lease_base (own_view c s)"
proof -
  have h: "holds_address s c g l" "le_id l \<notin> le_id ` set (leases s)" and ins: "inserted c = [l]"
    using assms(2,3) by (simp_all add: session_ok_def inserted_def)
  let ?k = "\<lambda>l. (le_gateway_id l, le_assigned_ip_v4 l)"
  let ?old = "filter (\<lambda>l. active l \<and> le_id l \<notin> set (ss_rows c)) (leases s)"
  have "?k l \<notin> set (map ?k ?old)" using h(1) by (force simp: holds_address_def same_address_def)
  moreover have "distinct (map ?k ?old)"
    using assms(1) distinct_map_filterI[of ?k "filter active (leases s)" "\<lambda>l. le_id l \<notin> set (ss_rows c)"]
    by (simp add: lease_base_def conj_commute)
  ultimately have "distinct (map ?k (filter active (leases (own_view c s))))"
    using h(1) by (simp add: active_own_view ins holds_address_def)
  moreover have "distinct (map le_id (leases (own_view c s)))"
    using assms(1) h(2) by (simp add: ids_own_view ins lease_base_def)
  moreover have "\<forall>k\<in>set (leases (own_view c s)). (\<exists>a. le_assigned_ip_v4 k = IP_String (PutUint32 a)) \<and>
      (le_device_id k, le_client_public_key k) \<in> keys s"
    using assms(1) h(1)
    by (auto simp: lease_base_def quieter_def lease_key_def ins holds_address_def dest!: leases_own_view)
  ultimately show ?thesis by (simp add: lease_base_def)
qed

text \<open>Unique indexes on active leases survive leases being ended.\<close>

lemma distinct_active_quieter:
  assumes "list_all2 quieter ls ks" "\<And>l k. lease_key k = lease_key l \<Longrightarrow> f k = f l"
    and "distinct (map f (filter active ls))"
  shows "distinct (map f (filter active ks))"
  using assms(1,3)
proof (induction rule: list_all2_induct)
  case (Cons l ls k ks)
  have "f ` set (filter active ks) \<subseteq> f ` set (filter active ls)"
    using Cons.hyps(2) by (induction rule: list_all2_induct) (auto simp: quieter_def dest: assms(2))
  then show ?case using Cons assms(2)[of k l] by (auto simp: quieter_def split: if_splits)
qed simp

lemma lease_base_quiet:
  assumes "lease_base s" "quiet s t" shows "lease_base t"
proof -
  have "map le_id (leases t) = map le_id (leases s)"
    using arg_cong[OF quiet_ids[OF assms(2)], of "map fst"] by (simp add: lease_key_def comp_def)
  moreover have "distinct (map (\<lambda>l. (le_gateway_id l, le_assigned_ip_v4 l)) (filter active (leases t)))"
    by (rule distinct_active_quieter[of "leases s"])
      (use assms in \<open>simp_all only: lease_base_def quiet_def lease_key_def prod.inject\<close>)
  moreover have "(\<exists>a. le_assigned_ip_v4 k = IP_String (PutUint32 a)) \<and> (le_device_id k, le_client_public_key k) \<in> keys t"
    if k: "k \<in> set (leases t)" for k
  proof -
    obtain l where l: "l \<in> set (leases s)" "quieter l k" by (rule quiet_lease[OF assms(2) k])
    then have "(le_device_id k, le_client_public_key k) \<in> keys s" "\<exists>a. le_assigned_ip_v4 k = IP_String (PutUint32 a)"
      using assms(1) by (simp_all add: lease_base_def quieter_def lease_key_def)
    then show ?thesis using assms(2) by (auto simp: quiet_def keys_def)
  qed
  ultimately show ?thesis using assms(1) by (simp add: lease_base_def)
qed

subsection \<open>The steps of a session\<close>

lemmas step_defs = connect_step_def attempt_def goto_def rollback_def

lemma connect_step_db:
  assumes "connect_step os c s = Some (c', t)"
  shows "t = s \<or> (\<exists>g l. ss_at c = AtCommit g l \<and> t = own_view c s)"
  using assms by (auto simp: step_defs Let_def split: connect_at.splits if_splits option.splits sum.splits
      outcome.splits prod.splits)

lemma by_id_gateway:
  assumes "row_order_ok (e_order e)" "Best (map cand_g (candidates e country hb s)) = Some best"
  shows "g_ID (cand_g (by_id (candidates e country hb s) (g_ID best))) \<in> gw_id ` set (gateways s)"
proof -
  let ?cs = "candidates e country hb s" and ?kv = "map (\<lambda>c. (g_ID (cand_g c), c)) (candidates e country hb s)"
  have "g_ID best \<in> (\<lambda>c. g_ID (cand_g c)) ` set ?cs" using Best_in[OF assms(2)] by auto
  moreover have "fst ` set (rev ?kv) = (\<lambda>c. g_ID (cand_g c)) ` set ?cs" by (simp add: image_image)
  ultimately obtain c where c: "map_of (rev ?kv) (g_ID best) = Some c"
    using map_of_eq_None_iff[of "rev ?kv" "g_ID best"] by (metis option.exhaust)
  then have "c \<in> set ?cs" using map_of_SomeD[OF c] by auto
  then obtain g l where "(g, l) \<in> set (gateway_join s)" "c = scan_candidate s (g, l)"
    by (auto simp: set_candidates[OF assms(1)])
  with c show ?thesis by (auto simp: by_id_def g_ID_scan_candidate set_gateway_join)
qed

text \<open>The address the allocator picks under the lock.\<close>

lemma allocated_address:
  assumes "lease_base s" "inserted c = []"
    and "allocateHost c4 c6 (used_addrs (own_view c s) gid) = Inr (v4, v6)"
  shows "\<exists>a. v4 = IP_String (PutUint32 a)"
    and "k \<in> set (leases s) \<Longrightarrow> on_gateway gid k \<Longrightarrow> le_assigned_ip_v4 k = v4 \<Longrightarrow> le_id k \<in> set (ss_rows c)"
proof -
  obtain a where a: "v4 = IP_String (PutUint32 a)" "a \<notin> used_addrs (own_view c s) gid"
    using assms(3) by (rule allocateHost_fresh)
  then show "\<exists>a. v4 = IP_String (PutUint32 a)" by blast
  show "le_id k \<in> set (ss_rows c)" if k: "k \<in> set (leases s)" "on_gateway gid k" "le_assigned_ip_v4 k = v4"
  proof (rule ccontr)
    assume "le_id k \<notin> set (ss_rows c)"
    with k have "k \<in> set (leases (own_view c s))" by (intro active_in_own_view) (simp_all add: on_gateway_def)
    with k a show False using used_addrs_canonical[OF lease_base_canonical[OF assms(1,2)]] by blast
  qed
qed

lemma holds_address_goto [simp]: "holds_address s (c\<lparr>ss_at := a\<rparr>) g l = holds_address s c g l"
  by (simp add: holds_address_def)

lemma session_ok_step:
  assumes step: "connect_step os c s = Some (c', t)" and base: "lease_base s" and ok: "session_ok s c"
  shows "session_ok t c'"
proof (cases "ss_at c")
  case AtCheck
  then show ?thesis using step ok
    by (auto simp: step_defs session_ok_def keys_def device_usable_def image_iff split: if_splits option.splits
        dest!: find_Some_set) metis
next
  case (AtSelect d)
  have "row_order_ok (e_order (ss_env c))" using ok by (simp add: session_ok_def)
  from by_id_gateway[OF this, of "ss_country c" "ss_heartbeatTTL c" "own_view c s"] AtSelect step ok show ?thesis
    by (auto simp: step_defs session_ok_def Let_def split: if_splits option.splits)
next
  case (AtUsed d g)
  have "inserted c = []" using AtUsed by (simp add: inserted_def)
  note addr = allocated_address[OF base this, of "cand_subnetV4 g" "cand_subnetV6 g" "g_ID (cand_g g)"]
  from AtUsed step ok addr show ?thesis
    by (auto simp: step_defs session_ok_def holds_address_def same_address_def on_gateway_def
        split: if_splits sum.splits)
next
  case (AtInsert g l)
  have "inserted c = []" using AtInsert by (simp add: inserted_def)
  then have "le_id ` set (leases (own_view c s)) = le_id ` set (leases s)"
    using arg_cong[OF ids_own_view[of c s], of set] by simp
  moreover have "le_id l \<notin> le_id ` set (leases (own_view c s))" if "fst (insert_lease l (own_view c s)) = Inr u" for u
    using that by (auto simp: insert_lease_def split: if_splits)
  ultimately show ?thesis using AtInsert step ok
    by (auto simp: step_defs session_ok_def split: if_splits sum.splits)
qed (use step ok in \<open>auto simp: step_defs session_ok_def split: if_splits outcome.splits\<close>)

lemma apart_step:
  assumes step: "connect_step os c s = Some (c', t)" and ok: "session_ok s c" and ap: "\<forall>d\<in>set os. apart c d"
  shows "\<forall>d\<in>set os. apart c' d"
proof (cases "ss_at c")
  case (AtUpdate d ids)
  then show ?thesis using step ap
    by (auto simp: step_defs apart_def disjoint_iff gateway_lock_def inserted_def row_locks_def split: if_splits)
next
  case (AtLock d g)
  then show ?thesis using step ap
    by (auto simp: step_defs apart_def disjoint_iff gateway_lock_def inserted_def image_iff split: if_splits)
next
  case (AtInsert g l)
  then show ?thesis using step ap
    by (auto simp: step_defs apart_def disjoint_iff gateway_lock_def inserted_def must_wait_def split: if_splits sum.splits) blast
qed (use step ap in \<open>auto simp: step_defs apart_def disjoint_iff gateway_lock_def inserted_def Let_def
       split: if_splits option.splits sum.splits outcome.splits\<close>)

subsection \<open>Stability\<close>

text \<open>What a session relies on survives the statements of other operations and the commit of another session.\<close>

lemma session_ok_quiet:
  assumes "session_ok s c" "quiet s t" shows "session_ok t c"
proof -
  have keys: "keys s \<subseteq> keys t" and gws: "gw_id ` set (gateways s) \<subseteq> gw_id ` set (gateways t)"
    using assms(2) by (simp_all add: quiet_def keys_def)
  have ids: "le_id ` set (leases t) = le_id ` set (leases s)"
    using arg_cong[OF quiet_ids[OF assms(2)], of "\<lambda>xs. fst ` set xs"] by (simp add: lease_key_def image_image)
  have "holds_address t c g l" if "holds_address s c g l" for g l
  proof -
    have "le_id k \<in> set (ss_rows c)" if k: "k \<in> set (leases t)" "same_address l k" for k
    proof -
      obtain k0 where "k0 \<in> set (leases s)" "quieter k0 k" by (rule quiet_lease[OF assms(2) k(1)])
      with k(2) \<open>holds_address s c g l\<close> show ?thesis
        by (auto simp: holds_address_def same_address_def quieter_def lease_key_def)
    qed
    with that keys gws show ?thesis by (auto simp: holds_address_def)
  qed
  then show ?thesis using assms(1) keys gws ids by (auto simp: session_ok_def split: connect_at.splits)
qed

lemma session_ok_commit:
  assumes "session_ok s c" "session_ok s d" "ss_at d = AtCommit g l" "apart c d"
  shows "session_ok (own_view d s) c"
proof -
  have d: "inserted d = [l]" "gateway_lock d = Some (le_gateway_id l)"
    using assms(2,3) by (simp_all add: inserted_def gateway_lock_def session_ok_def holds_address_def)
  have ids: "le_id ` set (leases (own_view d s)) = insert (le_id l) (le_id ` set (leases s))"
    using arg_cong[OF ids_own_view[of d s], of set] d(1) by simp
  have "holds_address (own_view d s) c g' l'"
    if h: "holds_address s c g' l'" and lock: "gateway_lock c = Some (g_ID (cand_g g'))" for g' l'
  proof -
    have "le_id k \<in> set (ss_rows c)" if k: "k \<in> set (leases (own_view d s))" "same_address l' k" for k
    proof -
      have "k \<noteq> l" using k(2) h lock d(2) assms(4) by (auto simp: same_address_def holds_address_def apart_def)
      then obtain k0 where "k0 \<in> set (leases s)" "active k \<longrightarrow> k = k0" using leases_own_view[OF k(1)] d(1) by auto
      with k(2) h show ?thesis by (auto simp: holds_address_def same_address_def)
    qed
    with h show ?thesis by (auto simp: holds_address_def)
  qed
  moreover have "le_id l' \<noteq> le_id l" if "ss_at c = AtCommit g' l'" for g' l'
    using that assms(4) d(1) by (auto simp: apart_def inserted_def)
  ultimately show ?thesis using assms(1) ids
    by (auto simp: session_ok_def gateway_lock_def split: connect_at.splits)
qed

lemma apart_ended: "gateway_lock c = None \<Longrightarrow> ss_rows c = [] \<Longrightarrow> inserted c = [] \<Longrightarrow> apart c d"
  by (simp add: apart_def)

lemma race_inv_race:
  assumes "race admit w w'" "race_inv w" shows "race_inv w'"
  using assms
proof (induction rule: race.induct)
  case (call e c userID dev country lt hb cs s)
  then have "\<forall>d\<in>set cs. apart c d" "session_ok s c"
    by (auto simp: new_session_def gateway_lock_def inserted_def session_ok_def intro: apart_ended)
  with call show ?case by (simp add: race_inv_def all_apart_snoc)
next
  case (run i cs s c t)
  have inv: "lease_base s" "all_apart cs" "\<And>d. d \<in> set cs \<Longrightarrow> session_ok s d" using run.prems by (auto simp: race_inv_def)
  have ci: "session_ok s (cs ! i)" using run.hyps(1) inv(3) by simp
  have ap: "\<forall>d\<in>set (others i cs). apart (cs ! i) d" using inv(2) run.hyps(1) by (simp add: all_pairs_def)
  have ot: "session_ok t d" if d: "d \<in> set (others i cs)" for d
  proof -
    have "session_ok s d" using d inv(3) run.hyps(1) by (auto simp: set_others)
    then show ?thesis using connect_step_db[OF run.hyps(2)] session_ok_commit[OF _ ci] ap d apart_sym by metis
  qed
  have "lease_base t" using connect_step_db[OF run.hyps(2)] inv(1) ci lease_base_commit by blast
  moreover have "all_apart (cs[i := c])"
    by (rule all_apart_update[OF inv(2) run.hyps(1) apart_step[OF run.hyps(2) ci ap]])
  moreover have "session_ok t d" if "d \<in> set (cs[i := c])" for d
    using that ot session_ok_step[OF run.hyps(2) inv(1) ci] run.hyps(1)
    by (auto simp: in_set_conv_nth nth_list_update set_others split: if_splits)
  ultimately show ?case by (simp add: race_inv_def)
next
  case (abort i cs s)
  then have ci: "session_ok s (rollback ErrDriver (cs ! i))" "\<forall>d\<in>set (others i cs). apart (rollback ErrDriver (cs ! i)) d"
    by (auto simp: race_inv_def session_ok_def rollback_def gateway_lock_def inserted_def intro!: apart_ended)
  then show ?case using abort all_apart_update[OF _ abort.hyps(1) ci(2)] set_update_subset_insert[of cs i]
    by (auto simp: race_inv_def)
next
  case (other s t cs)
  then show ?case by (auto simp: race_inv_def intro: lease_base_quiet session_ok_quiet)
qed

lemma race_inv_start: "store_inv s \<Longrightarrow> race_inv ([], s)"
  by (auto simp: race_inv_def store_inv_def schema_ok_def lease_inv_def lease_base_def all_pairs_def keys_def)

lemma race_inv_reachable: "(race admit)\<^sup>*\<^sup>* ([], s0) w \<Longrightarrow> store_inv s0 \<Longrightarrow> race_inv w"
  by (induction rule: rtranclp_induct) (auto intro: race_inv_race race_inv_start)

end
