(* ===== verification/Connect_Races.thy ===== *)
theory Connect_Races
  imports Concurrent_Connects
begin

text \<open>
  What overlapping connects (\<open>Concurrent_Connects\<close>) can and cannot do: the row lock on the
  gateway keeps their addresses apart and never deadlocks them; requests of one device have to come
  one after the other for it to hold one lease; and a connect can overtake a revocation.
\<close>

section \<open>Addresses\<close>

lemma inserted_at: "k \<in> set (inserted d) \<Longrightarrow> \<exists>g. ss_at d = AtCommit g k"
  by (cases "ss_at d") (simp_all add: inserted_def)

lemma no_address_wait:
  assumes inv: "race_inv (cs, s)" and i: "i < length cs" "ss_at (cs ! i) = AtInsert g l"
    and wait: "must_wait (others i cs) s l"
  shows "\<exists>d\<in>set (others i cs). \<exists>k\<in>set (inserted d). le_id k = le_id l"
proof -
  let ?c = "cs ! i"
  have ap: "apart ?c d" "session_ok s d" if "d \<in> set (others i cs)" for d
    using inv i(1) that by (auto simp: race_inv_def all_pairs_def set_others)
  have "session_ok s ?c" using inv i(1) by (simp add: race_inv_def)
  then have h: "holds_address s ?c g l" using i(2) by (simp add: session_ok_def)
  have "\<not> same_address l k" if d: "d \<in> set (others i cs)" "k \<in> set (inserted d)" for d k
  proof -
    obtain g' where "ss_at d = AtCommit g' k" using inserted_at[OF d(2)] by blast
    with ap[OF d(1)] h i(2) show ?thesis
      by (auto simp: apart_def gateway_lock_def session_ok_def holds_address_def same_address_def)
  qed
  moreover have "\<not> same_address l k" if "k \<in> set (leases s)" "le_id k \<in> row_locks (others i cs)" for k
    using that h ap(1) by (auto simp: holds_address_def row_locks_def apart_def disjoint_iff)
  ultimately show ?thesis using wait by (auto simp: must_wait_def)
qed

lemma insert_goes_through:
  assumes "session_ok s c" "ss_at c = AtInsert g l" "le_id l \<notin> le_id ` set (leases s)"
  shows "fst (insert_lease l (own_view c s)) = Inr ()"
proof -
  have h: "holds_address s c g l" and ins: "inserted c = []"
    using assms(1,2) by (simp_all add: session_ok_def inserted_def)
  have "le_id l \<notin> le_id ` set (leases (own_view c s))"
    using assms(3) arg_cong[OF ids_own_view[of c s], of set] ins by simp
  moreover have "le_assigned_ip_v4 k \<noteq> le_assigned_ip_v4 l"
    if "k \<in> set (leases (own_view c s))" "on_gateway (le_gateway_id l) k" for k
    using leases_own_view[OF that(1)] that(2) h ins
    by (auto simp: on_gateway_def holds_address_def same_address_def)
  moreover have "le_device_id l \<in> dev_id ` set (devices s)" using h by (force simp: holds_address_def keys_def)
  ultimately have "insert_lease l (own_view c s) = (Inr (), (own_view c s)\<lparr>leases := leases (own_view c s) @ [l]\<rparr>)"
    using h by (subst insert_lease_Inr) (auto simp: holds_address_def)
  then show ?thesis by simp
qed

text \<open>
  C7. However connects overlap with each other and with the other operations of the store, two
  of them never hold the same gateway, no two active leases of a gateway share an address, and the
  insert of a connect (of a row id not in use) neither waits for another connect nor runs into the
  unique index: the address it chose under the lock is still free.
\<close>

theorem concurrent_addresses:
  assumes "store_inv s0" "(race anyone)\<^sup>*\<^sup>* ([], s0) (cs, s)"
  shows "(\<forall>i<length cs. \<forall>j<length cs. i \<noteq> j \<longrightarrow> gateway_lock (cs ! i) \<noteq> None \<longrightarrow> gateway_lock (cs ! i) \<noteq> gateway_lock (cs ! j)) \<and>
     distinct (map (\<lambda>l. (le_gateway_id l, le_assigned_ip_v4 l)) (filter active (leases s))) \<and>
     (\<forall>i<length cs. \<forall>g l. ss_at (cs ! i) = AtInsert g l \<longrightarrow> e_outcome (ss_env (cs ! i)) 6 = Done \<longrightarrow>
        le_id l \<notin> le_id ` set (leases s) \<union> le_id ` set (concat (map inserted (others i cs))) \<longrightarrow>
        connect_step (others i cs) (cs ! i) s = Some (goto (AtCommit g l) (cs ! i), s))"
proof -
  have inv: "race_inv (cs, s)" by (rule race_inv_reachable[OF assms(2,1)])
  have "connect_step (others i cs) (cs ! i) s = Some (goto (AtCommit g l) (cs ! i), s)"
    if i: "i < length cs" "ss_at (cs ! i) = AtInsert g l" and out: "e_outcome (ss_env (cs ! i)) 6 = Done"
      and id: "le_id l \<notin> le_id ` set (leases s) \<union> le_id ` set (concat (map inserted (others i cs)))" for i g l
  proof -
    have "session_ok s (cs ! i)" using inv i(1) by (simp add: race_inv_def)
    from insert_goes_through[OF this i(2)] id have "fst (insert_lease l (own_view (cs ! i) s)) = Inr ()" by simp
    moreover have "\<not> must_wait (others i cs) s l"
      using no_address_wait[OF inv i] id by (force simp: image_iff)
    ultimately show ?thesis using i(2) out by (simp add: connect_step_def attempt_def)
  qed
  moreover have "all_apart cs" "lease_base s" using inv by (simp_all add: race_inv_def)
  ultimately show ?thesis by (auto simp: all_pairs_iff apart_def lease_base_def)
qed


section \<open>Progress\<close>

text \<open>A step of some session, and the statements a session has left.\<close>

definition proceed :: "world \<Rightarrow> world \<Rightarrow> bool" where
  "proceed w w' \<longleftrightarrow> (case w of (cs, s) \<Rightarrow>
     \<exists>i c t. i < length cs \<and> connect_step (others i cs) (cs ! i) s = Some (c, t) \<and> w' = (cs[i := c], t))"

fun left_at :: "connect_at \<Rightarrow> nat" where
  "left_at AtBegin = 9" | "left_at AtCheck = 8" | "left_at (AtRelease d) = 7" | "left_at (AtUpdate d ids) = 6"
| "left_at (AtSelect d) = 5" | "left_at (AtLock d g) = 4" | "left_at (AtUsed d g) = 3" | "left_at (AtInsert g l) = 2"
| "left_at (AtCommit g l) = 1" | "left_at (Ended r) = 0"

abbreviation work :: "session list \<Rightarrow> nat" where
  "work cs \<equiv> sum_list (map (left_at \<circ> ss_at) cs)"

lemma left_decreases: "connect_step os c s = Some (c', t) \<Longrightarrow> left_at (ss_at c') < left_at (ss_at c)"
  by (cases "ss_at c") (auto simp: step_defs Let_def split: if_splits option.splits sum.splits outcome.splits)

lemma work_decreases:
  assumes "proceed (cs, s) (cs', t)" shows "work cs' < work cs \<and> length cs' = length cs"
proof -
  obtain i c where i: "i < length cs" "connect_step (others i cs) (cs ! i) s = Some (c, t)" "cs' = cs[i := c]"
    using assms by (auto simp: proceed_def)
  have "left_at (ss_at c) < left_at (ss_at (cs ! i))" by (rule left_decreases[OF i(2)])
  moreover have "left_at (ss_at (cs ! i)) \<le> work cs"
    using i(1) member_le_sum_list[of "(left_at \<circ> ss_at) (cs ! i)" "map (left_at \<circ> ss_at) cs"] by simp
  ultimately show ?thesis using i by (simp add: map_update sum_list_update)
qed

text \<open>
  Who waits, waits for a session further on: for a row, for one that has released; for a gateway,
  for one that has the lock; at the insert, for one that is about to commit.
\<close>

lemma stuck_ended:
  assumes inv: "race_inv (cs, s)" and stuck: "\<And>i. i < length cs \<Longrightarrow> connect_step (others i cs) (cs ! i) s = None"
    and "c \<in> set cs"
  shows "ended c"
proof -
  have free: "\<not> (case ss_at c of AtUpdate _ _ \<Rightarrow> False | AtLock _ _ \<Rightarrow> False | AtInsert _ _ \<Rightarrow> False | Ended _ \<Rightarrow> False | _ \<Rightarrow> True)"
    if c: "c \<in> set cs" for c
  proof -
    obtain i where "i < length cs" "c = cs ! i" using c by (auto simp: in_set_conv_nth)
    then show ?thesis using stuck[of i] by (auto simp: connect_step_def attempt_def split: connect_at.splits if_splits)
  qed
  have ins: "ss_at c \<noteq> AtInsert g l" if c: "c \<in> set cs" for c g l
  proof
    assume at: "ss_at c = AtInsert g l"
    obtain i where i: "i < length cs" "c = cs ! i" using c by (auto simp: in_set_conv_nth)
    have "must_wait (others i cs) s l" using stuck[OF i(1)] at i(2)
      by (auto simp: connect_step_def attempt_def split: if_splits)
    then obtain d k where "d \<in> set (others i cs)" "k \<in> set (inserted d)"
      using no_address_wait[OF inv i(1)] at i(2) by blast
    then show False using inserted_at free[of d] i(1) by (fastforce simp: set_others)
  qed
  have lock: "ss_at c \<noteq> AtLock d g" if c: "c \<in> set cs" for c d g
  proof
    assume at: "ss_at c = AtLock d g"
    obtain i where i: "i < length cs" "c = cs ! i" using c by (auto simp: in_set_conv_nth)
    have "Some (g_ID (cand_g g)) \<in> set (map gateway_lock (others i cs))" using stuck[OF i(1)] at i(2)
      by (auto simp: connect_step_def attempt_def split: if_splits)
    then obtain x where "x \<in> set cs" "gateway_lock x = Some (g_ID (cand_g g))"
      using i(1) by (auto simp: set_others) (metis nth_mem)
    then show False using free[of x] ins[of x] by (cases "ss_at x") (auto simp: gateway_lock_def)
  qed
  have "ss_at c \<noteq> AtUpdate d ids" for d ids
  proof
    assume at: "ss_at c = AtUpdate d ids"
    obtain i where i: "i < length cs" "c = cs ! i" using assms(3) by (auto simp: in_set_conv_nth)
    have "row_locks (others i cs) \<noteq> {}" using stuck[OF i(1)] at i(2)
      by (auto simp: connect_step_def attempt_def split: if_splits)
    then obtain x where x: "x \<in> set cs" "ss_rows x \<noteq> []"
      using i(1) by (auto simp: row_locks_def set_others) (metis nth_mem)
    have "session_ok s x" using inv x(1) by (simp add: race_inv_def)
    with x free[of x] ins[of x] lock[of x] show False by (cases "ss_at x") (auto simp: session_ok_def)
  qed
  then show ?thesis using free[OF assms(3)] ins[OF assms(3)] lock[OF assms(3)]
    by (cases "ss_at c") (auto simp: ended_def)
qed

lemma proceed_race: "proceed w w' \<Longrightarrow> race admit w w'"
  by (auto simp: proceed_def intro: race.run)

lemma proceed_run:
  assumes "(proceed ^^ n) (cs, s) (cs', s')" shows "n + work cs' \<le> work cs \<and> length cs' = length cs"
  using assms
proof (induction n arbitrary: cs' s')
  case (Suc n)
  then obtain ds t where d: "(proceed ^^ n) (cs, s) (ds, t)" "proceed (ds, t) (cs', s')" by auto
  from Suc.IH[OF d(1)] work_decreases[OF d(2)] show ?case by linarith
qed simp


section \<open>One lease per device\<close>

text \<open>
  Nothing in the transaction keeps two connects of one device apart. When they come one after the
  other, a session that has released the device's leases knows of all of them until it commits.
\<close>

definition one_per_device :: "session list \<Rightarrow> session \<Rightarrow> bool" where
  "one_per_device cs c \<longleftrightarrow> (\<forall>d\<in>set cs. \<not> ended d \<longrightarrow> ss_deviceID d \<noteq> ss_deviceID c)"

fun known_at :: "string list \<Rightarrow> connect_at \<Rightarrow> string list option" where
  "known_at rows (AtUpdate d ids) = Some ids"
| "known_at rows (AtSelect d) = Some rows"
| "known_at rows (AtLock d g) = Some rows"
| "known_at rows (AtUsed d g) = Some rows"
| "known_at rows (AtInsert g l) = Some rows"
| "known_at rows (AtCommit g l) = Some rows"
| "known_at rows _ = None"

definition knows_leases :: "db \<Rightarrow> session \<Rightarrow> bool" where
  "knows_leases s c \<longleftrightarrow> (case known_at (ss_rows c) (ss_at c) of
     None \<Rightarrow> True | Some ids \<Rightarrow> \<forall>k\<in>set (leases s). of_device (ss_deviceID c) k \<longrightarrow> le_id k \<in> set ids)"

definition other_device :: "session \<Rightarrow> session \<Rightarrow> bool" where
  "other_device c d \<longleftrightarrow> ended c \<or> ended d \<or> ss_deviceID c \<noteq> ss_deviceID d"

lemma symp_other_device: "symp other_device"
  by (rule sympI) (auto simp: other_device_def)

definition serial_inv :: "world \<Rightarrow> bool" where
  "serial_inv w \<longleftrightarrow> (case w of (cs, s) \<Rightarrow>
     distinct (map le_device_id (filter active (leases s))) \<and>
     all_pairs other_device cs \<and>
     (\<forall>c\<in>set cs. knows_leases s c))"

lemma connect_step_sel:
  assumes "connect_step os c s = Some (c', t)" shows "ss_deviceID c' = ss_deviceID c" "\<not> ended c"
  using assms by (auto simp: step_defs Let_def ended_def split: connect_at.splits if_splits option.splits sum.splits
      outcome.splits prod.splits)

lemma knows_leases_ended: "ended c \<Longrightarrow> knows_leases s c"
  by (auto simp: knows_leases_def ended_def split: connect_at.splits)

lemma knows_leases_step:
  assumes step: "connect_step os c s = Some (c', t)" and ok: "session_ok s c" and know: "knows_leases s c"
  shows "knows_leases t c'"
proof (cases "ss_at c")
  case (AtRelease d)
  have "own_view c s = s" using AtRelease ok by (intro own_view_none) (simp_all add: session_ok_def inserted_def)
  then show ?thesis using AtRelease step by (auto simp: step_defs knows_leases_def)
next
  case (AtCommit g l)
  then have "ended c'" using step by (auto simp: step_defs ended_def split: outcome.splits)
  then show ?thesis by (rule knows_leases_ended)
qed (use step know in \<open>auto simp: step_defs knows_leases_def Let_def
       split: if_splits option.splits sum.splits\<close>)

lemma knows_leases_commit:
  assumes "knows_leases s c" "session_ok s d" "ss_at d = AtCommit g l" "\<not> ended c \<longrightarrow> ss_deviceID c \<noteq> ss_deviceID d"
  shows "knows_leases (own_view d s) c"
proof (cases "ended c")
  case False
  have l: "inserted d = [l]" "le_device_id l = ss_deviceID d"
    using assms(2,3) by (simp_all add: inserted_def session_ok_def holds_address_def)
  have "k \<in> set (leases s)" if "k \<in> set (leases (own_view d s))" "of_device (ss_deviceID c) k" for k
    using leases_own_view[OF that(1)] that(2) l assms(4) False by (auto simp: of_device_def)
  then show ?thesis using assms(1) by (auto simp: knows_leases_def split: option.splits)
qed (rule knows_leases_ended)

lemma devices_commit:
  assumes "distinct (map le_device_id (filter active (leases s)))" "knows_leases s c" "session_ok s c" "ss_at c = AtCommit g l"
  shows "distinct (map le_device_id (filter active (leases (own_view c s))))"
proof -
  have l: "inserted c = [l]" "le_device_id l = ss_deviceID c" "active l"
    using assms(3,4) by (simp_all add: inserted_def session_ok_def holds_address_def)
  have "distinct (map le_device_id (filter (\<lambda>k. le_id k \<notin> set (ss_rows c)) (filter active (leases s))))"
    by (rule distinct_map_filterI[OF assms(1)])
  then show ?thesis using l assms(2,4) by (auto simp: active_own_view knows_leases_def of_device_def conj_commute)
qed

lemma knows_leases_quiet:
  assumes "knows_leases s c" "quiet s t" shows "knows_leases t c"
proof -
  have "\<exists>k0\<in>set (leases s). of_device (ss_deviceID c) k0 \<and> le_id k0 = le_id k"
    if k: "k \<in> set (leases t)" "of_device (ss_deviceID c) k" for k
  proof -
    obtain k0 where "k0 \<in> set (leases s)" "quieter k0 k" by (rule quiet_lease[OF assms(2) k(1)])
    with k(2) show ?thesis by (auto simp: of_device_def quieter_def lease_key_def)
  qed
  then show ?thesis using assms(1) by (auto simp: knows_leases_def split: option.splits) metis
qed

lemma set_update_others: "i < length cs \<Longrightarrow> set (cs[i := c]) = insert c (set (others i cs))"
  by (simp add: others_def upd_conv_take_nth_drop Un_commute)

lemma serial_inv_race:
  assumes "race one_per_device w w'" "race_inv w" "serial_inv w" shows "serial_inv w'"
  using assms
proof (induction rule: race.induct)
  case (call e c userID dev country lt hb cs s)
  have "knows_leases s c" using call.hyps(2) by (simp add: knows_leases_def new_session_def)
  moreover have "\<forall>d\<in>set cs. other_device c d"
    using call.hyps(3) by (auto simp: other_device_def one_per_device_def)
  ultimately show ?case using call.prems all_pairs_snoc[OF symp_other_device] by (simp add: serial_inv_def)
next
  case (run i cs s c t)
  let ?c = "cs ! i"
  have ok: "\<And>d. d \<in> set cs \<Longrightarrow> session_ok s d" using run.prems(1) by (simp add: race_inv_def)
  have dist: "distinct (map le_device_id (filter active (leases s)))" and know: "\<And>d. d \<in> set cs \<Longrightarrow> knows_leases s d"
    and pairs: "all_pairs other_device cs" using run.prems(2) by (auto simp: serial_inv_def)
  have ci: "?c \<in> set cs" and sub: "set (others i cs) \<subseteq> set cs"
    using run.hyps(1) by (auto simp: others_def dest: in_set_takeD in_set_dropD)
  have dev: "other_device ?c d" if "d \<in> set (others i cs)" for d
    using pairs run.hyps(1) that by (simp add: all_pairs_def)
  note sel = connect_step_sel[OF run.hyps(2)]
  have "knows_leases t d" if d: "d \<in> set (others i cs)" for d
    using connect_step_db[OF run.hyps(2)] know[of d] d sub knows_leases_commit[OF _ ok[OF ci], of d] dev[OF d] sel(2)
    by (auto simp: other_device_def)
  moreover have "knows_leases t c" by (rule knows_leases_step[OF run.hyps(2) ok[OF ci] know[OF ci]])
  moreover have "distinct (map le_device_id (filter active (leases t)))"
    using connect_step_db[OF run.hyps(2)] dist devices_commit[OF dist know[OF ci] ok[OF ci]] by blast
  moreover have "all_pairs other_device (cs[i := c])"
    using dev sel by (intro all_pairs_update[OF symp_other_device pairs run.hyps(1)]) (auto simp: other_device_def)
  ultimately show ?case using run.hyps(1) by (auto simp: serial_inv_def set_update_others)
next
  case (abort i cs s)
  let ?c = "rollback ErrDriver (cs ! i)"
  have e: "ended ?c" by (simp add: rollback_def ended_def)
  have sub: "set (others i cs) \<subseteq> set cs" by (auto simp: others_def dest: in_set_takeD in_set_dropD)
  have "all_pairs other_device (cs[i := ?c])" using abort e
    by (intro all_pairs_update[OF symp_other_device]) (auto simp: serial_inv_def other_device_def)
  then show ?case using abort e sub by (auto simp: serial_inv_def set_update_others intro: knows_leases_ended)
next
  case (other s t cs)
  have "distinct (map le_device_id (filter active (leases t)))"
    by (rule distinct_active_quieter[of "leases s"])
      (use other in \<open>simp_all only: serial_inv_def quiet_def lease_key_def prod.inject prod.case\<close>)
  with other show ?case by (auto simp: serial_inv_def intro: knows_leases_quiet)
qed

text \<open>
  C11. When no two connects of the same device overlap, but connects of different devices and all
  other operations do as they like, the constraints of the leases hold in every committed state:
  no device has two active leases and no two active leases of a gateway share an address.
\<close>

theorem serial_devices:
  assumes "store_inv s0" "(race one_per_device)\<^sup>*\<^sup>* ([], s0) (cs, s)"
  shows "lease_inv s \<and> distinct (map (\<lambda>l. (le_gateway_id l, le_assigned_ip_v4 l)) (filter active (leases s)))"
proof -
  have "serial_inv ([], s0)" using assms(1) by (simp add: serial_inv_def store_inv_def lease_inv_def all_pairs_def)
  with assms(2) have "serial_inv (cs, s)"
  proof (induction rule: rtranclp_induct)
    case (step w w')
    then show ?case using race_inv_reachable[OF step.hyps(1) assms(1)] serial_inv_race by blast
  qed
  moreover have "race_inv (cs, s)" by (rule race_inv_reachable[OF assms(2,1)])
  ultimately show ?thesis by (simp add: serial_inv_def race_inv_def lease_base_def lease_inv_def keys_def)
qed

section \<open>Schedules\<close>

text \<open>A schedule names the session that takes the next step.\<close>

fun replay :: "nat list \<Rightarrow> world \<Rightarrow> world option" where
  "replay [] w = Some w"
| "replay (i # is) (cs, s) =
     (if i < length cs then
        (case connect_step (others i cs) (cs ! i) s of None \<Rightarrow> None | Some (c, t) \<Rightarrow> replay is (cs[i := c], t))
      else None)"

lemma replay_proceed: "replay is w = Some w' \<Longrightarrow> (proceed ^^ length is) w w'"
proof (induction "is" w rule: replay.induct)
  case (2 i "is" cs s)
  then obtain c t where c: "i < length cs" "connect_step (others i cs) (cs ! i) s = Some (c, t)"
    "replay is (cs[i := c], t) = Some w'" by (auto split: if_splits option.splits)
  then have "proceed (cs, s) (cs[i := c], t)" by (auto simp: proceed_def)
  with 2 c show ?case by (auto simp: relpowp_Suc_I2 simp del: relpowp.simps)
qed simp

declare replay.simps [simp del]

lemma proceed_runs: "(proceed ^^ n) w w' \<Longrightarrow> (race admit)\<^sup>*\<^sup>* w w'"
  using relpowp_imp_rtranclp[of n proceed w w']
  by (metis proceed_race mono_rtranclp)

definition sample_session :: "string \<Rightarrow> string \<Rightarrow> session" where
  "sample_session uuid dev = new_session (sample_env\<lparr>e_uuid := \<lambda>_. uuid\<rparr>) ''usr'' dev ''de'' 3600000000000 30000000000"

lemma sample_calls: "(race anyone)\<^sup>*\<^sup>* ([], s) ([sample_session u d, sample_session v e], s)"
proof -
  have ord: "row_order_ok (e_order (sample_env\<lparr>e_uuid := f\<rparr>))" for f by simp
  have "race anyone ([], s) ([] @ [sample_session u d], s)"
    by (rule race.call[OF ord]) (simp_all add: sample_session_def)
  moreover have "race anyone ([sample_session u d], s) ([sample_session u d] @ [sample_session v e], s)"
    by (rule race.call[OF ord]) (simp_all add: sample_session_def)
  ultimately show ?thesis by (metis append_Cons append_Nil rtranclp.simps)
qed

definition answers :: "session list \<Rightarrow> string list" where
  "answers cs = map (\<lambda>c. case ss_at c of Ended (Inr k) \<Rightarrow> c_AssignedIPv4 k | _ \<Rightarrow> '''') cs"

definition overview :: "world \<Rightarrow> string list \<times> (string \<times> lease_state) list \<times> (string \<times> bool) list" where
  "overview w = (case w of (cs, s) \<Rightarrow>
     (answers cs, map (\<lambda>l. (le_device_id l, le_state l)) (leases s),
      map (\<lambda>d. (dev_id d, dev_revoked_at d = None)) (devices s)))"

lemma answers_ended:
  assumes "answers cs = as" "'''' \<notin> set as" "c \<in> set cs" shows "\<exists>k. ss_at c = Ended (Inr k)"
proof -
  have "(case ss_at c of Ended (Inr k) \<Rightarrow> c_AssignedIPv4 k | _ \<Rightarrow> '''') \<in> set as"
    using assms(1,3) by (auto simp: answers_def)
  with assms(2) show ?thesis by (auto split: connect_at.splits sum.splits)
qed


section \<open>Two connects of one device\<close>

abbreviation double_schedule :: "nat list" where
  "double_schedule \<equiv> [0, 0, 0, 0, 1, 1, 1, 1, 0, 0, 0, 0, 0, 1, 1, 1, 1, 1]"

abbreviation double_calls :: world where
  "double_calls \<equiv> ([sample_session ''u1'' ''dev'', sample_session ''u2'' ''dev''], sample_net)"

lemma double_run:
  "map_option overview (replay double_schedule double_calls) =
   Some ([''10.7.50.2/32'', ''10.7.50.3/32''], [(''dev'', LActive), (''dev'', LActive)], [(''dev'', True)])"
  by code_simp

lemma double_outcome:
  obtains cs s where "(proceed ^^ 18) double_calls (cs, s)" "(race anyone)\<^sup>*\<^sup>* ([], sample_net) (cs, s)"
    "answers cs = [''10.7.50.2/32'', ''10.7.50.3/32'']"
    "map (\<lambda>l. (le_device_id l, le_state l)) (leases s) = [(''dev'', LActive), (''dev'', LActive)]"
proof -
  obtain cs s where r: "replay double_schedule double_calls = Some (cs, s)" using double_run by auto
  have p: "(proceed ^^ 18) double_calls (cs, s)" using replay_proceed[OF r] by (simp add: eval_nat_numeral del: relpowp.simps)
  from rtranclp_trans[OF sample_calls proceed_runs[OF this]] show thesis
    using that p double_run unfolding r by (auto simp: overview_def)
qed


theorem concurrent_addresses_witness:
  "\<exists>cs s. (race anyone)\<^sup>*\<^sup>* ([], sample_net) (cs, s) \<and> length (filter active (leases s)) = 2 \<and>
     distinct (map (\<lambda>l. (le_gateway_id l, le_assigned_ip_v4 l)) (filter active (leases s)))"
proof -
  obtain cs s where cs: "(race anyone)\<^sup>*\<^sup>* ([], sample_net) (cs, s)"
    "map (\<lambda>l. (le_device_id l, le_state l)) (leases s) = [(''dev'', LActive), (''dev'', LActive)]"
    by (rule double_outcome)
  then have "length (filter active (leases s)) = 2" by (auto simp: active_def map_eq_Cons_conv)
  with concurrent_addresses[OF store_inv_sample_net cs(1)] cs(1) show ?thesis by blast
qed




section \<open>A connect and a revocation\<close>

lemma overtaking_run:
  "(case replay [0, 0, 0, 0] ([sample_session ''u1'' ''dev''], sample_net) of
      None \<Rightarrow> None
    | Some (cs, s) \<Rightarrow>
        (case RevokeDevice sample_env ''usr'' ''dev'' s of (r, t) \<Rightarrow>
           Some (r, leases s = [], map_option overview (replay [0, 0, 0, 0, 0] (cs, t))))) =
   Some (Inr (), True, Some ([''10.7.50.2/32''], [(''dev'', LActive)], [(''dev'', False)]))"
  by code_simp


text \<open>With one device at a time: a connect that runs through.\<close>

lemma single_run:
  "map_option overview (replay [0, 0, 0, 0, 0, 0, 0, 0, 0] ([sample_session ''u1'' ''dev''], sample_net)) =
   Some ([''10.7.50.2/32''], [(''dev'', LActive)], [(''dev'', True)])"
  by code_simp

theorem serial_devices_witness:
  "\<exists>cs s. (race one_per_device)\<^sup>*\<^sup>* ([], sample_net) (cs, s) \<and> length (filter active (leases s)) = 1 \<and> lease_inv s"
proof -
  have ord: "row_order_ok (e_order (sample_env\<lparr>e_uuid := f\<rparr>))" for f by simp
  have call: "race one_per_device ([], sample_net) ([] @ [sample_session ''u1'' ''dev''], sample_net)"
    by (rule race.call[OF ord]) (simp_all add: sample_session_def one_per_device_def)
  obtain cs s where r: "replay [0, 0, 0, 0, 0, 0, 0, 0, 0] ([sample_session ''u1'' ''dev''], sample_net) = Some (cs, s)"
    using single_run by auto
  have reach: "(race one_per_device)\<^sup>*\<^sup>* ([], sample_net) (cs, s)"
    using proceed_runs[OF replay_proceed[OF r], of one_per_device] call by (auto intro: converse_rtranclp_into_rtranclp)
  moreover have "length (filter active (leases s)) = 1"
    using single_run unfolding r by (auto simp: overview_def active_def map_eq_Cons_conv)
  ultimately show ?thesis using serial_devices[OF store_inv_sample_net reach] by blast
qed

end
