(* ===== verification/Spec2Isabelle.thy ===== *)
theory Spec2Isabelle
  imports Fleet_Sync Controld Probe Metrics Connect_Races
begin

text \<open>
  Aevora: the control plane of a WireGuard VPN and the agent of its gateways.

  \<^bold>\<open>The program.\<close> Users enrol with an invite, register devices (WireGuard public keys) and ask
  the control plane (\<^verbatim>\<open>src/control-plane\<close>) for a connection to a country. The control plane picks a
  healthy gateway, leases it an inner address for the device and answers with the tunnel
  configuration. On every gateway an agent (\<^verbatim>\<open>src/agent\<close>) registers itself, reports its load and
  makes the peers of its WireGuard interface those of the current leases. A reaper in the control
  plane takes silent gateways out of service and ends leases that were not renewed.

  \<^bold>\<open>Theories and the code they model.\<close> Standard library and language first:
  \<^item> \<open>Prelude\<close>: 64-bit integers, actions (state passing with errors), invariants kept by actions,
    tables as lists. \<open>Go_Float\<close>: \<open>float64\<close> with its rounding. \<open>Go_Strings\<close>,
    \<open>Go_Net\<close>, \<open>Go_Crypto\<close>, \<open>Go_Json\<close>, \<open>Go_Time\<close>: what the code uses of
    \<^verbatim>\<open>strings\<close>, \<^verbatim>\<open>strconv\<close>, \<^verbatim>\<open>net\<close>, \<^verbatim>\<open>crypto/sha256\<close>, \<^verbatim>\<open>crypto/hmac\<close>,
    \<^verbatim>\<open>encoding/base64\<close>, \<^verbatim>\<open>encoding/json\<close> and \<^verbatim>\<open>time\<close>.
  \<^item> \<open>Model\<close>: \<^verbatim>\<open>model/model.go\<close>. \<open>Selection\<close>: \<^verbatim>\<open>selection/selection.go\<close>, the scores
    and the choice of a gateway.
  \<^item> \<open>Auth\<close>, \<open>Jwt\<close>, \<open>Password\<close>: \<^verbatim>\<open>auth/token.go\<close>, \<^verbatim>\<open>auth/jwt.go\<close>,
    \<^verbatim>\<open>auth/password.go\<close>.
  \<^item> \<open>Database\<close>: the tables, the constraints of the schema, statements and transactions, and the
    locale \<open>statements\<close>: what an invariant must be kept by. \<open>Store_Alloc\<close>,
    \<open>Store_Connections\<close>, \<open>Lease_Lifecycle\<close>: \<^verbatim>\<open>store/connections.go\<close> and the reaper of
    \<^verbatim>\<open>cmd/aevora-controld/main.go\<close>. \<open>Store_Gateways\<close>: \<^verbatim>\<open>store/gateways.go\<close>.
    \<open>Store_Fleet\<close>: \<^verbatim>\<open>store/locations.go\<close>, \<^verbatim>\<open>store/observability.go\<close>.
    \<open>Store_Identity\<close>, \<open>Identity_Lifecycle\<close>: \<^verbatim>\<open>store/identity.go\<close>.
    \<open>Concurrent_Connects\<close>, \<open>Connect_Races\<close>: \<open>CreateConnection\<close> statement by statement, interleaved
    with other calls of it and of the rest of the store.
  \<^item> \<open>RateLimit\<close>: \<^verbatim>\<open>ratelimit/ratelimit.go\<close>. \<open>Config\<close>: \<^verbatim>\<open>config/config.go\<close>.
    \<open>Http\<close>, \<open>Api\<close>: \<^verbatim>\<open>api/*.go\<close>, one definition per handler, the routes and the
    middleware composed into \<open>serve\<close>. \<open>System\<close>: runs of the control plane. \<open>Migrate\<close>, \<open>Controld\<close>: \<^verbatim>\<open>store/store.go\<close> and
    the program around the server, from its start to its exit. \<open>Metrics\<close>: \<^verbatim>\<open>metrics/metrics.go\<close>. \<open>Api_Security\<close>:
    who may do what.
  \<^item> \<open>Reconcile\<close>, \<open>Wg\<close>, \<open>Sysload\<close>, \<open>Cp\<close>, \<open>Agent\<close>: \<^verbatim>\<open>agent/internal/*\<close>
    and \<^verbatim>\<open>agent/cmd/aevora-agent/main.go\<close>. \<open>Probe\<close>: the latency responder of \<^verbatim>\<open>agent/internal/probe\<close>
    as a step relation. \<open>Fleet_Sync\<close>: both programs together.

  \<^bold>\<open>State and operations.\<close> The state of the control plane is the record \<open>server\<close>: the
  database (one list of rows per table), the rate limiter and the metrics recorded so far. An operation of the
  store is an action on the database with an error of \<open>store_error\<close>; its environment \<open>env\<close>
  holds what it does not control: the clocks, fresh identifiers, random bytes, the order in which
  rows come, and for every statement whether it is carried out, refused, or carried out without the
  caller learning of it. A handler maps a request and the database to a response, the metrics
  it records and the new database; a panic is a value and becomes the 500 of \<open>recoverer\<close>.
  \<open>step\<close> is a request, a tick of the reaper, or a clean-up of the limiter. The agent's
  operations are actions on a world of its own (\<open>agent_os\<close>): token file, \<open>wg\<close> tool, network.

  \<^bold>\<open>What is shown.\<close>
  \<^item> Allocation and selection: the allocator returns the lowest free host of the subnet, never the
    network, gateway or broadcast address; the selection is the first best of the eligible.
  \<^item> The store: what every operation does on success, that failed transactions leave nothing behind, that an
    eligible connect succeeds, that invites are used once and revocation shuts a device out.
  \<^item> The whole control plane: the constraints hold in every reachable state whatever requests come
    and whatever the database server does, what was ended or revoked never comes back, users only
    change what is theirs, and requests without their credential change nothing. Client lemmas are
    proved once in the locales \<open>statements\<close> and \<open>store_contract\<close>, which are interpreted for
    the invariant of the store, for the history of the rows and for the text of IPv6 addresses.
  \<^item> Overlapping connects: alone, a session is the sequential transaction; together, the row lock on
    the gateway keeps their addresses apart without deadlock, and the constraints of the leases hold if
    connects of one device do not overlap. They fail otherwise, and a connect can overtake a revocation:
    both are shown by schedules.
  \<^item> Migrations: interrupted anywhere, schema and record agree, and the next run completes them.
  \<^item> Tokens: issued tokens are accepted until they expire, accepted tokens were signed under the
    secret; passwords verify against their hash; the limiter is one bucket per key.
  \<^item> The agent: plans are correct and independent of map order, applying one leaves the desired
    peers, the wire formats of both sides agree, and a successful synchronisation installs exactly
    the current leases of the gateway; the latency responder stops once it is cancelled.

  \<^bold>\<open>Parameters and hypotheses.\<close> Third-party code and tools are arguments: argon2
  (\<open>IDKey_ok\<close>), the token bucket of \<^verbatim>\<open>golang.org/x/time/rate\<close>, the \<open>wg\<close> tool
  (\<open>wg_semantics\<close>, \<open>tool_ok\<close>), the network (\<open>network_ok\<close>), the Prometheus client
  (\<open>prometheus_ok\<close>). Witnesses instantiate them.

  \<^bold>\<open>Bounds and fuel.\<close> The only fuel is that of the JSON reader: a text of \<open>n\<close> characters is
  read with \<open>2 * n + 2\<close> steps, and \<open>Go_Json\<close> shows that more makes no difference. All other
  loops are structural or have a measure; the allocator's loop over \<open>uint32\<close> hosts ends at the
  broadcast address.

  \<^bold>\<open>Simplifications.\<close> Floating point is that of amd64 without fused operations; strings are
  bytes, with white space and case folding of ASCII; request and response bodies are the JSON values
  they denote; paths are clean when they reach the mux; one request reads the clock once. A
  statement is atomic. In \<open>System\<close> and \<open>Controld\<close> requests are handled one after the other;
  \<open>Concurrent_Connects\<close> models the interleaving of the one operation whose locks matter, at
  PostgreSQL's read committed level, against an over-approximation of all others (\<open>quiet\<close>).

  \<^bold>\<open>Not modelled.\<close> The connection pool, what the SQL text of the migrations and the seed data
  does (the resulting schema is in \<open>Database\<close>), the page Prometheus renders, log lines,
  the sockets of the HTTP server, and the console, apps
  and deployment files in other languages.
\<close>

lemma empty_db_ok: "store_inv empty_db"
  by (rule store_inv_empty)

end
